theory Spec2Isabelle
  imports Main "HOL-Library.Word"
begin

unbundle bit_operations_syntax

section \<open>Bytes, integers and diagnostics\<close>

type_synonym byte = "8 word"

text \<open>C \<^verbatim>\<open>int\<close>, \<^verbatim>\<open>int64_t\<close> and \<^verbatim>\<open>mtime_t\<close> values are modelled as
  \<^typ>\<open>int\<close>: every quantity handled below is a byte count, a 13-bit PID, a 33-bit clock
  value or a small multiple of one, far from the 64-bit limits.\<close>

datatype msg_level = Dbg | Warn | Err

text \<open>A logged message: its level, its format string and the values formatted into it.\<close>

type_synonym msg = "msg_level \<times> string \<times> int list"

section \<open>The input byte stream\<close>

text \<open>Modelled from the spec: the stream abstraction (\<^verbatim>\<open>stream_Peek\<close>, \<^verbatim>\<open>stream_Read\<close>,
  \<^verbatim>\<open>stream_Block\<close>, \<^verbatim>\<open>stream_Tell\<close>, \<^verbatim>\<open>stream_Seek\<close>, \<^verbatim>\<open>stream_Size\<close>) lives in the
  player core, outside the demultiplexer sources. Section 6 of the specification describes it as
  an open byte stream providing read, peek (non-consuming lookahead), tell, seek-to-offset and
  size. It is rendered as the whole content together with the read position; a seek succeeds
  exactly for the offsets from 0 to the size.\<close>

record stream =
  s_data :: "byte list"
  s_pos :: nat

definition stream_Tell :: "stream \<Rightarrow> int" where
  "stream_Tell s = int (s_pos s)"

definition stream_Size :: "stream \<Rightarrow> int" where
  "stream_Size s = int (length (s_data s))"

definition stream_Peek :: "stream \<Rightarrow> nat \<Rightarrow> byte list" where
  "stream_Peek s n = take n (drop (s_pos s) (s_data s))"

definition stream_Read :: "stream \<Rightarrow> nat \<Rightarrow> stream" where
  "stream_Read s n = s\<lparr>s_pos := s_pos s + length (stream_Peek s n)\<rparr>"

definition stream_Block :: "stream \<Rightarrow> nat \<Rightarrow> (byte list \<times> stream) option" where
  "stream_Block s n =
     (let bs = stream_Peek s n
      in if bs = [] then None else Some (bs, s\<lparr>s_pos := s_pos s + length bs\<rparr>))"

definition stream_Seek :: "stream \<Rightarrow> int \<Rightarrow> stream option" where
  "stream_Seek s p =
     (if 0 \<le> p \<and> p \<le> stream_Size s then Some (s\<lparr>s_pos := nat p\<rparr>) else None)"

definition stream_wf :: "stream \<Rightarrow> bool" where
  "stream_wf s \<longleftrightarrow> s_pos s \<le> length (s_data s)"

section \<open>Packet size detection\<close>

definition TS_PACKET_SIZE_188 :: nat where "TS_PACKET_SIZE_188 = 188"
definition TS_PACKET_SIZE_192 :: nat where "TS_PACKET_SIZE_192 = 192"
definition TS_PACKET_SIZE_204 :: nat where "TS_PACKET_SIZE_204 = 204"
definition TS_PACKET_SIZE_MAX :: nat where "TS_PACKET_SIZE_MAX = 204"

text \<open>\<^verbatim>\<open>memcmp( p_peek, "TFrc", 4 ) == 0\<close>\<close>

definition is_topfield :: "byte list \<Rightarrow> bool" where
  "is_topfield p \<longleftrightarrow> take 4 p = [0x54, 0x46, 0x72, 0x63]"

text \<open>The three sync bytes that must follow the one at \<open>i_sync\<close>, a packet size apart.\<close>

definition next3_sync :: "byte list \<Rightarrow> nat \<Rightarrow> nat \<Rightarrow> bool" where
  "next3_sync p i_sync sz \<longleftrightarrow>
     p ! (i_sync + 1 * sz) = 0x47 \<and> p ! (i_sync + 2 * sz) = 0x47 \<and> p ! (i_sync + 3 * sz) = 0x47"

text \<open>The result of \<^verbatim>\<open>DetectPacketSize\<close>: the returned \<^verbatim>\<open>int\<close> (a packet size or -1), the
  value left in \<^verbatim>\<open>*pi_header_size\<close> and the messages logged. \<open>hdr0\<close> is what the caller had
  stored in \<^verbatim>\<open>*pi_header_size\<close> (0 in \<^verbatim>\<open>Open\<close>).\<close>

record detect_result =
  d_ret :: int
  d_header_size :: int
  d_log :: "msg list"

text \<open>The loop \<^verbatim>\<open>for( i_sync = 0; i_sync < TS_PACKET_SIZE_MAX; i_sync++ )\<close>; \<open>k\<close> counts the
  iterations still to run and \<open>p_peek\<close> is the buffer of the latest peek. \<open>None\<close> means the loop ran
  out without returning.\<close>

fun sync_loop :: "stream \<Rightarrow> byte list \<Rightarrow> nat \<Rightarrow> nat \<Rightarrow> detect_result option" where
  "sync_loop s p_peek 0 i_sync = None"
| "sync_loop s p_peek (Suc k) i_sync =
     (if p_peek ! i_sync \<noteq> 0x47 then sync_loop s p_peek k (i_sync + 1)
      else
        let i_peek = TS_PACKET_SIZE_MAX * 3 + i_sync + 1;
            p_peek' = stream_Peek s i_peek
        in if length p_peek' < i_peek
           then Some \<lparr>d_ret = -1, d_header_size = 0, d_log = [(Err, ''cannot peek'', [])]\<rparr>
           else if next3_sync p_peek' i_sync TS_PACKET_SIZE_188
           then Some \<lparr>d_ret = int TS_PACKET_SIZE_188, d_header_size = 0, d_log = []\<rparr>
           else if next3_sync p_peek' i_sync TS_PACKET_SIZE_192
           then Some \<lparr>d_ret = int TS_PACKET_SIZE_192,
                       d_header_size = (if i_sync = 4 then 4 else 0), d_log = []\<rparr>
           else if next3_sync p_peek' i_sync TS_PACKET_SIZE_204
           then Some \<lparr>d_ret = int TS_PACKET_SIZE_204, d_header_size = 0, d_log = []\<rparr>
           else sync_loop s p_peek' k (i_sync + 1))"

definition DetectPacketSize :: "bool \<Rightarrow> stream \<Rightarrow> int \<Rightarrow> detect_result" where
  "DetectPacketSize b_force s hdr0 =
     (let p_peek = stream_Peek s TS_PACKET_SIZE_MAX
      in if length p_peek < TS_PACKET_SIZE_MAX
         then \<lparr>d_ret = -1, d_header_size = hdr0, d_log = []\<rparr>
         else if is_topfield p_peek
         then \<lparr>d_ret = int TS_PACKET_SIZE_188, d_header_size = 0,
               d_log = [(Dbg, ''this is a topfield file'', [])]\<rparr>
         else case sync_loop s p_peek TS_PACKET_SIZE_MAX 0 of
                Some r \<Rightarrow> r
              | None \<Rightarrow>
                  if b_force
                  then \<lparr>d_ret = int TS_PACKET_SIZE_188, d_header_size = 0,
                        d_log = [(Warn, ''this does not look like a TS stream, continuing'', [])]\<rparr>
                  else \<lparr>d_ret = -1, d_header_size = 0,
                        d_log = [(Dbg, ''TS module discarded (lost sync)'', [])]\<rparr>)"


text \<open>Iteration \<open>i_sync\<close> of the loop in \<^verbatim>\<open>DetectPacketSize\<close> returns a size when the byte at
  \<open>i_sync\<close> is a sync byte and three more follow at one of the three distances.\<close>

definition sync_found :: "byte list \<Rightarrow> nat \<Rightarrow> bool" where
  "sync_found p i_sync \<longleftrightarrow> p ! i_sync = 0x47 \<and>
     (next3_sync p i_sync TS_PACKET_SIZE_188 \<or> next3_sync p i_sync TS_PACKET_SIZE_192
      \<or> next3_sync p i_sync TS_PACKET_SIZE_204)"

text \<open>What that iteration returns: the smallest of the three sizes whose distance fits, and a
  header size of 4 only for size 192 found at offset 4.\<close>

definition found_result :: "byte list \<Rightarrow> nat \<Rightarrow> detect_result" where
  "found_result a j =
     (if next3_sync a j TS_PACKET_SIZE_188
      then \<lparr>d_ret = int TS_PACKET_SIZE_188, d_header_size = 0, d_log = []\<rparr>
      else if next3_sync a j TS_PACKET_SIZE_192
      then \<lparr>d_ret = int TS_PACKET_SIZE_192, d_header_size = (if j = 4 then 4 else 0), d_log = []\<rparr>
      else \<lparr>d_ret = int TS_PACKET_SIZE_204, d_header_size = 0, d_log = []\<rparr>)"

text \<open>Example inputs: 816 bytes holding four packets of 188 bytes after 4 other bytes; four
  packets of 192 bytes whose sync bytes come after a 4-byte header; and no sync byte at all.\<close>

definition ex188 :: stream where
  "ex188 = \<lparr>s_data = [0, 0, 0, 0] @ (0x47 # replicate 187 0) @ (0x47 # replicate 187 0)
                @ (0x47 # replicate 187 0) @ (0x47 # replicate 187 0) @ replicate 60 0, s_pos = 0\<rparr>"

definition ex192 :: stream where
  "ex192 = \<lparr>s_data = [0, 0, 0, 0] @ (0x47 # replicate 191 0) @ (0x47 # replicate 191 0)
                @ (0x47 # replicate 191 0) @ (0x47 # replicate 191 0) @ replicate 44 0, s_pos = 0\<rparr>"

definition ex_noise :: stream where
  "ex_noise = \<lparr>s_data = replicate 816 0x55, s_pos = 0\<rparr>"

section \<open>What the demultiplexer takes from its environment\<close>

type_synonym vlc_fourcc = "32 word"

text \<open>The headers of the player core and of the helper libraries are not among the sources.
  Their constants and the functions the demultiplexer calls from them are parameters of the
  model, collected here:
  \<^item> \<open>VLC_TS_0\<close>, \<open>VLC_TS_INVALID\<close>: the timestamp origin and the "no timestamp" value;
  \<^item> the \<open>VLC_CODEC_\<close> codec identifiers;
  \<^item> \<open>object_alive\<close>: the answer of \<^verbatim>\<open>vlc_object_alive\<close> during the call;
  \<^item> \<open>stale\<close>: the indeterminate bytes a read finds beyond the filled part of a block
    (a block is allocated at the requested size plus padding, and filled with what the stream had);
  \<^item> \<open>es_out_Add_ret\<close>: the handle \<^verbatim>\<open>es_out_Add\<close> returns (\<open>None\<close> for \<^verbatim>\<open>NULL\<close>), given the
    number of requests the sink has received before;
  \<^item> \<open>set_id_state_ret\<close>: the return code of
    \<^verbatim>\<open>stream_Control( s, STREAM_SET_PRIVATE_ID_STATE, i_pid, b_selected )\<close>;
  \<^item> \<open>csa_Decrypt\<close>: the descrambler applied to a packet buffer and a packet size;
  \<^item> \<open>opus_frame_duration\<close>: the sample count of an Opus access unit.\<close>

record vlc_env =
  VLC_TS_0 :: int
  VLC_TS_INVALID :: int
  VLC_CODEC_MPGV :: vlc_fourcc
  VLC_CODEC_MPGA :: vlc_fourcc
  VLC_CODEC_MP4A :: vlc_fourcc
  VLC_CODEC_MP4V :: vlc_fourcc
  VLC_CODEC_H264 :: vlc_fourcc
  VLC_CODEC_HEVC :: vlc_fourcc
  VLC_CODEC_CAVS :: vlc_fourcc
  VLC_CODEC_A52 :: vlc_fourcc
  VLC_CODEC_SCTE_27 :: vlc_fourcc
  VLC_CODEC_SDDS :: vlc_fourcc
  VLC_CODEC_DTS :: vlc_fourcc
  VLC_CODEC_EAC3 :: vlc_fourcc
  VLC_CODEC_SUBT :: vlc_fourcc
  VLC_CODEC_TELETEXT :: vlc_fourcc
  VLC_CODEC_ARIB_A :: vlc_fourcc
  VLC_CODEC_ARIB_C :: vlc_fourcc
  VLC_CODEC_OPUS :: vlc_fourcc
  object_alive :: bool
  stale :: "nat \<Rightarrow> byte"
  es_out_Add_ret :: "nat \<Rightarrow> nat option"
  set_id_state_ret :: "int \<Rightarrow> bool \<Rightarrow> int"
  csa_Decrypt :: "byte list \<Rightarrow> int \<Rightarrow> byte list"
  opus_frame_duration :: "byte list \<Rightarrow> int"

definition VLC_SUCCESS :: int where "VLC_SUCCESS = 0"

text \<open>Only the sign and the non-zero-ness of the error code matter to the callers.\<close>

definition VLC_EGENERIC :: int where "VLC_EGENERIC = -1"

text \<open>Integer division and remainder of C truncate towards zero.\<close>

definition c_div :: "int \<Rightarrow> int \<Rightarrow> int" where
  "c_div a b = sgn a * sgn b * (\<bar>a\<bar> div \<bar>b\<bar>)"

definition c_mod :: "int \<Rightarrow> int \<Rightarrow> int" where
  "c_mod a b = a - b * c_div a b"

text \<open>\<open>p[k]\<close> on the buffer of a block: the byte read from the stream, or whatever the block's
  memory held when the stream ended before the block was full.\<close>

definition pkt_byte :: "vlc_env \<Rightarrow> byte list \<Rightarrow> nat \<Rightarrow> byte" where
  "pkt_byte env p k = (if k < length p then p ! k else stale env k)"

section \<open>Data model\<close>

datatype es_cat = UNKNOWN_ES | VIDEO_ES | AUDIO_ES | SPU_ES | NAV_ES

text \<open>The fields of \<^verbatim>\<open>es_format_t\<close> that the modelled functions read or write.\<close>

record es_format =
  i_cat :: es_cat
  i_codec :: vlc_fourcc
  i_id :: int
  i_group :: int
  b_packetized :: bool

text \<open>Modelled from the spec: \<^verbatim>\<open>es_format_Init\<close> is a function of the player core. The ES
  descriptor of section 3 carries category, codec identifier and grouping id; initialisation
  stores the category and the codec and gives the other fields their defaults (no stream id,
  group 0, packetized).\<close>

definition es_format_Init :: "es_cat \<Rightarrow> vlc_fourcc \<Rightarrow> es_format" where
  "es_format_Init cat codec =
     \<lparr>i_cat = cat, i_codec = codec, i_id = -1, i_group = 0, b_packetized = True\<rparr>"

text \<open>\<^verbatim>\<open>#define VLC_FOURCC( a, b, c, d )\<close>: the four characters, first one lowest.\<close>

definition VLC_FOURCC :: "byte \<Rightarrow> byte \<Rightarrow> byte \<Rightarrow> byte \<Rightarrow> vlc_fourcc" where
  "VLC_FOURCC a b c d =
     ucast a OR push_bit 8 (ucast b) OR push_bit 16 (ucast c) OR push_bit 24 (ucast d)"

datatype block_flag = BLOCK_FLAG_CORRUPTED | BLOCK_FLAG_PREROLL

text \<open>A \<^verbatim>\<open>block_t\<close>: the bytes from \<^verbatim>\<open>p_buffer\<close> on (\<^verbatim>\<open>i_buffer\<close> is their number), the flag bits
  set in \<^verbatim>\<open>i_flags\<close>, and the timestamps. A chain of blocks (\<^verbatim>\<open>p_next\<close>) is a list.\<close>

record block =
  p_buffer :: "byte list"
  i_flags :: "block_flag set"
  i_pts :: int
  i_dts :: int
  i_length :: int
  i_nb_samples :: int

text \<open>Modelled from the spec: a block fresh from \<^verbatim>\<open>stream_Block\<close> or \<^verbatim>\<open>block_Alloc\<close> (player core)
  has no flag, no timestamp and no duration.\<close>

definition block_new :: "vlc_env \<Rightarrow> byte list \<Rightarrow> block" where
  "block_new env bs = \<lparr>p_buffer = bs, i_flags = {}, i_pts = VLC_TS_INVALID env,
     i_dts = VLC_TS_INVALID env, i_length = 0, i_nb_samples = 0\<rparr>"

datatype ts_es_data_type = TS_ES_DATA_PES | TS_ES_DATA_TABLE_SECTION

text \<open>\<^verbatim>\<open>ts_es_t\<close>. \<open>p_data\<close> is the chain being gathered (\<open>[]\<close> for \<^verbatim>\<open>NULL\<close>; \<^verbatim>\<open>pp_last\<close> is its end).
  \<open>p_mpeg4desc\<close> holds \<^verbatim>\<open>dec_descr.p_extra\<close> of the MPEG-4 descriptor, when there is one.\<close>

record ts_es =
  fmt :: es_format
  es_id :: "nat option"
  data_type :: ts_es_data_type
  i_data_size :: int
  i_data_gathered :: int
  p_data :: "block list"
  p_mpeg4desc :: "byte list option"

text \<open>\<^verbatim>\<open>ts_prg_psi_t\<close>. \<open>handle\<close> is the program number the PMT decoder was attached for;
  \<open>iod\<close> the descriptor bytes the IOD was built from.\<close>

record ts_prg_psi =
  handle :: "int option"
  i_version :: int
  i_number :: int
  i_pid_pcr :: int
  i_pid_pmt :: int
  i_pcr_value :: int
  iod :: "byte list option"

record ts_psi =
  psi_handle :: bool
  i_pat_version :: int
  i_sdt_version :: int
  prg :: "ts_prg_psi list"

text \<open>\<^verbatim>\<open>ts_pid_t\<close>. The pointer \<^verbatim>\<open>p_owner\<close> refers to the \<^verbatim>\<open>ts_psi_t\<close> of another entry of the
  PID table; it is kept as the index of that entry.\<close>

record ts_pid =
  i_pid :: int
  b_seen :: bool
  b_valid :: bool
  i_cc :: int
  b_scrambled :: bool
  p_owner :: "nat option"
  i_owner_number :: int
  psi :: "ts_psi option"
  es :: "ts_es option"
  extra_es :: "ts_es list"

datatype es_out_event =
    Es_out_Add es_format
  | Es_out_Del nat
  | Es_out_Send "nat option" block
  | ES_OUT_SET_GROUP_PCR int int
  | ES_OUT_SET_ES_SCRAMBLED_STATE "nat option" bool
  | ES_OUT_DEL_GROUP int

datatype stream_ctl =
    STREAM_SET_PRIVATE_ID_STATE int bool
  | STREAM_SET_RECORD_STATE bool

datatype arib_modes_e = ARIBMODE_AUTO | ARIBMODE_DISABLED | ARIBMODE_ENABLED

text \<open>\<^verbatim>\<open>demux_t\<close> with its \<^verbatim>\<open>demux_sys_t\<close>: the fields of \<^verbatim>\<open>p_sys\<close> under their own names,
  the input stream \<^verbatim>\<open>p_demux->s\<close> (\<open>strm\<close>), and what the demultiplexer has sent out so far: the requests to
  the output sink (\<open>out\<close>), the control requests to the stream (\<open>ctl\<close>) and the messages
  logged (\<open>msgs\<close>), oldest first. \<open>pmt\<close> lists the PID table entries that \<^verbatim>\<open>p_sys->pmt\<close>
  points to. \<open>csa\<close> tells whether a descrambler is installed.\<close>

record demux =
  strm :: stream
  out :: "es_out_event list"
  ctl :: "stream_ctl list"
  msgs :: "msg list"
  i_packet_size :: nat
  i_packet_header_size :: nat
  i_ts_read :: int
  i_pid_ref_pcr :: int
  i_first_pcr :: int
  i_current_pcr :: int
  i_last_pcr :: int
  b_force_seek_per_percent :: bool
  i_pcrs_num :: int
  p_pcrs :: "int list"
  p_pos :: "int list"
  arib_e_mode :: arib_modes_e
  pid :: "nat \<Rightarrow> ts_pid"
  b_user_pmt :: bool
  pmt :: "nat list"
  i_pmt_es :: int
  b_es_id_pid :: bool
  csa :: bool
  i_csa_pkt_size :: int
  b_split_es :: bool
  b_trust_pcr :: bool
  b_access_control :: bool
  b_dvb_meta :: bool
  i_current_program :: int
  programs_list :: "int list"
  b_start_record :: bool

definition msg_log :: "msg_level \<Rightarrow> string \<Rightarrow> int list \<Rightarrow> demux \<Rightarrow> demux" where
  "msg_log lvl text args d = d\<lparr>msgs := msgs d @ [(lvl, text, args)]\<rparr>"

section \<open>Clock references\<close>

text \<open>The loop of \<^verbatim>\<open>AdjustPCRWrapAround\<close>,
  \<^verbatim>\<open>for( i = 1; i < p_sys->i_pcrs_num && p_sys->p_pos[i] <= i_pos; ++i )\<close>;
  it returns the final \<open>i\<close> and \<open>i_adjust\<close>.\<close>

function wrap_loop :: "demux \<Rightarrow> int \<Rightarrow> nat \<Rightarrow> int \<Rightarrow> nat \<times> int" where
  "wrap_loop d i_pos i i_adjust =
     (if int i < i_pcrs_num d \<and> p_pos d ! i \<le> i_pos
      then wrap_loop d i_pos (Suc i)
             (if p_pcrs d ! (i - 1) > p_pcrs d ! i then i_adjust + 0x1FFFFFFFF else i_adjust)
      else (i, i_adjust))"
  by pat_completeness auto
termination
  by (relation "measure (\<lambda>(d, i_pos, i, a). nat (i_pcrs_num d) - i)") auto

declare wrap_loop.simps [simp del]

definition AdjustPCRWrapAround :: "demux \<Rightarrow> int \<Rightarrow> int" where
  "AdjustPCRWrapAround d i_pcr =
     (let i_pos = stream_Tell (strm d);
          (i, i_adjust) = wrap_loop d i_pos 1 0;
          i_adjust = (if p_pcrs d ! (i - 1) > i_pcr then i_adjust + 0x1FFFFFFFF else i_adjust)
      in i_pcr + i_adjust)"


section \<open>The state at open time\<close>

text \<open>A PID table entry after \<^verbatim>\<open>memset( p_sys, 0, sizeof( demux_sys_t ) )\<close> and the first loop
  of \<^verbatim>\<open>Open\<close>, which stores the index and clears the two flags.\<close>

definition pid_zero :: "nat \<Rightarrow> ts_pid" where
  "pid_zero i = \<lparr>i_pid = int i, b_seen = False, b_valid = False, i_cc = 0, b_scrambled = False,
     p_owner = None, i_owner_number = 0, psi = None, es = None, extra_es = []\<rparr>"

text \<open>\<^verbatim>\<open>p_sys\<close> after \<^verbatim>\<open>memset( p_sys, 0, sizeof( demux_sys_t ) )\<close>, on the stream \<open>st\<close>.\<close>

definition p_sys_zero :: "stream \<Rightarrow> demux" where
  "p_sys_zero st = \<lparr>strm = st, out = [], ctl = [], msgs = [],
     i_packet_size = 0, i_packet_header_size = 0, i_ts_read = 0,
     i_pid_ref_pcr = 0, i_first_pcr = 0, i_current_pcr = 0, i_last_pcr = 0,
     b_force_seek_per_percent = False, i_pcrs_num = 0, p_pcrs = [], p_pos = [],
     arib_e_mode = ARIBMODE_DISABLED, pid = pid_zero, b_user_pmt = False, pmt = [],
     i_pmt_es = 0, b_es_id_pid = False, csa = False, i_csa_pkt_size = 0, b_split_es = False,
     b_trust_pcr = False, b_access_control = False, b_dvb_meta = False,
     i_current_program = 0, programs_list = [], b_start_record = False\<rparr>"

section \<open>Reading packets and probing clock references\<close>

text \<open>A run of the C code can stop on a null pointer, a division by zero, a failed
  \<^verbatim>\<open>assert\<close> or a read far behind a buffer. Functions that can do so return \<open>Inl\<close> of the
  fault.\<close>

datatype fault = Null_dereference | Division_by_zero | Assertion_failed | Buffer_overrun

text \<open>\<^verbatim>\<open>PIDGet\<close>: the 13-bit packet identifier in bytes 1 and 2.\<close>

definition PIDGet :: "vlc_env \<Rightarrow> byte list \<Rightarrow> int" where
  "PIDGet env p = push_bit 8 (uint (pkt_byte env p 1 AND 0x1f)) OR uint (pkt_byte env p 2)"

text \<open>\<^verbatim>\<open>GetPCR\<close>: the 33-bit clock reference of a packet that carries one, else -1.\<close>

definition GetPCR :: "vlc_env \<Rightarrow> byte list \<Rightarrow> int" where
  "GetPCR env p =
     (if pkt_byte env p 3 AND 0x20 \<noteq> 0 \<and> pkt_byte env p 5 AND 0x10 \<noteq> 0 \<and> 7 \<le> pkt_byte env p 4
      then push_bit 25 (uint (pkt_byte env p 6)) OR push_bit 17 (uint (pkt_byte env p 7))
           OR push_bit 9 (uint (pkt_byte env p 8)) OR push_bit 1 (uint (pkt_byte env p 9))
           OR drop_bit 7 (uint (pkt_byte env p 10))
      else -1)"

text \<open>The inner loop of the resynchronisation in \<^verbatim>\<open>ReadTSPacket\<close>:
  \<^verbatim>\<open>while( i_skip < i_peek - p_sys->i_packet_size )\<close>, left at the first offset where two sync
  bytes lie one packet apart. \<open>lim\<close> is \<^verbatim>\<open>i_peek - p_sys->i_packet_size\<close>.\<close>

function resync_scan :: "vlc_env \<Rightarrow> byte list \<Rightarrow> nat \<Rightarrow> nat \<Rightarrow> nat \<Rightarrow> nat \<Rightarrow> nat" where
  "resync_scan env p_peek pkt_size hdr_size lim i_skip =
     (if i_skip < lim
      then if pkt_byte env p_peek (i_skip + hdr_size) = 0x47
              \<and> pkt_byte env p_peek (i_skip + hdr_size + pkt_size) = 0x47
           then i_skip
           else resync_scan env p_peek pkt_size hdr_size lim (i_skip + 1)
      else i_skip)"
  by pat_completeness auto
termination
  by (relation "measure (\<lambda>(env, p, pkt, hdr, lim, i). lim - i)") auto

declare resync_scan.simps [simp del]

lemma resync_scan_le: "i \<le> lim \<Longrightarrow> resync_scan env p pkt hdr lim i \<le> lim"
  by (induction env p pkt hdr lim i rule: resync_scan.induct)
     (subst resync_scan.simps, auto)

text \<open>The outer loop, \<^verbatim>\<open>while( vlc_object_alive (p_demux) )\<close>. It works on the stream and appends
  to the messages \<open>lg\<close>; the flag returned is \<open>False\<close> when the loop ends with
  \<^verbatim>\<open>return NULL\<close> and \<open>True\<close> when it is left for the final \<^verbatim>\<open>stream_Block\<close>.\<close>

function resync :: "vlc_env \<Rightarrow> nat \<Rightarrow> nat \<Rightarrow> stream \<Rightarrow> msg list \<Rightarrow> bool \<times> stream \<times> msg list" where
  "resync env pkt_size hdr_size st lg =
     (if \<not> object_alive env then (True, st, lg)
      else
        let p_peek = stream_Peek st (pkt_size * 10);
            i_peek = length p_peek
        in if i_peek < pkt_size + 1 then (False, st, lg @ [(Dbg, ''eof ?'', [])])
           else
             let i_skip = resync_scan env p_peek pkt_size hdr_size (i_peek - pkt_size) 0;
                 lg' = lg @ [(Dbg, ''skipping %d bytes of garbage'', [int i_skip])];
                 st' = stream_Read st i_skip
             in if i_skip < i_peek - pkt_size then (True, st', lg')
                else resync env pkt_size hdr_size st' lg')"
  by pat_completeness auto
termination
proof (relation "measure (\<lambda>(env, pkt, hdr, st, lg). length (s_data st) - s_pos st)", goal_cases)
  case 1
  show ?case by simp
next
  case (2 env pkt hdr st lg p_peek i_peek i_skip lg' st')
  have le: "i_skip \<le> i_peek - pkt"
    unfolding 2(5) by (rule resync_scan_le) simp
  with 2 have eq: "i_skip = i_peek - pkt" by simp
  have pos: "0 < i_skip" using eq 2 by simp
  have "i_peek \<le> length (s_data st) - s_pos st"
    unfolding 2(3) 2(2) by (simp add: stream_Peek_def)
  then have av: "i_skip \<le> length (s_data st) - s_pos st" using eq by simp
  have "length (stream_Peek st i_skip) = i_skip"
    using av by (simp add: stream_Peek_def)
  then show ?case
    using pos av unfolding 2(7) by (simp add: stream_Read_def)
qed

declare resync.simps [simp del]

text \<open>The body of \<^verbatim>\<open>ReadTSPacket\<close> on the stream: the packet (\<open>None\<close> for \<^verbatim>\<open>NULL\<close>), the stream
  afterwards and the messages logged. The 4-byte header is skipped on the first block only,
  as in the source.\<close>

definition read_packet ::
  "vlc_env \<Rightarrow> nat \<Rightarrow> nat \<Rightarrow> stream \<Rightarrow> byte list option \<times> stream \<times> msg list" where
  "read_packet env pkt_size hdr_size st =
     (case stream_Block st pkt_size of
        None \<Rightarrow> (None, st, [(Dbg, ''eof ?'', [])])
      | Some (bs, st1) \<Rightarrow>
          let p_pkt = drop hdr_size bs
          in if pkt_byte env p_pkt 0 \<noteq> 0x47
             then
               (case resync env pkt_size hdr_size st1 [(Warn, ''lost synchro'', [])] of
                  (False, st2, lg) \<Rightarrow> (None, st2, lg)
                | (True, st2, lg) \<Rightarrow>
                    (case stream_Block st2 pkt_size of
                       None \<Rightarrow> (None, st2, lg @ [(Dbg, ''eof ?'', [])])
                     | Some (bs', st3) \<Rightarrow> (Some bs', st3, lg)))
             else (Some p_pkt, st1, []))"

text \<open>\<^verbatim>\<open>ReadTSPacket\<close> on the demultiplexer state.\<close>

definition ReadTSPacket :: "vlc_env \<Rightarrow> demux \<Rightarrow> byte list option \<times> demux" where
  "ReadTSPacket env d =
     (case read_packet env (i_packet_size d) (i_packet_header_size d) (strm d) of
        (p_pkt, st, lg) \<Rightarrow> (p_pkt, d\<lparr>strm := st, msgs := msgs d @ lg\<rparr>))"

lemma stream_Read_frame:
  "s_data (stream_Read st n) = s_data st" "s_pos st \<le> s_pos (stream_Read st n)"
  by (simp_all add: stream_Read_def)

lemma resync_frame:
  "resync env pkt hdr st lg = (b, st', lg') \<Longrightarrow>
     s_data st' = s_data st \<and> s_pos st \<le> s_pos st'"
proof (induction env pkt hdr st lg arbitrary: b st' lg' rule: resync.induct)
  case (1 env pkt hdr st lg)
  let ?p = "stream_Peek st (pkt * 10)"
  let ?k = "resync_scan env ?p pkt hdr (length ?p - pkt) 0"
  show ?case
  proof (cases "\<not> object_alive env \<or> length ?p < pkt + 1 \<or> ?k < length ?p - pkt")
    case True
    then show ?thesis
      using "1.prems" by (subst (asm) resync.simps) (auto simp: Let_def stream_Read_frame split: if_splits)
  next
    case False
    then have r: "resync env pkt hdr st lg = resync env pkt hdr (stream_Read st ?k)
        (lg @ [(Dbg, ''skipping %d bytes of garbage'', [int ?k])])"
      by (subst resync.simps) (simp add: Let_def)
    have "s_data st' = s_data (stream_Read st ?k) \<and> s_pos (stream_Read st ?k) \<le> s_pos st'"
      using False "1.prems" r by (intro "1.IH" [OF _ refl refl _ refl refl refl]) auto
    then show ?thesis
      using stream_Read_frame(2) [of st ?k]
      by (auto simp: stream_Read_frame(1) intro: order_trans)
  qed
qed

lemma stream_Block_frame:
  assumes "stream_Block st n = Some (bs, st')"
  shows "s_data st' = s_data st" "s_pos st < s_pos st'" "s_pos st' \<le> length (s_data st)"
    "bs = stream_Peek st n"
  using assms by (auto simp: stream_Block_def stream_Peek_def Let_def split: if_splits)

lemma read_packet_frame:
  assumes "read_packet env pkt hdr st = (r, st', lg)"
  shows "s_data st' = s_data st \<and> s_pos st \<le> s_pos st'
     \<and> (r \<noteq> None \<longrightarrow> s_pos st < s_pos st' \<and> s_pos st' \<le> length (s_data st))"
proof (cases "stream_Block st pkt")
  case None
  then show ?thesis using assms by (auto simp: read_packet_def)
next
  case (Some a)
  obtain bs s1 where a: "a = (bs, s1)" by (cases a)
  note b1 = stream_Block_frame(1-3) [OF Some [unfolded a]]
  show ?thesis
  proof (cases "pkt_byte env (drop hdr bs) 0 \<noteq> 0x47")
    case False
    then have "st' = s1" using assms Some a by (auto simp: read_packet_def Let_def)
    then show ?thesis using b1 by simp
  next
    case True
    obtain b s2 lg2 where rs: "resync env pkt hdr s1 [(Warn, ''lost synchro'', [])] = (b, s2, lg2)"
      by (cases "resync env pkt hdr s1 [(Warn, ''lost synchro'', [])]") auto
    note f2 = resync_frame [OF rs]
    show ?thesis
    proof (cases "b \<and> stream_Block s2 pkt \<noteq> None")
      case False
      then have "st' = s2 \<and> r = None" using assms Some a True rs
        by (auto simp: read_packet_def Let_def split: bool.splits option.splits)
      then show ?thesis using b1 f2 by simp
    next
      case b: True
      then obtain bs' s3 where s3: "stream_Block s2 pkt = Some (bs', s3)" by auto
      note b2 = stream_Block_frame(1-3) [OF s3]
      have "st' = s3"
        using assms Some a True rs b s3 by (auto simp: read_packet_def Let_def)
      moreover have "s_pos st < s_pos s3" "s_data s3 = s_data st" "s_pos s3 \<le> length (s_data st)"
        using b1 f2 b2 by simp_all
      ultimately show ?thesis by simp
    qed
  qed
qed

text \<open>The loop of \<^verbatim>\<open>SeekToPCR\<close>; it returns the final \<^verbatim>\<open>i_pcr\<close>.\<close>

function SeekToPCR_loop ::
  "vlc_env \<Rightarrow> nat \<Rightarrow> nat \<Rightarrow> int \<Rightarrow> int \<Rightarrow> stream \<Rightarrow> msg list \<Rightarrow> int \<times> stream \<times> msg list" where
  "SeekToPCR_loop env pkt_size hdr_size pid_ref_pcr i_last_pos st lg =
     (if \<not> object_alive env then (-1, st, lg)
      else case read_packet env pkt_size hdr_size st of
          (None, st', lg') \<Rightarrow> (-1, st', lg @ lg')
        | (Some p_pkt, st', lg') \<Rightarrow>
            let i_pcr = (if PIDGet env p_pkt = pid_ref_pcr then GetPCR env p_pkt else -1)
            in if i_pcr \<ge> 0 then (i_pcr, st', lg @ lg')
               else if stream_Tell st' \<ge> i_last_pos then (i_pcr, st', lg @ lg')
               else SeekToPCR_loop env pkt_size hdr_size pid_ref_pcr i_last_pos st' (lg @ lg'))"
  by pat_completeness auto
termination
proof (relation "measure (\<lambda>(env, pkt, hdr, r, l, st, lg). length (s_data st) - s_pos st)", goal_cases)
  case 1
  show ?case by simp
next
  case (2 env pkt hdr r l st lg x1 x2 p st' lg' i_pcr)
  then have rp: "read_packet env pkt hdr st = (Some p, st', lg')" by simp
  from read_packet_frame [OF rp]
  have "s_data st' = s_data st" "s_pos st < s_pos st'" "s_pos st' \<le> length (s_data st)"
    by simp_all
  then show ?case by simp
qed

text \<open>\<^verbatim>\<open>SeekToPCR\<close>: the return code and the state. After a failed search the position is
  restored and \<^verbatim>\<open>assert( i_initial_pos == stream_Tell( p_demux->s ) )\<close> is checked.\<close>

definition SeekToPCR :: "vlc_env \<Rightarrow> demux \<Rightarrow> int \<Rightarrow> fault + (int \<times> demux)" where
  "SeekToPCR env d i_pos =
     (let i_initial_pos = stream_Tell (strm d)
      in if i_pos < 0 then Inr (VLC_EGENERIC, d)
         else
           let i_last_pos = stream_Size (strm d) - int (i_packet_size d);
               i_pos = (if i_pos > i_last_pos then i_last_pos else i_pos)
           in case stream_Seek (strm d) i_pos of
                None \<Rightarrow> Inr (VLC_EGENERIC, d)
              | Some st \<Rightarrow>
                  (case SeekToPCR_loop env (i_packet_size d) (i_packet_header_size d)
                          (i_pid_ref_pcr d) i_last_pos st [] of
                     (i_pcr, st', lg) \<Rightarrow>
                       if i_pcr < 0
                       then (case stream_Seek st' i_initial_pos of
                               Some st'' \<Rightarrow> Inr (VLC_EGENERIC, d\<lparr>strm := st'', msgs := msgs d @ lg\<rparr>)
                             | None \<Rightarrow>
                                 if i_initial_pos = stream_Tell st'
                                 then Inr (VLC_EGENERIC, d\<lparr>strm := st', msgs := msgs d @ lg\<rparr>)
                                 else Inl Assertion_failed)
                       else Inr (VLC_SUCCESS,
                                 d\<lparr>strm := st', msgs := msgs d @ lg, i_current_pcr := i_pcr\<rparr>)))"

lemma SeekToPCR_loop_frame:
  "SeekToPCR_loop env pkt hdr r l st lg = (i_pcr, st', lg') \<Longrightarrow>
     s_data st' = s_data st \<and> s_pos st \<le> s_pos st' \<and>
     (0 \<le> i_pcr \<longrightarrow> s_pos st < s_pos st' \<and> s_pos st' \<le> length (s_data st))"
proof (induction env pkt hdr r l st lg arbitrary: i_pcr st' lg' rule: SeekToPCR_loop.induct)
  case (1 env pkt hdr r l st lg)
  show ?case
  proof (cases "object_alive env")
    case False
    then show ?thesis using "1.prems" by (subst (asm) SeekToPCR_loop.simps) auto
  next
    case True
    obtain rp s1 lg1 where rp: "read_packet env pkt hdr st = (rp, s1, lg1)"
      by (cases "read_packet env pkt hdr st") auto
    note f = read_packet_frame [OF rp]
    show ?thesis
    proof (cases rp)
      case None
      then show ?thesis using "1.prems" True rp f
        by (subst (asm) SeekToPCR_loop.simps) auto
    next
      case (Some p)
      let ?pcr = "if PIDGet env p = r then GetPCR env p else -1"
      show ?thesis
      proof (cases "0 \<le> ?pcr \<or> l \<le> stream_Tell s1")
        case stop: True
        have "SeekToPCR_loop env pkt hdr r l st lg = (?pcr, s1, lg @ lg1)"
          using True rp Some stop by (subst SeekToPCR_loop.simps) (auto simp: Let_def)
        then show ?thesis using "1.prems" f Some by auto
      next
        case go: False
        have eq: "SeekToPCR_loop env pkt hdr r l st lg = SeekToPCR_loop env pkt hdr r l s1 (lg @ lg1)"
          using True rp Some go by (subst SeekToPCR_loop.simps) (auto simp: Let_def)
        have "s_data st' = s_data s1 \<and> s_pos s1 \<le> s_pos st' \<and>
           (0 \<le> i_pcr \<longrightarrow> s_pos s1 < s_pos st' \<and> s_pos st' \<le> length (s_data s1))"
          using "1.IH" [of rp "(s1, lg1)" p s1 lg1 ?pcr i_pcr st' lg'] True rp Some go "1.prems" eq
          by auto
        then show ?thesis using f by auto
      qed
    qed
  qed
qed

declare SeekToPCR_loop.simps [simp del]

lemma stream_Seek_Some:
  "stream_Seek st p = Some st' \<Longrightarrow> s_data st' = s_data st \<and> int (s_pos st') = p \<and> 0 \<le> p
     \<and> p \<le> int (length (s_data st))"
  by (auto simp: stream_Seek_def stream_Size_def split: if_splits)

lemma stream_Seek_back:
  "s_pos st \<le> length (s_data st) \<Longrightarrow> s_data st' = s_data st \<Longrightarrow>
   stream_Seek st' (stream_Tell st) = Some st"
  by (simp add: stream_Seek_def stream_Size_def stream_Tell_def)

lemma SeekToPCR_cases:
  assumes "SeekToPCR env d i_pos = Inr (rc, d')"
  obtains (neg) "i_pos < 0" "rc = VLC_EGENERIC" "d' = d"
  | (noseek) "0 \<le> i_pos" "rc = VLC_EGENERIC" "d' = d"
  | (nopcr) st i_pcr st' lg st'' where "0 \<le> i_pos" "rc = VLC_EGENERIC"
      "stream_Seek (strm d) (min i_pos (stream_Size (strm d) - int (i_packet_size d))) = Some st"
      "SeekToPCR_loop env (i_packet_size d) (i_packet_header_size d) (i_pid_ref_pcr d)
          (stream_Size (strm d) - int (i_packet_size d)) st [] = (i_pcr, st', lg)"
      "i_pcr < 0"
      "stream_Seek st' (stream_Tell (strm d)) = Some st'' \<or>
       (stream_Seek st' (stream_Tell (strm d)) = None \<and> st'' = st' \<and> stream_Tell (strm d) = stream_Tell st')"
      "d' = d\<lparr>strm := st'', msgs := msgs d @ lg\<rparr>"
  | (found) st i_pcr st' lg where "0 \<le> i_pos" "rc = VLC_SUCCESS"
      "stream_Seek (strm d) (min i_pos (stream_Size (strm d) - int (i_packet_size d))) = Some st"
      "SeekToPCR_loop env (i_packet_size d) (i_packet_header_size d) (i_pid_ref_pcr d)
          (stream_Size (strm d) - int (i_packet_size d)) st [] = (i_pcr, st', lg)"
      "0 \<le> i_pcr"
      "d' = d\<lparr>strm := st', msgs := msgs d @ lg, i_current_pcr := i_pcr\<rparr>"
proof -
  have m: "(if i_pos > stream_Size (strm d) - int (i_packet_size d)
            then stream_Size (strm d) - int (i_packet_size d) else i_pos)
           = min i_pos (stream_Size (strm d) - int (i_packet_size d))"
    by (simp add: min_def)
  show ?thesis
  proof (cases "i_pos < 0")
    case True
    then show ?thesis using assms neg by (simp add: SeekToPCR_def Let_def)
  next
    case False
    show ?thesis
    proof (cases "stream_Seek (strm d) (min i_pos (stream_Size (strm d) - int (i_packet_size d)))")
      case None
      then show ?thesis using assms False noseek by (simp add: SeekToPCR_def Let_def m)
    next
      case (Some st)
      obtain i_pcr st' lg where l: "SeekToPCR_loop env (i_packet_size d) (i_packet_header_size d) (i_pid_ref_pcr d)
          (stream_Size (strm d) - int (i_packet_size d)) st [] = (i_pcr, st', lg)"
        by (cases "SeekToPCR_loop env (i_packet_size d) (i_packet_header_size d) (i_pid_ref_pcr d)
          (stream_Size (strm d) - int (i_packet_size d)) st []") auto
      show ?thesis
      proof (cases "i_pcr < 0")
        case pos: False
        then show ?thesis using assms False Some l
          by (intro found [of st i_pcr st' lg]) (auto simp: SeekToPCR_def Let_def m)
      next
        case True
        show ?thesis
        proof (cases "stream_Seek st' (stream_Tell (strm d))")
          case s2: (Some st'')
          then show ?thesis using assms False Some l True
            by (intro nopcr [of st i_pcr st' lg st'']) (auto simp: SeekToPCR_def Let_def m)
        next
          case None
          then show ?thesis using assms False Some l True
            by (intro nopcr [of st i_pcr st' lg st']) (auto simp: SeekToPCR_def Let_def m split: if_splits)
        qed
      qed
    qed
  qed
qed

lemma SeekToPCR_keeps:
  assumes "SeekToPCR env d i_pos = Inr (rc, d')"
  shows "s_data (strm d') = s_data (strm d)"
    and "i_packet_size d' = i_packet_size d" and "i_packet_header_size d' = i_packet_header_size d"
    and "i_pid_ref_pcr d' = i_pid_ref_pcr d" and "p_pcrs d' = p_pcrs d" and "p_pos d' = p_pos d"
    and "i_pcrs_num d' = i_pcrs_num d" and "i_first_pcr d' = i_first_pcr d"
    and "i_last_pcr d' = i_last_pcr d" and "b_force_seek_per_percent d' = b_force_seek_per_percent d"
    and "out d' = out d" and "ctl d' = ctl d" and "pid d' = pid d" and "pmt d' = pmt d"
    and "i_pmt_es d' = i_pmt_es d"
    and "rc = VLC_SUCCESS \<or> rc = VLC_EGENERIC"
proof -
  show "s_data (strm d') = s_data (strm d)"
    using assms
  proof (cases rule: SeekToPCR_cases)
    case (nopcr st i_pcr st' lg st'')
    then show ?thesis
      using stream_Seek_Some [of "strm d" _ st] SeekToPCR_loop_frame [of env _ _ _ _ st "[]" i_pcr st' lg]
        stream_Seek_Some [of st' _ st'']
      by auto
  next
    case (found st i_pcr st' lg)
    then show ?thesis
      using stream_Seek_Some [of "strm d" _ st] SeekToPCR_loop_frame [of env _ _ _ _ st "[]" i_pcr st' lg]
      by auto
  qed simp_all
qed (use assms in \<open>cases rule: SeekToPCR_cases; simp\<close>)+

lemma SeekToPCR_ok:
  assumes "SeekToPCR env d i_pos = Inr (VLC_SUCCESS, d')"
  shows "0 \<le> i_current_pcr d'" and "0 \<le> i_pos"
    and "min i_pos (stream_Size (strm d) - int (i_packet_size d)) < stream_Tell (strm d')"
    and "stream_wf (strm d')"
proof -
  have "0 \<le> i_current_pcr d' \<and> 0 \<le> i_pos
      \<and> min i_pos (stream_Size (strm d) - int (i_packet_size d)) < stream_Tell (strm d')
      \<and> stream_wf (strm d')"
    using assms
  proof (cases rule: SeekToPCR_cases)
    case (found st i_pcr st' lg)
    note a = stream_Seek_Some [OF found(3)] and b = SeekToPCR_loop_frame [OF found(4)]
    have "int (s_pos st) < int (s_pos st')" using b found(5) by simp
    then show ?thesis
      using found a b by (simp add: stream_Tell_def stream_wf_def)
  qed (simp_all add: VLC_SUCCESS_def VLC_EGENERIC_def)
  then show "0 \<le> i_current_pcr d'" and "0 \<le> i_pos"
    and "min i_pos (stream_Size (strm d) - int (i_packet_size d)) < stream_Tell (strm d')"
    and "stream_wf (strm d')" by simp_all
qed

lemma c_mod_bound: "0 < b \<Longrightarrow> \<bar>c_mod a b\<bar> < b"
proof -
  assume b: "0 < b"
  show ?thesis
  proof (cases "0 \<le> a")
    case True
    then have "c_mod a b = a mod b" using b
      by (simp add: c_mod_def c_div_def sgn_if minus_mult_div_eq_mod algebra_simps)
    then show ?thesis using b by simp
  next
    case False
    then have "c_mod a b = - ((- a) mod b)" using b
      by (simp add: c_mod_def c_div_def sgn_if algebra_simps minus_mult_div_eq_mod [symmetric])
    then show ?thesis using b by simp
  qed
qed

lemma c_div_half: "0 \<le> a \<Longrightarrow> 0 \<le> c_div a 2 \<and> c_div a 2 \<le> a"
proof -
  assume a: "0 \<le> a"
  have "a div 2 \<le> a" "0 \<le> a div 2" using a by presburger+
  then show ?thesis using a by (simp add: c_div_def sgn_if)
qed

section \<open>Seeking\<close>

text \<open>The first loop of \<^verbatim>\<open>Seek\<close>, which picks the pair of samples around the target;
  it returns the final \<open>i\<close>.\<close>

function Seek_bracket :: "demux \<Rightarrow> int \<Rightarrow> nat \<Rightarrow> int \<Rightarrow> nat" where
  "Seek_bracket d i_target_pcr i i_adjust =
     (if int i < i_pcrs_num d
      then let i_adjust = (if p_pcrs d ! (i - 1) > p_pcrs d ! i
                           then i_adjust + 0x1FFFFFFFF else i_adjust)
           in if p_pcrs d ! i + i_adjust > i_target_pcr then i
              else Seek_bracket d i_target_pcr (Suc i) i_adjust
      else i)"
  by pat_completeness auto
termination
  by (relation "measure (\<lambda>(d, t, i, a). nat (i_pcrs_num d) - i)") auto

declare Seek_bracket.simps [simp del]

text \<open>The bisection of \<^verbatim>\<open>Seek\<close>, \<^verbatim>\<open>while( i_head_pos <= i_tail_pos )\<close>; it returns
  \<^verbatim>\<open>b_found\<close>, \<^verbatim>\<open>i_cnt\<close> and the state. \<^verbatim>\<open>i_pos % p_sys->i_packet_size\<close> traps for a packet
  size of 0.\<close>

function Seek_loop ::
  "vlc_env \<Rightarrow> int \<Rightarrow> demux \<Rightarrow> int \<Rightarrow> int \<Rightarrow> int \<Rightarrow> fault + (bool \<times> int \<times> demux)" where
  "Seek_loop env i_target_pcr d i_head_pos i_tail_pos i_cnt =
     (if i_head_pos \<le> i_tail_pos
      then if i_packet_size d = 0 then Inl Division_by_zero
           else
             let i_pos = i_head_pos + c_div (i_tail_pos - i_head_pos) 2;
                 i_div = c_mod i_pos (int (i_packet_size d));
                 i_pos = i_pos - i_div
             in case SeekToPCR env d i_pos of
                  Inl f \<Rightarrow> Inl f
                | Inr (rc, d1) \<Rightarrow>
                    if rc \<noteq> VLC_SUCCESS then Inr (False, i_cnt, d1)
                    else
                      let d2 = d1\<lparr>i_current_pcr := AdjustPCRWrapAround d1 (i_current_pcr d1)\<rparr>;
                          i_diff_msec = c_div (c_div ((i_current_pcr d2 - i_target_pcr) * 100) 9) 1000
                      in if i_diff_msec > 500
                         then Seek_loop env i_target_pcr d2 i_head_pos
                                (i_pos - int (i_packet_size d2)) (i_cnt + 1)
                         else if i_diff_msec < -500
                         then Seek_loop env i_target_pcr d2 (i_pos + int (i_packet_size d2))
                                i_tail_pos (i_cnt + 1)
                         else Inr (True, i_cnt, d2)
      else Inr (False, i_cnt, d))"
  by pat_completeness auto
termination
proof (relation "measure (\<lambda>(env, t, d, h, tl, c). nat (tl - h + 1))", goal_cases)
  case 1
  show ?case by simp
next
  case (2 env t d h tl c i_pos0 i_div i_pos x2 rc d1 d2 diff)
  have k: "i_packet_size d1 = i_packet_size d"
    using 2 SeekToPCR_keeps(2) [of env d i_pos rc d1] by simp
  have pk: "0 < int (i_packet_size d)" using 2 by simp
  have b: "\<bar>i_div\<bar> < int (i_packet_size d)" unfolding 2(4) by (rule c_mod_bound [OF pk])
  have h: "h \<le> i_pos0 \<and> i_pos0 \<le> tl"
    using c_div_half [of "tl - h"] 2(1) unfolding 2(3) by simp
  have k2: "i_packet_size d2 = i_packet_size d" unfolding 2(9) using k by simp
  have ip: "i_pos = i_pos0 - i_div" by (rule 2(5))
  have "i_pos - int (i_packet_size d2) < tl" using b h k2 ip pk by linarith
  then show ?case using 2(1) by simp
next
  case (3 env t d h tl c i_pos0 i_div i_pos x2 rc d1 d2 diff)
  have k: "i_packet_size d1 = i_packet_size d"
    using 3 SeekToPCR_keeps(2) [of env d i_pos rc d1] by simp
  have pk: "0 < int (i_packet_size d)" using 3 by simp
  have b: "\<bar>i_div\<bar> < int (i_packet_size d)" unfolding 3(4) by (rule c_mod_bound [OF pk])
  have h: "h \<le> i_pos0 \<and> i_pos0 \<le> tl"
    using c_div_half [of "tl - h"] 3(1) unfolding 3(3) by simp
  have k2: "i_packet_size d2 = i_packet_size d" unfolding 3(9) using k by simp
  have ip: "i_pos = i_pos0 - i_div" by (rule 3(5))
  have "h < i_pos + int (i_packet_size d2)" using b h k2 ip pk by linarith
  then show ?case using 3(1) by simp
qed

declare Seek_loop.simps [simp del]

text \<open>\<^verbatim>\<open>Seek\<close>. The fraction \<^verbatim>\<open>f_percent\<close> is a \<^verbatim>\<open>double\<close>; it enters the model as the
  function that the program applies with it: \<open>f_percent a b\<close> is the value of
  \<^verbatim>\<open>a * f_percent + b\<close> converted to a 64-bit integer.\<close>

definition Seek :: "vlc_env \<Rightarrow> (int \<Rightarrow> int \<Rightarrow> int) \<Rightarrow> demux \<Rightarrow> fault + (int \<times> demux)" where
  "Seek env f_percent d =
     (let i_initial_pos = stream_Tell (strm d);
          i_initial_pcr = i_current_pcr d;
          i_target_pcr = f_percent (i_last_pcr d - i_first_pcr d) (i_first_pcr d);
          i = Seek_bracket d i_target_pcr 1 0;
          i_head_pos = p_pos d ! (i - 1);
          i_tail_pos = (if int i < i_pcrs_num d then p_pos d ! i else stream_Size (strm d));
          d = msg_log Dbg ''Seek():i_head_pos:%lld, i_tail_pos:%lld'' [i_head_pos, i_tail_pos] d
      in case Seek_loop env i_target_pcr d i_head_pos i_tail_pos 0 of
           Inl f \<Rightarrow> Inl f
         | Inr (b_found, i_cnt, d) \<Rightarrow>
             if \<not> b_found
             then let d = msg_log Dbg ''Seek():cannot find a time position. i_cnt:%d'' [i_cnt] d;
                      d = (case stream_Seek (strm d) i_initial_pos of
                             Some st \<Rightarrow> d\<lparr>strm := st\<rparr> | None \<Rightarrow> d)
                  in Inr (VLC_EGENERIC, d\<lparr>i_current_pcr := i_initial_pcr\<rparr>)
             else Inr (VLC_SUCCESS,
                       msg_log Dbg ''Seek():can find a time position. i_cnt:%d'' [i_cnt] d))"


section \<open>The last clock reference\<close>

text \<open>The loop of \<^verbatim>\<open>GetLastPCR\<close>. The bound \<^verbatim>\<open>i_last_pos\<close>, which the C code computes once
  before the loop from the size of the stream and the packet size, is computed from the same
  two values at each turn; the loop changes neither.\<close>

function GetLastPCR_loop :: "vlc_env \<Rightarrow> demux \<Rightarrow> int \<Rightarrow> fault + demux" where
  "GetLastPCR_loop env d i_pos =
     (if \<not> object_alive env then Inr d
      else case SeekToPCR env d i_pos of
             Inl f \<Rightarrow> Inl f
           | Inr (rc, d1) \<Rightarrow>
               if rc \<noteq> VLC_SUCCESS then Inr d1
               else
                 let d2 = d1\<lparr>i_last_pcr := AdjustPCRWrapAround d1 (i_current_pcr d1)\<rparr>;
                     i_pos = stream_Tell (strm d2);
                     i_last_pos = stream_Size (strm d2) - int (i_packet_size d2)
                 in if i_pos \<ge> i_last_pos then Inr d2 else GetLastPCR_loop env d2 i_pos)"
  by pat_completeness auto
termination
proof (relation "measure (\<lambda>(env, d, i_pos). nat (stream_Size (strm d) - int (i_packet_size d) - i_pos))",
    goal_cases)
  case 1
  show ?case by simp
next
  case (2 env d i_pos x2 rc d1 d2 i_pos' i_last_pos)
  then have s: "SeekToPCR env d i_pos = Inr (VLC_SUCCESS, d1)" by simp
  note k = SeekToPCR_keeps(1,2) [OF s] and ok = SeekToPCR_ok(3) [OF s]
  have sz: "stream_Size (strm d2) = stream_Size (strm d)" "i_packet_size d2 = i_packet_size d"
    "stream_Tell (strm d2) = stream_Tell (strm d1)"
    unfolding 2(5) using k by (simp_all add: stream_Size_def)
  have lt: "i_pos' < stream_Size (strm d) - int (i_packet_size d)"
    using 2(8) unfolding 2(7) 2(6) sz by simp
  have "min i_pos (stream_Size (strm d) - int (i_packet_size d)) < i_pos'"
    using ok unfolding 2(6) sz by simp
  then have "i_pos < i_pos'" using lt by simp
  then show ?case using lt sz by simp
qed

declare GetLastPCR_loop.simps [simp del]

definition TS_SUPPOSED_MAXRATE :: int where "TS_SUPPOSED_MAXRATE = 55 * 1000 * 1000"

text \<open>\<^verbatim>\<open>0.5 * 1000 * 1000\<close> converted to \<^verbatim>\<open>int64_t\<close>.\<close>

definition TS_SUPPOSED_MINRATE :: int where "TS_SUPPOSED_MINRATE = 500000"

text \<open>\<^verbatim>\<open>i_rate\<close> in \<^verbatim>\<open>GetLastPCR\<close>: the size in bits over the duration between the first and
  the last clock reference, in bits per second.\<close>

definition GetLastPCR_rate :: "demux \<Rightarrow> int" where
  "GetLastPCR_rate d =
     (let i_size = stream_Size (strm d);
          i_duration_msec = c_div (c_div ((i_last_pcr d - i_first_pcr d) * 100) 9) 1000
      in if i_size < 0 \<or> i_duration_msec \<le> 0 then 0
         else c_div (i_size * 1000 * 8) i_duration_msec)"

text \<open>The position at which \<^verbatim>\<open>GetLastPCR\<close> starts to probe: 4500 packets before the last
  one, rounded to a multiple of the packet size.\<close>

definition GetLastPCR_start :: "demux \<Rightarrow> int" where
  "GetLastPCR_start d =
     (let i_initial_pos = stream_Tell (strm d);
          i_stream_size = stream_Size (strm d);
          i_last_pos = i_stream_size - int (i_packet_size d);
          i_pos = i_last_pos - int (i_packet_size d) * 4500;
          i_div = c_mod i_pos (int (i_packet_size d));
          i_pos = i_pos - i_div
      in if i_pos \<le> i_initial_pos \<and> i_pos \<ge> i_stream_size
         then i_initial_pos + int (i_packet_size d) else i_pos)"

text \<open>\<^verbatim>\<open>GetLastPCR\<close>.\<close>

definition GetLastPCR :: "vlc_env \<Rightarrow> demux \<Rightarrow> fault + demux" where
  "GetLastPCR env d =
     (let i_initial_pos = stream_Tell (strm d);
          i_initial_pcr = i_current_pcr d;
          i_stream_size = stream_Size (strm d)
      in if i_packet_size d = 0 then Inl Division_by_zero
         else
           let i_pos = GetLastPCR_start d
           in if i_pos < 0 \<and> i_pos \<ge> i_stream_size then Inr d
              else case GetLastPCR_loop env d i_pos of
                     Inl f \<Rightarrow> Inl f
                   | Inr d1 \<Rightarrow>
                       let d2 = (if i_last_pcr d1 \<ge> 0
                                 then let i_rate = GetLastPCR_rate d1
                                      in if i_rate < TS_SUPPOSED_MINRATE \<or> i_rate > TS_SUPPOSED_MAXRATE
                                         then (msg_log Dbg
                                                 ''calculated bitrate (%lldbit/s) is too low or too high. min bitrate (%lldbit/s) max bitrate (%lldbit/s)''
                                                 [i_rate, TS_SUPPOSED_MINRATE, TS_SUPPOSED_MAXRATE] d1)
                                                \<lparr>i_last_pcr := -1\<rparr>
                                         else d1
                                 else d1)
                       in case stream_Seek (strm d2) i_initial_pos of
                            Some st \<Rightarrow> Inr (d2\<lparr>strm := st, i_current_pcr := i_initial_pcr\<rparr>)
                          | None \<Rightarrow>
                              if i_initial_pos = stream_Tell (strm d2)
                              then Inr (d2\<lparr>i_current_pcr := i_initial_pcr\<rparr>)
                              else Inl Assertion_failed)"

text \<open>What \<^verbatim>\<open>Open\<close> does with the result of the probes: without a first or a last clock
  reference, seeking goes by byte offset.\<close>

definition Open_check_pcrs :: "demux \<Rightarrow> demux" where
  "Open_check_pcrs d =
     (if i_first_pcr d < 0 \<or> i_last_pcr d < 0
      then (msg_log Dbg ''Force Seek Per Percent: PCR's not found,'' [] d)
             \<lparr>b_force_seek_per_percent := True\<rparr>
      else d)"

section \<open>Example inputs\<close>

text \<open>An environment with the values of the player's headers, a sink that hands out
  consecutive handles and no descrambling.\<close>

definition env_ex :: vlc_env where
  "env_ex = \<lparr>VLC_TS_0 = 1, VLC_TS_INVALID = 0,
     VLC_CODEC_MPGV = VLC_FOURCC 0x6D 0x70 0x67 0x76, VLC_CODEC_MPGA = VLC_FOURCC 0x6D 0x70 0x67 0x61,
     VLC_CODEC_MP4A = VLC_FOURCC 0x6D 0x70 0x34 0x61, VLC_CODEC_MP4V = VLC_FOURCC 0x6D 0x70 0x34 0x76,
     VLC_CODEC_H264 = VLC_FOURCC 0x68 0x32 0x36 0x34, VLC_CODEC_HEVC = VLC_FOURCC 0x68 0x65 0x76 0x63,
     VLC_CODEC_CAVS = VLC_FOURCC 0x43 0x41 0x56 0x53, VLC_CODEC_A52 = VLC_FOURCC 0x61 0x35 0x32 0x20,
     VLC_CODEC_SCTE_27 = VLC_FOURCC 0x53 0x43 0x32 0x37, VLC_CODEC_SDDS = VLC_FOURCC 0x73 0x64 0x64 0x73,
     VLC_CODEC_DTS = VLC_FOURCC 0x64 0x74 0x73 0x20, VLC_CODEC_EAC3 = VLC_FOURCC 0x65 0x61 0x63 0x33,
     VLC_CODEC_SUBT = VLC_FOURCC 0x73 0x75 0x62 0x74, VLC_CODEC_TELETEXT = VLC_FOURCC 0x74 0x65 0x6C 0x78,
     VLC_CODEC_ARIB_A = VLC_FOURCC 0x61 0x72 0x62 0x61, VLC_CODEC_ARIB_C = VLC_FOURCC 0x61 0x72 0x62 0x63,
     VLC_CODEC_OPUS = VLC_FOURCC 0x4F 0x70 0x75 0x73,
     object_alive = True, stale = (\<lambda>k. 0), es_out_Add_ret = (\<lambda>n. Some n),
     set_id_state_ret = (\<lambda>i b. 0), csa_Decrypt = (\<lambda>p n. p), opus_frame_duration = (\<lambda>p. 960)\<rparr>"



text \<open>A packet of PID 100 that consists of an adaptation field with a clock reference, whose
  33 bits are 0 but for the bytes \<open>b7\<close> and \<open>b9\<close> (the reference is \<open>b7 * 2^17 + b9 * 2\<close>), and a
  null packet (PID 0x1FFF).\<close>

definition pcr_pkt :: "byte \<Rightarrow> byte \<Rightarrow> byte list" where
  "pcr_pkt b7 b9 = [0x47, 0x00, 0x64, 0x20, 0x07, 0x10, 0, b7, 0, b9, 0, 0] @ replicate 176 0xFF"

definition null_pkt :: "byte list" where
  "null_pkt = [0x47, 0x1F, 0xFF, 0x10] @ replicate 184 0xFF"

text \<open>A stream of 4501 packets: the clock reference 0, a second clock reference, and null
  packets. The state is the one \<^verbatim>\<open>Open\<close> probes it in: packet size 188, the first reference 0
  found on PID 100, no last reference yet, and a table of 10 samples still at 0.\<close>

definition probe_data :: "byte \<Rightarrow> byte \<Rightarrow> byte list" where
  "probe_data b7 b9 = pcr_pkt 0 0 @ pcr_pkt b7 b9 @ concat (replicate 4499 null_pkt)"

definition probe_ex :: "byte \<Rightarrow> byte \<Rightarrow> demux" where
  "probe_ex b7 b9 = (p_sys_zero \<lparr>s_data = probe_data b7 b9, s_pos = 0\<rparr>)
     \<lparr>i_packet_size := 188, i_pid_ref_pcr := 100, i_first_pcr := 0, i_current_pcr := 0,
      i_last_pcr := -1, i_pcrs_num := 10, p_pcrs := replicate 10 0, p_pos := replicate 10 0\<rparr>"

text \<open>What the probe of the last clock reference relies on in such a state, whatever its
  position, log and clock references are.\<close>

definition probe_inv :: "demux \<Rightarrow> byte \<Rightarrow> byte \<Rightarrow> bool" where
  "probe_inv d b7 b9 \<longleftrightarrow>
     i_packet_size d = 188 \<and> i_packet_header_size d = 0 \<and> i_pid_ref_pcr d = 100
     \<and> s_data (strm d) = probe_data b7 b9
     \<and> i_pcrs_num d = 10 \<and> p_pcrs d = replicate 10 0 \<and> p_pos d = replicate 10 0"

section \<open>Reassembly\<close>

text \<open>Modelled from the spec: \<^verbatim>\<open>GetWBE\<close> and \<^verbatim>\<open>GetDWBE\<close> of the player core read a 16-bit and a
  32-bit big-endian value (the "2-byte length" fields of section 4.5).\<close>

definition GetWBE :: "byte \<Rightarrow> byte \<Rightarrow> int" where
  "GetWBE b0 b1 = push_bit 8 (uint b0) OR uint b1"

definition GetDWBE :: "byte \<Rightarrow> byte \<Rightarrow> byte \<Rightarrow> byte \<Rightarrow> int" where
  "GetDWBE b0 b1 b2 b3 =
     push_bit 24 (uint b0) OR push_bit 16 (uint b1) OR push_bit 8 (uint b2) OR uint b3"

text \<open>\<^verbatim>\<open>p_bk->i_buffer = TS_PACKET_SIZE_188\<close>: the buffer of the packet, cut or extended to 188
  bytes.\<close>

definition fit188 :: "vlc_env \<Rightarrow> byte list \<Rightarrow> byte list" where
  "fit188 env p = take 188 p @ map (stale env) [length p..<188]"

text \<open>\<^verbatim>\<open>p_data->i_flags |= BLOCK_FLAG_CORRUPTED\<close> on the first block of a chain, when there is
  one.\<close>

definition chain_taint :: "block list \<Rightarrow> block list" where
  "chain_taint chain =
     (case chain of [] \<Rightarrow> []
      | b # bs \<Rightarrow> b\<lparr>i_flags := insert BLOCK_FLAG_CORRUPTED (i_flags b)\<rparr> # bs)"

text \<open>Modelled from the spec: the block chain helpers of the player core. \<^verbatim>\<open>block_ChainExtract\<close>
  copies the bytes of a chain; \<^verbatim>\<open>block_ChainGather\<close> returns a single block as it is and
  replaces a longer chain by one block with all its bytes, the flags and timestamps of the
  first block and the sum of the durations.\<close>

definition chain_bytes :: "block list \<Rightarrow> byte list" where
  "chain_bytes chain = concat (map p_buffer chain)"

definition block_ChainGather :: "vlc_env \<Rightarrow> block \<Rightarrow> block list \<Rightarrow> block" where
  "block_ChainGather env b bs =
     (if bs = [] then b
      else (block_new env (chain_bytes (b # bs)))
             \<lparr>i_flags := i_flags b, i_pts := i_pts b, i_dts := i_dts b,
              i_length := sum_list (map i_length (b # bs))\<rparr>)"

text \<open>The programs of the PSI that \<^verbatim>\<open>pid->p_owner\<close> points to; none for a null pointer
  (or for an owner whose PSI is gone).\<close>

definition owner_prg :: "demux \<Rightarrow> ts_pid \<Rightarrow> ts_prg_psi list" where
  "owner_prg d pd =
     (case p_owner pd of None \<Rightarrow> []
      | Some ow \<Rightarrow> (case psi (pid d ow) of None \<Rightarrow> [] | Some ps \<Rightarrow> prg ps))"

subsection \<open>Opus access units\<close>

text \<open>\<^verbatim>\<open>read_opus_flag\<close>: the value returned (an \<^verbatim>\<open>int16_t\<close>), and the new \<^verbatim>\<open>buf\<close> and \<^verbatim>\<open>len\<close>.\<close>

definition read_opus_flag :: "byte list \<Rightarrow> nat \<Rightarrow> nat \<Rightarrow> int \<times> nat \<times> nat" where
  "read_opus_flag bytes buf len =
     (if len < 2 then (-1, buf, len)
      else
        let ret = sint (word_of_int (push_bit 8 (uint (bytes ! buf)) OR uint (bytes ! (buf + 1)))
                        :: 16 word)
        in (if ret AND push_bit 13 3 \<noteq> 0 then -1 else ret, buf + 2, len - 2))"

text \<open>The loop \<^verbatim>\<open>while (len--)\<close> of \<^verbatim>\<open>Opus_Parse\<close> that adds up the size bytes. When the
  bytes run out, \<^verbatim>\<open>len\<close> wraps around and what follows reads behind the block: \<open>None\<close>.\<close>

fun opus_au_size :: "byte list \<Rightarrow> nat \<Rightarrow> nat \<Rightarrow> nat \<Rightarrow> (nat \<times> nat \<times> nat) option" where
  "opus_au_size bytes buf 0 au_size = None"
| "opus_au_size bytes buf (Suc len) au_size =
     (let c = unat (bytes ! buf)
      in if c \<noteq> 0xff then Some (au_size + c, buf + 1, len)
         else opus_au_size bytes (buf + 1) len (au_size + c))"

lemma opus_au_size_len:
  "opus_au_size bytes buf len a = Some (a', buf', len') \<Longrightarrow> len' < len"
  by (induction bytes buf len a rule: opus_au_size.induct) (auto simp: Let_def split: if_splits)

datatype opus_step = Opus_stop | Opus_overrun | Opus_au block nat nat

text \<open>The two optional trimming fields: \<^verbatim>\<open>start_trim\<close>, \<^verbatim>\<open>end_trim\<close>, and the new \<^verbatim>\<open>buf\<close> and
  \<^verbatim>\<open>len\<close>.\<close>

definition opus_trims ::
  "byte list \<Rightarrow> bool \<Rightarrow> bool \<Rightarrow> nat \<Rightarrow> nat \<Rightarrow> int \<times> int \<times> nat \<times> nat" where
  "opus_trims bytes start_trim_flag end_trim_flag buf len =
     (case (if start_trim_flag then read_opus_flag bytes buf len else (0, buf, len)) of
        (start_trim, buf, len) \<Rightarrow>
          (case (if end_trim_flag then read_opus_flag bytes buf len else (0, buf, len)) of
             (end_trim, buf, len) \<Rightarrow> (start_trim, end_trim, buf, len)))"

text \<open>The optional control extension: \<open>None\<close> when its length is refused, else the new
  \<^verbatim>\<open>buf\<close> and \<^verbatim>\<open>len\<close>.\<close>

definition opus_control_extension ::
  "byte list \<Rightarrow> bool \<Rightarrow> nat \<Rightarrow> nat \<Rightarrow> (nat \<times> nat) option" where
  "opus_control_extension bytes control_extension_flag buf len =
     (if control_extension_flag \<and> len \<noteq> 0
      then let l = unat (bytes ! buf)
           in if l > len - 1 then None else Some (buf + 1 + l, len - 1 - l)
      else Some (buf, len))"

text \<open>The access unit cut out of the block \<open>blk\<close> (\<^verbatim>\<open>block_CopyProperties\<close> gives it the flags,
  timestamps and duration of \<open>blk\<close>), with its sample count and trimming. The sample count
  \<^verbatim>\<open>i_nb_samples\<close> is an \<^verbatim>\<open>unsigned\<close> of 32 bits: \<^verbatim>\<open>end_trim\<close> is compared with it as an
  unsigned value, and the subtraction of \<^verbatim>\<open>start_trim\<close> wraps around.\<close>

definition opus_au :: "vlc_env \<Rightarrow> block \<Rightarrow> nat \<Rightarrow> nat \<Rightarrow> int \<Rightarrow> int \<Rightarrow> block" where
  "opus_au env blk buf au_size start_trim end_trim =
     (let au_bytes = take au_size (drop buf (p_buffer blk));
          nb = opus_frame_duration env au_bytes;
          au_length = (if end_trim \<noteq> 0 \<and> end_trim mod 2 ^ 32 \<le> nb then end_trim else 0);
          trim = (start_trim \<noteq> 0 \<and> start_trim < nb - au_length);
          nb' = (if trim then (nb - start_trim) mod 2 ^ 32 else nb)
      in blk\<lparr>p_buffer := au_bytes, i_nb_samples := nb', i_length := au_length,
             i_flags := (if trim \<and> nb' = 0 then insert BLOCK_FLAG_PREROLL (i_flags blk)
                         else i_flags blk)\<rparr>)"

text \<open>One turn of the loop of \<^verbatim>\<open>Opus_Parse\<close> on the block \<open>blk\<close>, at offset \<open>buf\<close> with
  \<open>len\<close> bytes left: the messages, and either the end of the loop, or a read behind the
  block, or the access unit with the new \<open>buf\<close> and \<open>len\<close>.\<close>

definition Opus_turn :: "vlc_env \<Rightarrow> block \<Rightarrow> nat \<Rightarrow> nat \<Rightarrow> msg list \<times> opus_step" where
  "Opus_turn env blk buf len =
     (let bytes = p_buffer blk;
          start_trim_flag = drop_bit 4 (uint (bytes ! (buf + 1))) AND 1 \<noteq> 0;
          end_trim_flag = drop_bit 3 (uint (bytes ! (buf + 1))) AND 1 \<noteq> 0;
          control_extension_flag = drop_bit 2 (uint (bytes ! (buf + 1))) AND 1 \<noteq> 0
      in case opus_au_size bytes (buf + 2) (len - 2) 0 of
           None \<Rightarrow> ([], Opus_overrun)
         | Some (au_size, buf1, len1) \<Rightarrow>
             (case opus_trims bytes start_trim_flag end_trim_flag buf1 len1 of
                (start_trim, end_trim, buf2, len2) \<Rightarrow>
                  let lg = (if start_trim < 0 then [(Err, ''Invalid start trimming flag'', [])] else [])
                         @ (if end_trim < 0 then [(Err, ''Invalid end trimming flag'', [])] else [])
                  in case opus_control_extension bytes control_extension_flag buf2 len2 of
                       None \<Rightarrow>
                         (lg @ [(Err, ''Invalid control extension length %d > %zu'',
                                 [uint (bytes ! buf2), int (len2 - 1)])], Opus_stop)
                     | Some (buf3, len3) \<Rightarrow>
                         if au_size = 0 \<or> au_size > len3
                         then (lg @ [(Err, ''Invalid Opus AU size %d (PES %zu)'',
                                      [int au_size, int len3])], Opus_stop)
                         else (lg, Opus_au (opus_au env blk buf3 au_size start_trim end_trim)
                                     (buf3 + au_size) (len3 - au_size))))"

lemma read_opus_flag_len: "read_opus_flag bytes buf len = (r, buf', len') \<Longrightarrow> len' \<le> len"
  by (auto simp: read_opus_flag_def Let_def split: if_splits)

lemma opus_trims_len: "opus_trims bytes sf ef buf len = (st, et, buf', len') \<Longrightarrow> len' \<le> len"
proof -
  assume a: "opus_trims bytes sf ef buf len = (st, et, buf', len')"
  obtain s1 b1 l1 where r1: "(if sf then read_opus_flag bytes buf len else (0, buf, len)) = (s1, b1, l1)"
    by (metis prod_cases3)
  obtain s2 b2 l2 where r2: "(if ef then read_opus_flag bytes b1 l1 else (0, b1, l1)) = (s2, b2, l2)"
    by (metis prod_cases3)
  have "l1 \<le> len" using r1 read_opus_flag_len [of bytes buf len s1 b1 l1] by (cases sf) auto
  moreover have "l2 \<le> l1" using r2 read_opus_flag_len [of bytes b1 l1 s2 b2 l2] by (cases ef) auto
  moreover have "len' = l2" using a r1 r2 by (simp add: opus_trims_def)
  ultimately show ?thesis by simp
qed

lemma opus_control_extension_len:
  "opus_control_extension bytes cf buf len = Some (buf', len') \<Longrightarrow> len' \<le> len"
  by (auto simp: opus_control_extension_def Let_def split: if_splits)

lemma Opus_turn_len:
  assumes "Opus_turn env blk buf len = (lg, Opus_au au buf' len')" "3 < len"
  shows "len' < len"
proof -
  let ?b = "p_buffer blk"
  obtain a b1 l1 where s: "opus_au_size ?b (buf + 2) (len - 2) 0 = Some (a, b1, l1)"
    using assms(1) unfolding Opus_turn_def Let_def
    by (cases "opus_au_size ?b (buf + 2) (len - 2) 0") auto
  obtain st et b2 l2 where t: "opus_trims ?b (drop_bit 4 (uint (?b ! (buf + 1))) AND 1 \<noteq> 0)
      (drop_bit 3 (uint (?b ! (buf + 1))) AND 1 \<noteq> 0) b1 l1 = (st, et, b2, l2)"
    by (metis prod_cases4)
  obtain b3 l3 where c: "opus_control_extension ?b (drop_bit 2 (uint (?b ! (buf + 1))) AND 1 \<noteq> 0) b2 l2
      = Some (b3, l3)"
    using assms(1) s t unfolding Opus_turn_def Let_def
    by (cases "opus_control_extension ?b (drop_bit 2 (uint (?b ! (buf + 1))) AND 1 \<noteq> 0) b2 l2") auto
  have "len' = l3 - a"
    using assms(1) s t c unfolding Opus_turn_def Let_def by (auto split: if_splits)
  moreover have "l1 < len - 2" using opus_au_size_len [OF s] .
  moreover have "l2 \<le> l1" using opus_trims_len [OF t] .
  moreover have "l3 \<le> l2" using opus_control_extension_len [OF c] .
  ultimately show ?thesis by simp
qed

function Opus_loop ::
  "vlc_env \<Rightarrow> block \<Rightarrow> nat \<Rightarrow> nat \<Rightarrow> block list \<Rightarrow> msg list \<Rightarrow> fault + (block list \<times> msg list)"
  where
  "Opus_loop env blk buf len out_chain lg =
     (if len > 3
         \<and> push_bit 3 (uint (p_buffer blk ! buf)) OR drop_bit 5 (uint (p_buffer blk ! (buf + 1)))
             = 0x3ff
      then case Opus_turn env blk buf len of
             (lg', Opus_stop) \<Rightarrow> Inr (out_chain, lg @ lg')
           | (lg', Opus_overrun) \<Rightarrow> Inl Buffer_overrun
           | (lg', Opus_au au buf' len') \<Rightarrow> Opus_loop env blk buf' len' (out_chain @ [au]) (lg @ lg')
      else Inr (out_chain, lg))"
  by pat_completeness auto
termination
proof (relation "measure (\<lambda>(env, blk, buf, len, oc, lg). len)", goal_cases)
  case 1
  show ?case by simp
next
  case (2 env blk buf len oc lg x y au buf' len')
  then have "Opus_turn env blk buf len = (x, Opus_au au buf' len')" "3 < len" by simp_all
  then show ?case using Opus_turn_len by simp
qed

declare Opus_loop.simps [simp del]

definition Opus_Parse :: "vlc_env \<Rightarrow> block \<Rightarrow> fault + (block list \<times> msg list)" where
  "Opus_Parse env blk = Opus_loop env blk 0 (length (p_buffer blk)) [] []"

subsection \<open>Elementary stream packets\<close>

text \<open>A 33-bit timestamp spread over the five header bytes from \<open>k\<close> on.\<close>

definition pes_timestamp :: "(nat \<Rightarrow> byte) \<Rightarrow> nat \<Rightarrow> int" where
  "pes_timestamp header k =
     push_bit 29 (uint (header k AND 0x0e)) OR push_bit 22 (uint (header (k + 1)))
     OR push_bit 14 (uint (header (k + 2) AND 0xfe)) OR push_bit 7 (uint (header (k + 3)))
     OR drop_bit 1 (uint (header (k + 4)))"

text \<open>\<^verbatim>\<open>while( i_skip < 23 && header[i_skip] == 0xff )\<close>, the stuffing of an MPEG-1 header.\<close>

function mpeg1_stuffing :: "(nat \<Rightarrow> byte) \<Rightarrow> nat \<Rightarrow> nat" where
  "mpeg1_stuffing header i_skip =
     (if i_skip < 23 \<and> header i_skip = 0xff then mpeg1_stuffing header (i_skip + 1) else i_skip)"
  by pat_completeness auto
termination
  by (relation "measure (\<lambda>(h, i). 23 - i)") auto

declare mpeg1_stuffing.simps [simp del]

text \<open>The \<^verbatim>\<open>switch( header[3] )\<close> of \<^verbatim>\<open>ParsePES\<close>: \<^verbatim>\<open>i_skip\<close>, \<^verbatim>\<open>i_pts\<close> and \<^verbatim>\<open>i_dts\<close>, or \<open>None\<close>
  for "too much MPEG-1 stuffing".\<close>

definition ParsePES_header :: "(nat \<Rightarrow> byte) \<Rightarrow> (nat \<times> int \<times> int) option" where
  "ParsePES_header header =
     (if header 3 \<in> {0xBC, 0xBE, 0xBF, 0xF0, 0xF1, 0xFF, 0xF2, 0xF8} then Some (6, -1, -1)
      else if header 6 AND 0xC0 = 0x80
      then Some (unat (header 8) + 9,
                 if header 7 AND 0x80 \<noteq> 0 then pes_timestamp header 9 else -1,
                 if header 7 AND 0x80 \<noteq> 0 \<and> header 7 AND 0x40 \<noteq> 0
                 then pes_timestamp header 14 else -1)
      else
        let i_skip = mpeg1_stuffing header 6
        in if i_skip = 23 then None
           else
             let i_skip = (if header i_skip AND 0xC0 = 0x40 then i_skip + 2 else i_skip)
             in if header i_skip AND 0x20 \<noteq> 0
                then if header i_skip AND 0x10 \<noteq> 0
                     then Some (i_skip + 10, pes_timestamp header i_skip,
                                pes_timestamp header (i_skip + 5))
                     else Some (i_skip + 5, pes_timestamp header i_skip, -1)
                else Some (i_skip + 1, -1, -1))"

text \<open>The codec-specific part of the header: the new \<^verbatim>\<open>i_skip\<close>, \<^verbatim>\<open>i_length\<close> and
  \<^verbatim>\<open>i_pes_size\<close>. The subtitle branch reads \<^verbatim>\<open>p_pes->i_buffer\<close>: \<open>None\<close> when the chain is
  empty. Its two reads lie behind the end of the first block.\<close>

definition ParsePES_codec ::
  "vlc_env \<Rightarrow> ts_es \<Rightarrow> block list \<Rightarrow> nat \<Rightarrow> (nat \<times> int \<times> int) option" where
  "ParsePES_codec env e p_pes i_skip =
     (if i_codec (fmt e) = VLC_FOURCC 0x61 0x35 0x32 0x62
         \<or> i_codec (fmt e) = VLC_FOURCC 0x64 0x74 0x73 0x62
      then Some (i_skip + 4, 0, 0)
      else if i_codec (fmt e) = VLC_FOURCC 0x6C 0x70 0x63 0x62
              \<or> i_codec (fmt e) = VLC_FOURCC 0x73 0x70 0x75 0x62
              \<or> i_codec (fmt e) = VLC_FOURCC 0x73 0x64 0x64 0x62
      then Some (i_skip + 1, 0, 0)
      else if i_codec (fmt e) = VLC_CODEC_SUBT env \<and> p_mpeg4desc e \<noteq> None
      then (case p_pes of
              [] \<Rightarrow> None
            | b # bs \<Rightarrow>
                let p_extra = the (p_mpeg4desc e);
                    first = p_buffer b;
                    (i_skip, i_len) =
                       (if length p_extra > 2 \<and> p_extra ! 0 = 0x10 \<and> p_extra ! 1 AND 0x10 \<noteq> 0
                        then (i_skip + 2,
                              if length first + 2 \<le> i_skip
                              then GetWBE (pkt_byte env first i_skip) (pkt_byte env first (i_skip + 1))
                              else 0)
                        else (i_skip, 0));
                    i_pes_size =
                       (if length first + 2 \<le> i_skip
                        then GetWBE (pkt_byte env first i_skip) (pkt_byte env first (i_skip + 1))
                        else 0)
                in Some (i_skip + 2, i_len, i_pes_size))
      else Some (i_skip, 0, 0))"

text \<open>\<^verbatim>\<open>while( p_pes && i_skip > 0 )\<close>: the header is removed from the chain.\<close>

fun skip_header :: "block list \<Rightarrow> nat \<Rightarrow> block list" where
  "skip_header [] i_skip = []"
| "skip_header (b # bs) i_skip =
     (if i_skip > 0
      then if length (p_buffer b) \<le> i_skip then skip_header bs (i_skip - length (p_buffer b))
           else b\<lparr>p_buffer := drop i_skip (p_buffer b)\<rparr> # bs
      else b # bs)"

text \<open>The timestamps of the first block left: without a decoding timestamp the presentation
  timestamp takes its place (\<^verbatim>\<open>if( i_pts >= 0 && i_dts < 0 ) i_dts = i_pts\<close>), and what the
  header gave is stored in the unit of the player's clock.\<close>

definition ParsePES_stamp :: "vlc_env \<Rightarrow> int \<Rightarrow> int \<Rightarrow> int \<Rightarrow> block \<Rightarrow> block" where
  "ParsePES_stamp env i_pts0 i_dts0 i_len b =
     (let i_dts0 = (if i_pts0 \<ge> 0 \<and> i_dts0 < 0 then i_pts0 else i_dts0);
          b = (if i_dts0 \<ge> 0 then b\<lparr>i_dts := VLC_TS_0 env + c_div (i_dts0 * 100) 9\<rparr> else b);
          b = (if i_pts0 \<ge> 0 then b\<lparr>i_pts := VLC_TS_0 env + c_div (i_pts0 * 100) 9\<rparr> else b)
      in b\<lparr>i_length := c_div (i_len * 100) 9\<rparr>)"

text \<open>\<^verbatim>\<open>block_Realloc( p_block, 0, p_block->i_buffer + 1 )\<close> and the zero stored in the new last
  byte, after the cut to \<^verbatim>\<open>i_pes_size\<close>.\<close>

definition null_terminate :: "int \<Rightarrow> block \<Rightarrow> block" where
  "null_terminate i_pes_size b =
     (let buf = (if i_pes_size > 0 \<and> int (length (p_buffer b)) > i_pes_size
                 then take (nat i_pes_size) (p_buffer b) else p_buffer b)
      in b\<lparr>p_buffer := buf @ [0]\<rparr>)"

text \<open>The fix-ups by codec between \<^verbatim>\<open>block_ChainGather\<close> and the delivery: the blocks to
  deliver and the messages.\<close>

definition ParsePES_fixup ::
  "vlc_env \<Rightarrow> demux \<Rightarrow> ts_pid \<Rightarrow> ts_es \<Rightarrow> int \<Rightarrow> block \<Rightarrow> fault + (block list \<times> msg list)" where
  "ParsePES_fixup env d pd e i_pes_size p_block =
     (if i_codec (fmt e) = VLC_CODEC_SUBT env then Inr ([null_terminate i_pes_size p_block], [])
      else if i_codec (fmt e) = VLC_CODEC_TELETEXT env
      then if i_pts p_block \<le> VLC_TS_INVALID env
           then (case find (\<lambda>p. i_owner_number pd = i_number p) (owner_prg d pd) of
                   Some p \<Rightarrow>
                     if i_pcr_value p > VLC_TS_INVALID env
                     then Inr ([p_block\<lparr>i_pts := VLC_TS_0 env + c_div (i_pcr_value p * 100) 9 + 40000\<rparr>], [])
                     else Inr ([p_block], [])
                 | None \<Rightarrow> Inr ([p_block], []))
           else Inr ([p_block], [])
      else if i_codec (fmt e) = VLC_CODEC_ARIB_A env \<or> i_codec (fmt e) = VLC_CODEC_ARIB_C env
      then if i_pts p_block \<le> VLC_TS_INVALID env
           then Inr ([null_terminate i_pes_size p_block], [])
           else Inr ([p_block], [])
      else if i_codec (fmt e) = VLC_CODEC_OPUS env then Opus_Parse env p_block
      else Inr ([p_block], []))"

text \<open>\<^verbatim>\<open>while (p_block)\<close>: every block goes to the extra streams of the PID, then to its own
  stream; without trust in the clock references the timestamp of the block is pushed as the
  clock of the group.\<close>

definition deliver :: "demux \<Rightarrow> ts_pid \<Rightarrow> ts_es \<Rightarrow> block \<Rightarrow> es_out_event list" where
  "deliver d pd e p_block =
     map (\<lambda>x. Es_out_Send (es_id x) p_block) (extra_es pd)
     @ (if \<not> b_trust_pcr d then [ES_OUT_SET_GROUP_PCR (i_owner_number pd) (i_pts p_block)] else [])
     @ [Es_out_Send (es_id e) p_block]"

text \<open>\<^verbatim>\<open>ParsePES\<close> up to its delivery loop, for the PID entry \<open>pd\<close> with its stream \<open>e\<close> on
  the chain \<open>p_pes\<close>: the messages and the blocks to deliver.\<close>

definition ParsePES_blocks ::
  "vlc_env \<Rightarrow> demux \<Rightarrow> ts_pid \<Rightarrow> ts_es \<Rightarrow> block list \<Rightarrow> fault + (msg list \<times> block list)" where
  "ParsePES_blocks env d pd e p_pes =
     (let header = pkt_byte env (take 34 (chain_bytes p_pes))
      in if b_scrambled pd \<or> header 0 \<noteq> 0 \<or> header 1 \<noteq> 0 \<or> header 2 \<noteq> 1
         then Inr (if \<not> b_scrambled pd
                   then [(Warn, ''invalid header [0x%02x:%02x:%02x:%02x] (pid: %d)'',
                          [uint (header 0), uint (header 1), uint (header 2), uint (header 3),
                           i_pid pd])]
                   else [], [])
         else case ParsePES_header header of
                None \<Rightarrow> Inr ([(Err, ''too much MPEG-1 stuffing'', [])], [])
              | Some (i_skip, i_pts0, i_dts0) \<Rightarrow>
                  (case ParsePES_codec env e p_pes i_skip of
                     None \<Rightarrow> Inl Null_dereference
                   | Some (i_skip, i_len, i_pes_size) \<Rightarrow>
                       (case skip_header p_pes i_skip of
                          [] \<Rightarrow> Inr ([(Warn, ''empty pes'', [])], [])
                        | b # bs \<Rightarrow>
                            (case ParsePES_fixup env d pd e i_pes_size
                                    (block_ChainGather env
                                       (ParsePES_stamp env i_pts0 i_dts0 i_len b) bs) of
                               Inl f \<Rightarrow> Inl f
                             | Inr (blocks, lg) \<Rightarrow> Inr (lg, blocks)))))"

text \<open>\<^verbatim>\<open>ParsePES\<close>: the messages are logged and the blocks delivered.\<close>

definition ParsePES :: "vlc_env \<Rightarrow> demux \<Rightarrow> ts_pid \<Rightarrow> ts_es \<Rightarrow> block list \<Rightarrow> fault + demux" where
  "ParsePES env d pd e p_pes =
     (case ParsePES_blocks env d pd e p_pes of
        Inl f \<Rightarrow> Inl f
      | Inr (lg, blocks) \<Rightarrow>
          Inr (d\<lparr>msgs := msgs d @ lg, out := out d @ concat (map (deliver d pd e) blocks)\<rparr>))"

subsection \<open>Table sections\<close>

text \<open>The loop of \<^verbatim>\<open>ParseTableSection\<close> over the programs of the owner: the clock value of
  the program of this PID, searched until one from 0 on is found.\<close>

fun section_date :: "int \<Rightarrow> ts_prg_psi list \<Rightarrow> int \<Rightarrow> int" where
  "section_date num [] i_date = i_date"
| "section_date num (p # ps) i_date =
     (if num = i_number p
      then if i_pcr_value p \<ge> 0 then i_pcr_value p else section_date num ps (i_pcr_value p)
      else section_date num ps i_date)"

text \<open>The display time stored in an SCTE-27 section.\<close>

definition scte27_date :: "byte list \<Rightarrow> int \<Rightarrow> int" where
  "scte27_date buf i_date =
     (if length buf > 9 \<and> buf ! 0 = 0xc6
      then
        let (i_index, i_offset) =
              (if buf ! 3 AND 0x40 \<noteq> 0
               then (push_bit 8 (uint (buf ! 7 AND 0x0f)) OR uint (buf ! 8), 9)
               else (0, 4))
        in if i_index = 0 \<and> length buf > i_offset + 8
           then if buf ! (i_offset + 3) AND 0x40 \<noteq> 0 then i_date
                else
                  let i_display_in = GetDWBE (buf ! (i_offset + 4)) (buf ! (i_offset + 5))
                                       (buf ! (i_offset + 6)) (buf ! (i_offset + 7))
                  in if i_display_in < i_date then i_display_in + 2 ^ 32 else i_display_in
           else i_date
      else i_date)"

definition ParseTableSection ::
  "vlc_env \<Rightarrow> demux \<Rightarrow> ts_pid \<Rightarrow> ts_es \<Rightarrow> block list \<Rightarrow> fault + demux" where
  "ParseTableSection env d pd e chain =
     (case chain of
        [] \<Rightarrow> Inl Null_dereference
      | b # bs \<Rightarrow>
          let p_content = block_ChainGather env b bs;
              i_date = section_date (i_owner_number pd) (owner_prg d pd) (-1);
              p_content =
                (if i_date \<ge> 0
                 then let i_date = (if i_codec (fmt e) = VLC_CODEC_SCTE_27 env
                                    then scte27_date (p_buffer p_content) i_date else i_date)
                      in p_content\<lparr>i_dts := VLC_TS_0 env + c_div (i_date * 100) 9,
                                   i_pts := VLC_TS_0 env + c_div (i_date * 100) 9\<rparr>
                 else p_content)
          in Inr (d\<lparr>out := out d @ [Es_out_Send (es_id e) p_content]\<rparr>))"

text \<open>The stream of the PID entry \<open>k\<close> is replaced.\<close>

definition es_set :: "demux \<Rightarrow> nat \<Rightarrow> ts_es \<Rightarrow> demux" where
  "es_set d k e = d\<lparr>pid := (pid d)(k := (pid d k)\<lparr>es := Some e\<rparr>)\<rparr>"

text \<open>\<^verbatim>\<open>ParseData\<close> for the PID entry \<open>k\<close>: the chain is taken from the stream, whose gathering
  state is reset, and parsed.\<close>

definition ParseData :: "vlc_env \<Rightarrow> demux \<Rightarrow> nat \<Rightarrow> fault + demux" where
  "ParseData env d k =
     (case es (pid d k) of
        None \<Rightarrow> Inl Null_dereference
      | Some e \<Rightarrow>
          let e' = e\<lparr>p_data := [], i_data_size := 0, i_data_gathered := 0\<rparr>;
              d' = es_set d k e'
          in case data_type e of
               TS_ES_DATA_PES \<Rightarrow> ParsePES env d' (pid d' k) e' (p_data e)
             | TS_ES_DATA_TABLE_SECTION \<Rightarrow> ParseTableSection env d' (pid d' k) e' (p_data e))"

subsection \<open>Clock references\<close>

text \<open>The scan \<^verbatim>\<open>for( int j = 0; j < 8192; j++ )\<close> of \<^verbatim>\<open>PCRHandle\<close>: a valid PID with a stream
  is owned by the PSI of the PID entry \<open>m\<close>.\<close>

definition pmt_has_es :: "demux \<Rightarrow> nat \<Rightarrow> bool" where
  "pmt_has_es d m =
     list_ex (\<lambda>j. b_valid (pid d j) \<and> p_owner (pid d j) = Some m \<and> es (pid d j) \<noteq> None)
       [0..<8192]"

text \<open>The loop of \<^verbatim>\<open>PCRHandle\<close> over the programs of one PSI: the programs with their clock
  values, \<^verbatim>\<open>i_group\<close> (\<open>grp\<close>) and \<^verbatim>\<open>b_pmt_has_es\<close>. \<open>has\<close> is the result of the scan.\<close>

fun PCRHandle_prg ::
  "int \<Rightarrow> int \<Rightarrow> bool \<Rightarrow> ts_prg_psi list \<Rightarrow> int \<Rightarrow> bool \<Rightarrow> ts_prg_psi list \<times> int \<times> bool" where
  "PCRHandle_prg pid_no i_pcr has [] grp b_pmt_has_es = ([], grp, b_pmt_has_es)"
| "PCRHandle_prg pid_no i_pcr has (p # ps) grp b_pmt_has_es =
     (if pid_no = i_pid_pcr p
      then case PCRHandle_prg pid_no i_pcr has ps (i_number p) (b_pmt_has_es \<or> has) of
             (ps', g, b) \<Rightarrow> (p\<lparr>i_pcr_value := i_pcr\<rparr> # ps', g, b)
      else case PCRHandle_prg pid_no i_pcr has ps grp b_pmt_has_es of
             (ps', g, b) \<Rightarrow> (p # ps', g, b))"

text \<open>The loop of \<^verbatim>\<open>PCRHandle\<close> over \<^verbatim>\<open>p_sys->pmt\<close>, left once a group is found.\<close>

fun PCRHandle_pmt :: "vlc_env \<Rightarrow> int \<Rightarrow> int \<Rightarrow> nat list \<Rightarrow> demux \<Rightarrow> fault + demux" where
  "PCRHandle_pmt env pid_no i_pcr [] d = Inr d"
| "PCRHandle_pmt env pid_no i_pcr (m # ms) d =
     (case psi (pid d m) of
        None \<Rightarrow> Inl Null_dereference
      | Some ps \<Rightarrow>
          (case PCRHandle_prg pid_no i_pcr (pmt_has_es d m) (prg ps) (-1) False of
             (prgs, grp, b_pmt_has_es) \<Rightarrow>
               let d1 = d\<lparr>pid := (pid d)(m := (pid d m)\<lparr>psi := Some (ps\<lparr>prg := prgs\<rparr>)\<rparr>)\<rparr>;
                   d2 = (if b_trust_pcr d \<and> grp > 0 \<and> b_pmt_has_es
                         then d1\<lparr>out := out d1 @ [ES_OUT_SET_GROUP_PCR grp
                                                     (VLC_TS_0 env + c_div (i_pcr * 100) 9)]\<rparr>
                         else d1)
               in if grp < 0 then PCRHandle_pmt env pid_no i_pcr ms d2 else Inr d2))"

text \<open>\<^verbatim>\<open>PCRHandle\<close> for the PID entry \<open>k\<close> and the packet \<open>p\<close>.\<close>

definition PCRHandle :: "vlc_env \<Rightarrow> demux \<Rightarrow> nat \<Rightarrow> byte list \<Rightarrow> fault + demux" where
  "PCRHandle env d k p =
     (if i_pmt_es d \<le> 0 then Inr d
      else
        let i_pcr = GetPCR env p
        in if i_pcr < 0 then Inr d
           else
             let d1 = (if i_pid_ref_pcr d = i_pid (pid d k)
                       then d\<lparr>i_current_pcr := AdjustPCRWrapAround d i_pcr\<rparr> else d)
             in PCRHandle_pmt env (i_pid (pid d1 k)) i_pcr (pmt d1) d1)"

subsection \<open>Gathering the packets of a PID\<close>

text \<open>The transport error indicator of \<^verbatim>\<open>GatherData\<close>, on the PID entry: a chain in flight is
  flagged.\<close>

definition GatherData_error :: "ts_pid \<Rightarrow> fault + (ts_pid \<times> msg list)" where
  "GatherData_error pd =
     (case es pd of
        None \<Rightarrow> Inl Null_dereference
      | Some e \<Rightarrow>
          Inr (pd\<lparr>es := Some (e\<lparr>p_data := chain_taint (p_data e)\<rparr>)\<rparr>,
               [(Dbg, ''transport_error_indicator set (pid=%d)'', [i_pid pd])]))"

text \<open>The discontinuity indicator of the adaptation field is only reported.\<close>

definition GatherData_indicator :: "ts_pid \<Rightarrow> fault + msg list" where
  "GatherData_indicator pd =
     (case es pd of
        None \<Rightarrow> Inl Null_dereference
      | Some e \<Rightarrow>
          Inr (if p_data e \<noteq> [] then [(Warn, ''discontinuity indicator (pid=%d) '', [i_pid pd])]
               else []))"

text \<open>The test of the continuity counter in \<^verbatim>\<open>GatherData\<close>, on the PID entry \<open>pd\<close>, for a
  packet with the counter \<open>cc\<close>.\<close>

definition GatherData_continuity ::
  "ts_pid \<Rightarrow> bool \<Rightarrow> int \<Rightarrow> bool \<Rightarrow> fault + (ts_pid \<times> msg list)" where
  "GatherData_continuity pd b_payload cc b_discontinuity =
     (let i_diff = (cc - i_cc pd) AND 0x0f
      in if b_payload \<and> i_diff = 1 then Inr (pd\<lparr>i_cc := (i_cc pd + 1) AND 0xf\<rparr>, [])
         else if i_cc pd = 0xff
         then Inr (pd\<lparr>i_cc := cc\<rparr>, [(Warn, ''first packet for pid=%d cc=0x%x'', [i_pid pd, cc])])
         else if i_diff \<noteq> 0 \<and> \<not> b_discontinuity
         then (case es pd of
                 None \<Rightarrow> Inl Null_dereference
               | Some e \<Rightarrow>
                   Inr (pd\<lparr>i_cc := cc,
                           es := Some (if p_data e \<noteq> [] \<and> i_cat (fmt e) \<noteq> VIDEO_ES
                                          \<and> i_cat (fmt e) \<noteq> AUDIO_ES
                                       then e\<lparr>p_data := chain_taint (p_data e)\<rparr> else e)\<rparr>,
                        [(Warn, ''discontinuity received 0x%x instead of 0x%x (pid=%d)'',
                          [cc, (i_cc pd + 1) AND 0x0f, i_pid pd])]))
         else Inr (pd, []))"

text \<open>The part of \<^verbatim>\<open>GatherData\<close> before \<^verbatim>\<open>PCRHandle\<close>, on the PID entry \<open>pd\<close> and the packet
  \<open>p\<close> of 188 bytes (after descrambling): the entry, the messages and \<^verbatim>\<open>i_skip\<close>.\<close>

definition GatherData_header ::
  "ts_pid \<Rightarrow> byte list \<Rightarrow> bool \<Rightarrow> bool \<Rightarrow> bool \<Rightarrow> int \<Rightarrow> fault + (ts_pid \<times> msg list \<times> nat)" where
  "GatherData_header pd p b_error b_adaptation b_payload cc =
     (case (if b_error then GatherData_error pd else Inr (pd, [])) of
        Inl f \<Rightarrow> Inl f
      | Inr (pd1, lg1) \<Rightarrow>
          let i_skip = (if \<not> b_adaptation then 4 else 5 + unat (p ! 4));
              b_discontinuity = (b_adaptation \<and> p ! 4 > 0 \<and> p ! 5 AND 0x80 \<noteq> 0)
          in case (if b_discontinuity then GatherData_indicator pd1 else Inr []) of
               Inl f \<Rightarrow> Inl f
             | Inr lg2 \<Rightarrow>
                 (case GatherData_continuity pd1 b_payload cc b_discontinuity of
                    Inl f \<Rightarrow> Inl f
                  | Inr (pd2, lg3) \<Rightarrow> Inr (pd2, lg1 @ lg2 @ lg3, i_skip)))"

text \<open>A change of the scrambling bit is reported to the output for every stream of the
  PID entry \<open>k\<close>.\<close>

definition GatherData_scrambled :: "demux \<Rightarrow> nat \<Rightarrow> ts_es \<Rightarrow> bool \<Rightarrow> demux" where
  "GatherData_scrambled d k e b_scr =
     (if b_scrambled (pid d k) \<noteq> b_scr
      then d\<lparr>msgs := msgs d @ [(Warn, ''scrambled state changed on pid %d (%d->%d)'',
                                [i_pid (pid d k), if b_scrambled (pid d k) then 1 else 0,
                                 if b_scr then 1 else 0])],
             pid := (pid d)(k := (pid d k)\<lparr>b_scrambled := b_scr\<rparr>),
             out := out d @ map (\<lambda>x. ES_OUT_SET_ES_SCRAMBLED_STATE (es_id x) b_scr)
                              (extra_es (pid d k))
                          @ [ES_OUT_SET_ES_SCRAMBLED_STATE (es_id e) b_scr]\<rparr>
      else d)"

text \<open>The target length that a unit start declares: for a PES the 16-bit length at the
  bytes 4 and 5 of the payload, plus 6 when it is not 0; for a table section 3 plus the 12-bit
  section length. \<open>None\<close> leaves \<^verbatim>\<open>i_data_size\<close> as it is.\<close>

definition declared_size :: "ts_es_data_type \<Rightarrow> byte list \<Rightarrow> int option" where
  "declared_size t buf =
     (case t of
        TS_ES_DATA_PES \<Rightarrow>
          if length buf > 6
          then let n = GetWBE (buf ! 4) (buf ! 5) in Some (if n > 0 then n + 6 else n)
          else None
      | TS_ES_DATA_TABLE_SECTION \<Rightarrow>
          if length buf > 3 \<and> buf ! 0 \<noteq> 0xff
          then Some (3 + (push_bit 8 (uint (buf ! 1 AND 0xf)) OR uint (buf ! 2)))
          else None)"

text \<open>\<^verbatim>\<open>block_ChainLastAppend\<close> with \<^verbatim>\<open>i_data_gathered += p_bk->i_buffer\<close>.\<close>

definition es_append :: "ts_es \<Rightarrow> block \<Rightarrow> ts_es" where
  "es_append e b =
     e\<lparr>p_data := p_data e @ [b], i_data_gathered := i_data_gathered e + int (length (p_buffer b))\<rparr>"

text \<open>\<^verbatim>\<open>if( i_data_size > 0 && i_data_gathered >= i_data_size ) { ParseData(); i_ret = true; }\<close>\<close>

definition GatherData_complete :: "vlc_env \<Rightarrow> demux \<Rightarrow> nat \<Rightarrow> ts_es \<Rightarrow> bool \<Rightarrow> fault + (bool \<times> demux)" where
  "GatherData_complete env d k e i_ret =
     (if i_data_size e > 0 \<and> i_data_gathered e \<ge> i_data_size e
      then (case ParseData env d k of Inl f \<Rightarrow> Inl f | Inr d' \<Rightarrow> Inr (True, d'))
      else Inr (i_ret, d))"

text \<open>The pointer field at the unit start of a table section: the bytes before the new
  section, which end the chain in flight, and the packet from the new section on.\<close>

definition pointer_field :: "ts_es \<Rightarrow> block \<Rightarrow> ts_es \<times> block" where
  "pointer_field e p_bk =
     (if data_type e = TS_ES_DATA_TABLE_SECTION \<and> length (p_buffer p_bk) > 0
      then
        let i_pointer_field = min (unat (p_buffer p_bk ! 0)) (length (p_buffer p_bk) - 1)
        in (e\<lparr>p_data := p_data e @ [p_bk\<lparr>p_buffer := take i_pointer_field (drop 1 (p_buffer p_bk))\<rparr>]\<rparr>,
            p_bk\<lparr>p_buffer := drop (1 + i_pointer_field) (p_buffer p_bk)\<rparr>)
      else (e, p_bk))"

text \<open>The gathering proper, \<^verbatim>\<open>if( b_unit_start ) ... else ...\<close> at the end of \<^verbatim>\<open>GatherData\<close>,
  for the payload \<open>p_bk\<close>.\<close>

definition GatherData_gather ::
  "vlc_env \<Rightarrow> demux \<Rightarrow> nat \<Rightarrow> bool \<Rightarrow> block \<Rightarrow> fault + (bool \<times> demux)" where
  "GatherData_gather env d k b_unit_start p_bk =
     (case es (pid d k) of
        None \<Rightarrow> Inl Null_dereference
      | Some e \<Rightarrow>
          if b_unit_start
          then
            (case pointer_field e p_bk of
               (e1, bk1) \<Rightarrow>
                 (case (if p_data e1 \<noteq> []
                        then (case ParseData env (es_set d k e1) k of
                                Inl f \<Rightarrow> Inl f | Inr d' \<Rightarrow> Inr (True, d'))
                        else Inr (False, es_set d k e1)) of
                    Inl f \<Rightarrow> Inl f
                  | Inr (i_ret, d2) \<Rightarrow>
                      (case es (pid d2 k) of
                         None \<Rightarrow> Inl Null_dereference
                       | Some e2 \<Rightarrow>
                           let e3 = es_append e2 bk1;
                               e3 = (case declared_size (data_type e3) (p_buffer bk1) of
                                       None \<Rightarrow> e3 | Some n \<Rightarrow> e3\<lparr>i_data_size := n\<rparr>)
                           in GatherData_complete env (es_set d2 k e3) k e3 i_ret)))
          else if p_data e = [] then Inr (False, d)
          else let e1 = es_append e p_bk in GatherData_complete env (es_set d k e1) k e1 False)"

text \<open>The buffer of the packet as \<^verbatim>\<open>GatherData\<close> reads it from the adaptation field on: cut
  or extended to 188 bytes (\<^verbatim>\<open>p_bk->i_buffer = TS_PACKET_SIZE_188\<close>) and descrambled in place
  when a key is set.\<close>

definition GatherData_buffer :: "vlc_env \<Rightarrow> demux \<Rightarrow> block \<Rightarrow> byte list" where
  "GatherData_buffer env d p_bk =
     (if csa d
      then fit188 env (csa_Decrypt env (fit188 env (p_buffer p_bk)) (i_csa_pkt_size d))
      else fit188 env (p_buffer p_bk))"

text \<open>\<^verbatim>\<open>GatherData\<close> for the PID entry \<open>k\<close> and the packet \<open>p_bk\<close>: the value returned and the
  state.\<close>

definition GatherData :: "vlc_env \<Rightarrow> demux \<Rightarrow> nat \<Rightarrow> block \<Rightarrow> fault + (bool \<times> demux)" where
  "GatherData env d k p_bk =
     (let p0 = pkt_byte env (p_buffer p_bk);
          b_unit_start = (p0 1 AND 0x40 \<noteq> 0);
          b_scr = (p0 3 AND 0x80 \<noteq> 0);
          b_adaptation = (p0 3 AND 0x20 \<noteq> 0);
          b_payload = (p0 3 AND 0x10 \<noteq> 0);
          cc = uint (p0 3 AND 0x0f);
          p = GatherData_buffer env d p_bk
      in case GatherData_header (pid d k) p (p0 1 AND 0x80 \<noteq> 0) b_adaptation b_payload cc of
           Inl f \<Rightarrow> Inl f
         | Inr (pd, lg, i_skip) \<Rightarrow>
             (case PCRHandle env (d\<lparr>pid := (pid d)(k := pd), msgs := msgs d @ lg\<rparr>) k p of
                Inl f \<Rightarrow> Inl f
              | Inr d2 \<Rightarrow>
                  if i_skip \<ge> 188 then Inr (False, d2)
                  else (case es (pid d2 k) of
                          None \<Rightarrow> Inl Null_dereference
                        | Some e \<Rightarrow>
                            if es_id e = None then Inr (False, d2)
                            else GatherData_gather env (GatherData_scrambled d2 k e b_scr) k
                                   b_unit_start (p_bk\<lparr>p_buffer := drop i_skip p\<rparr>))))"

text \<open>The blocks that a list of events sends to the output.\<close>

fun sent :: "es_out_event \<Rightarrow> block list" where
  "sent (Es_out_Send i b) = [b]"
| "sent (Es_out_Add f) = []"
| "sent (Es_out_Del i) = []"
| "sent (ES_OUT_SET_GROUP_PCR g t) = []"
| "sent (ES_OUT_SET_ES_SCRAMBLED_STATE i b) = []"
| "sent (ES_OUT_DEL_GROUP g) = []"

definition sent_blocks :: "es_out_event list \<Rightarrow> block list" where
  "sent_blocks evs = concat (map sent evs)"


subsection \<open>Examples of reassembly\<close>

text \<open>A stream with the output handle 0 and the chain \<open>chain\<close> in flight, and a valid PID entry
  that carries it.\<close>

definition es_ex :: "es_cat \<Rightarrow> vlc_fourcc \<Rightarrow> block list \<Rightarrow> ts_es" where
  "es_ex cat codec chain =
     \<lparr>fmt = es_format_Init cat codec, es_id = Some 0, data_type = TS_ES_DATA_PES,
      i_data_size = 0, i_data_gathered = int (length (chain_bytes chain)), p_data = chain,
      p_mpeg4desc = None\<rparr>"

definition pid_ex :: "nat \<Rightarrow> int \<Rightarrow> ts_es \<Rightarrow> ts_pid" where
  "pid_ex k cc e = (pid_zero k)\<lparr>b_valid := True, i_cc := cc, es := Some e\<rparr>"

text \<open>A packet of PID 200 with payload only, the continuity counter \<open>cc\<close> and 184 payload
  bytes 0.\<close>

definition pkt_ex :: "byte \<Rightarrow> byte list" where
  "pkt_ex cc = [0x47, 0x00, 0xC8, 0x10 OR cc] @ replicate 184 0"

text \<open>A video PID 200 whose last counter was 2, with one block of a PES in flight.\<close>

definition video_ex :: demux where
  "video_ex = (p_sys_zero \<lparr>s_data = [], s_pos = 0\<rparr>)
     \<lparr>pid := pid_zero(200 := pid_ex 200 2
               (es_ex VIDEO_ES (VLC_CODEC_MPGV env_ex) [block_new env_ex [0, 0, 1, 0xE0, 0, 0]]))\<rparr>"


text \<open>The same PID as a teletext stream.\<close>

definition spu_ex :: demux where
  "spu_ex = (p_sys_zero \<lparr>s_data = [], s_pos = 0\<rparr>)
     \<lparr>pid := pid_zero(200 := pid_ex 200 2
               (es_ex SPU_ES (VLC_CODEC_TELETEXT env_ex) [block_new env_ex [0, 0, 1, 0xBD, 0, 0]]))\<rparr>"

text \<open>A PES of the stream 0xE0 with an MPEG-2 header that carries the presentation timestamp 9
  only, and one payload byte.\<close>

definition pes_pts_ex :: "byte list" where
  "pes_pts_ex = [0, 0, 1, 0xE0, 0, 0, 0x80, 0x80, 5, 0x21, 0x00, 0x01, 0x00, 0x13, 0xAA]"

text \<open>A PES of the stream 0xBD whose header carries no timestamp, and one payload byte.\<close>

definition pes_plain_ex :: "byte list" where
  "pes_plain_ex = [0, 0, 1, 0xBD, 0, 0, 0x80, 0, 0, 0x55]"

text \<open>A teletext PID 300 of the program 1, which the PMT of PID 100 announces and whose last
  clock reference was 900000.\<close>

definition teletext_ex :: demux where
  "teletext_ex = (p_sys_zero \<lparr>s_data = [], s_pos = 0\<rparr>)
     \<lparr>pid := pid_zero
        (100 := (pid_zero 100)\<lparr>b_valid := True,
                  psi := Some \<lparr>psi_handle = False, i_pat_version = -1, i_sdt_version = -1,
                    prg = [\<lparr>handle = Some 1, i_version = 0, i_number = 1, i_pid_pcr = 101,
                            i_pid_pmt = 100, i_pcr_value = 900000, iod = None\<rparr>]\<rparr>\<rparr>,
         300 := (pid_ex 300 2 (es_ex SPU_ES (VLC_CODEC_TELETEXT env_ex) []))
                  \<lparr>p_owner := Some 100, i_owner_number := 1\<rparr>),
      pmt := [100]\<rparr>"

section \<open>Verified properties\<close>

subsection \<open>Clock wrap-around\<close>

lemma wrap_loop_stop:
  "j \<le> i \<Longrightarrow> (\<forall>k. j \<le> k \<and> k < i \<longrightarrow> int k < i_pcrs_num d \<and> p_pos d ! k \<le> pos)
   \<Longrightarrow> \<not> (int i < i_pcrs_num d \<and> p_pos d ! i \<le> pos)
   \<Longrightarrow> wrap_loop d pos j a =
        (i, a + 0x1FFFFFFFF * int (length (filter (\<lambda>k. p_pcrs d ! (k - 1) > p_pcrs d ! k) [j..<i])))"
proof (induction n \<equiv> "i - j" arbitrary: j a)
  case 0
  then have "j = i" by simp
  with 0 show ?case by (subst wrap_loop.simps) auto
next
  case (Suc n)
  then have lt: "j < i" by simp
  with Suc.prems have c: "int j < i_pcrs_num d \<and> p_pos d ! j \<le> pos" by auto
  have up: "[j..<i] = j # [Suc j..<i]" using lt by (simp add: upt_conv_Cons)
  have IH: "wrap_loop d pos (Suc j) a' =
      (i, a' + 0x1FFFFFFFF * int (length (filter (\<lambda>k. p_pcrs d ! (k - 1) > p_pcrs d ! k) [Suc j..<i])))" for a'
  proof (rule Suc.hyps(1))
    show "n = i - Suc j" using Suc.hyps(2) by simp
    show "Suc j \<le> i" using lt by simp
    show "\<forall>k. Suc j \<le> k \<and> k < i \<longrightarrow> int k < i_pcrs_num d \<and> p_pos d ! k \<le> pos"
      using Suc.prems(2) by simp
    show "\<not> (int i < i_pcrs_num d \<and> p_pos d ! i \<le> pos)" by (rule Suc.prems(3))
  qed
  show ?case
    by (subst wrap_loop.simps) (use c in \<open>simp add: IH up\<close>)
qed

text \<open>C2 (as amended). Let \<open>i - 1\<close> be the last entry of the sample table that
  \<^verbatim>\<open>AdjustPCRWrapAround\<close> takes into account: the entries \<open>1 .. i - 1\<close> lie at or before the
  stream position, and entry \<open>i\<close> does not exist or lies beyond it. The function adds
  \<open>0x1FFFFFFFF = 2^33 - 1\<close> to the reading once for every entry among \<open>1 .. i - 1\<close> that is
  smaller than its predecessor, and once more when the reading is smaller than entry \<open>i - 1\<close>.
  For a non-negative reading and a 33-bit entry \<open>i - 1\<close>, the result is at least that entry
  raised by the rollovers before it.\<close>

theorem AdjustPCRWrapAround_rollovers:
  assumes "1 \<le> i"
    and "\<forall>k. 1 \<le> k \<and> k < i \<longrightarrow> int k < i_pcrs_num d \<and> p_pos d ! k \<le> stream_Tell (strm d)"
    and "\<not> (int i < i_pcrs_num d \<and> p_pos d ! i \<le> stream_Tell (strm d))"
  shows "AdjustPCRWrapAround d i_pcr =
           i_pcr + 0x1FFFFFFFF *
             (int (length (filter (\<lambda>k. p_pcrs d ! (k - 1) > p_pcrs d ! k) [1..<i]))
              + (if p_pcrs d ! (i - 1) > i_pcr then 1 else 0))
         \<and> (0 \<le> i_pcr \<and> p_pcrs d ! (i - 1) \<le> 0x1FFFFFFFF \<longrightarrow>
              p_pcrs d ! (i - 1)
                + 0x1FFFFFFFF * int (length (filter (\<lambda>k. p_pcrs d ! (k - 1) > p_pcrs d ! k) [1..<i]))
              \<le> AdjustPCRWrapAround d i_pcr)"
proof -
  have w: "wrap_loop d (stream_Tell (strm d)) 1 0 =
      (i, 0 + 0x1FFFFFFFF * int (length (filter (\<lambda>k. p_pcrs d ! (k - 1) > p_pcrs d ! k) [1..<i])))"
    using assms by (intro wrap_loop_stop) auto
  show ?thesis
    unfolding AdjustPCRWrapAround_def Let_def w by simp
qed

text \<open>A table of three samples with one rollover, read at the end of the stream: the reading
  2000 is raised by \<open>2^33 - 1\<close> and is not below the corrected third sample.\<close>

theorem AdjustPCRWrapAround_rollovers_witness:
  "AdjustPCRWrapAround
     ((p_sys_zero \<lparr>s_data = replicate 752 0, s_pos = 564\<rparr>)
        \<lparr>i_pcrs_num := 3, p_pcrs := [2 ^ 33 - 100, 50, 1000], p_pos := [0, 188, 376]\<rparr>) 2000
     = 2000 + (2 ^ 33 - 1)
   \<and> 1000 + (2 ^ 33 - 1) \<le> AdjustPCRWrapAround
     ((p_sys_zero \<lparr>s_data = replicate 752 0, s_pos = 564\<rparr>)
        \<lparr>i_pcrs_num := 3, p_pcrs := [2 ^ 33 - 100, 50, 1000], p_pos := [0, 188, 376]\<rparr>) 2000"
proof -
  let ?d = "(p_sys_zero \<lparr>s_data = replicate 752 0, s_pos = 564\<rparr>)
        \<lparr>i_pcrs_num := 3, p_pcrs := [2 ^ 33 - 100, 50, 1000], p_pos := [0, 188, 376]\<rparr>"
  have up: "[Suc 0..<3] = [1, 2::nat]" by (simp add: upt_conv_Cons numeral_3_eq_3)
  have h2: "\<forall>k. 1 \<le> k \<and> k < 3 \<longrightarrow> int k < i_pcrs_num ?d \<and> p_pos ?d ! k \<le> stream_Tell (strm ?d)"
  proof (intro allI impI)
    fix k :: nat assume "1 \<le> k \<and> k < 3"
    then have "k = 1 \<or> k = 2" by arith
    then show "int k < i_pcrs_num ?d \<and> p_pos ?d ! k \<le> stream_Tell (strm ?d)"
      by (auto simp: p_sys_zero_def stream_Tell_def)
  qed
  have h3: "\<not> (int 3 < i_pcrs_num ?d \<and> p_pos ?d ! 3 \<le> stream_Tell (strm ?d))"
    by (simp add: p_sys_zero_def)
  show ?thesis
    using AdjustPCRWrapAround_rollovers [of 3 ?d 2000, OF _ h2 h3]
    by (simp add: p_sys_zero_def up)
qed

text \<open>The two samples of the specification, (offset 0, \<open>2^33 - 100\<close>) and (offset 188, 50):
  the second one is corrected to \<open>50 + 2^33 - 1\<close>, not to \<open>50 + 2^33\<close>.\<close>

theorem AdjustPCRWrapAround_modulus_counterexample:
  "AdjustPCRWrapAround
     ((p_sys_zero \<lparr>s_data = replicate 376 0, s_pos = 188\<rparr>)
        \<lparr>i_pcrs_num := 2, p_pcrs := [2 ^ 33 - 100, 50], p_pos := [0, 188]\<rparr>) 50
   \<noteq> 50 + 2 ^ 33"
  by (simp add: AdjustPCRWrapAround_def p_sys_zero_def stream_Tell_def wrap_loop.simps)

subsection \<open>Packet size detection\<close>

lemma peek_nth:
  "k < n \<Longrightarrow> n \<le> length (drop (s_pos s) (s_data s)) \<Longrightarrow>
   stream_Peek s n ! k = drop (s_pos s) (s_data s) ! k"
  by (simp add: stream_Peek_def)

lemma peek_length:
  "n \<le> length (drop (s_pos s) (s_data s)) \<Longrightarrow> length (stream_Peek s n) = n"
  by (simp add: stream_Peek_def)

lemma next3_peek:
  assumes "i < 204" "816 \<le> length (drop (s_pos s) (s_data s))" "sz \<le> 204"
  shows "next3_sync (stream_Peek s (TS_PACKET_SIZE_MAX * 3 + i + 1)) i sz
           = next3_sync (drop (s_pos s) (s_data s)) i sz"
proof -
  have a: "i + 1 * sz < TS_PACKET_SIZE_MAX * 3 + i + 1" "i + 2 * sz < TS_PACKET_SIZE_MAX * 3 + i + 1"
    "i + 3 * sz < TS_PACKET_SIZE_MAX * 3 + i + 1"
    using assms by (simp_all add: TS_PACKET_SIZE_MAX_def)
  have b: "TS_PACKET_SIZE_MAX * 3 + i + 1 \<le> length (drop (s_pos s) (s_data s))"
    using assms by (simp add: TS_PACKET_SIZE_MAX_def)
  show ?thesis
    unfolding next3_sync_def using a b by (simp only: peek_nth)
qed

lemma sync_loop_step:
  assumes len: "816 \<le> length (drop (s_pos s) (s_data s))" and i: "i < 204"
    and p: "p_peek ! i = drop (s_pos s) (s_data s) ! i"
  shows "sync_loop s p_peek (Suc k) i =
     (if sync_found (drop (s_pos s) (s_data s)) i
      then Some (found_result (drop (s_pos s) (s_data s)) i)
      else sync_loop s (if drop (s_pos s) (s_data s) ! i \<noteq> 0x47 then p_peek
                        else stream_Peek s (TS_PACKET_SIZE_MAX * 3 + i + 1)) k (i + 1))"
proof -
  let ?a = "drop (s_pos s) (s_data s)"
  let ?n = "TS_PACKET_SIZE_MAX * 3 + i + 1"
  have plen: "length (stream_Peek s ?n) = ?n"
    using i len by (intro peek_length) (simp add: TS_PACKET_SIZE_MAX_def)
  have n3: "next3_sync (stream_Peek s ?n) i TS_PACKET_SIZE_188 = next3_sync ?a i TS_PACKET_SIZE_188"
    "next3_sync (stream_Peek s ?n) i TS_PACKET_SIZE_192 = next3_sync ?a i TS_PACKET_SIZE_192"
    "next3_sync (stream_Peek s ?n) i TS_PACKET_SIZE_204 = next3_sync ?a i TS_PACKET_SIZE_204"
    by (rule next3_peek [OF i len], simp add: TS_PACKET_SIZE_188_def TS_PACKET_SIZE_192_def TS_PACKET_SIZE_204_def)+
  have "sync_loop s p_peek (Suc k) i =
     (if ?a ! i \<noteq> 0x47 then sync_loop s p_peek k (i + 1)
      else if next3_sync ?a i TS_PACKET_SIZE_188
           then Some \<lparr>d_ret = int TS_PACKET_SIZE_188, d_header_size = 0, d_log = []\<rparr>
           else if next3_sync ?a i TS_PACKET_SIZE_192
           then Some \<lparr>d_ret = int TS_PACKET_SIZE_192,
                       d_header_size = (if i = 4 then 4 else 0), d_log = []\<rparr>
           else if next3_sync ?a i TS_PACKET_SIZE_204
           then Some \<lparr>d_ret = int TS_PACKET_SIZE_204, d_header_size = 0, d_log = []\<rparr>
           else sync_loop s (stream_Peek s ?n) k (i + 1))"
    by (simp only: sync_loop.simps Let_def p plen n3 less_irrefl if_False)
  also have "\<dots> = (if sync_found ?a i then Some (found_result ?a i)
      else sync_loop s (if ?a ! i \<noteq> 0x47 then p_peek else stream_Peek s ?n) k (i + 1))"
    by (auto simp: sync_found_def found_result_def)
  finally show ?thesis .
qed

lemma sync_loop_scan:
  assumes len: "816 \<le> length (drop (s_pos s) (s_data s))"
  shows "i + k = 204 \<Longrightarrow> 204 \<le> m \<Longrightarrow> m \<le> 816 \<Longrightarrow>
     sync_loop s (stream_Peek s m) k i =
       (if \<exists>j. i \<le> j \<and> j < 204 \<and> sync_found (drop (s_pos s) (s_data s)) j
        then Some (found_result (drop (s_pos s) (s_data s))
                     (LEAST j. i \<le> j \<and> sync_found (drop (s_pos s) (s_data s)) j))
        else None)"
proof (induction k arbitrary: i m)
  case 0
  then show ?case by auto
next
  case (Suc k)
  let ?a = "drop (s_pos s) (s_data s)"
  let ?n = "TS_PACKET_SIZE_MAX * 3 + i + 1"
  have i: "i < 204" using Suc.prems by simp
  have pi: "stream_Peek s m ! i = ?a ! i"
    using Suc.prems i len by (simp add: peek_nth)
  note step = sync_loop_step [OF len i pi, of k]
  show ?case
  proof (cases "sync_found ?a i")
    case True
    then have ex: "\<exists>j. i \<le> j \<and> j < 204 \<and> sync_found ?a j" using i by auto
    have least: "(LEAST j. i \<le> j \<and> sync_found ?a j) = i"
      using True by (intro Least_equality) auto
    show ?thesis using True ex by (simp only: step least if_True)
  next
    case False
    have peq: "(\<lambda>j. i \<le> j \<and> sync_found ?a j) = (\<lambda>j. i + 1 \<le> j \<and> sync_found ?a j)"
      using False by (metis Suc_leI le_neq_implies_less Suc_leD Suc_eq_plus1)
    have exeq: "(\<exists>j. i \<le> j \<and> j < 204 \<and> sync_found ?a j) = (\<exists>j. i + 1 \<le> j \<and> j < 204 \<and> sync_found ?a j)"
      using False by (metis Suc_leI le_neq_implies_less Suc_leD Suc_eq_plus1)
    have m': "204 \<le> ?n" "?n \<le> 816"
      using i by (simp_all add: TS_PACKET_SIZE_MAX_def)
    have k: "(i + 1) + k = 204" using Suc.prems by simp
    have "sync_loop s (stream_Peek s m) (Suc k) i =
        sync_loop s (if ?a ! i \<noteq> 0x47 then stream_Peek s m else stream_Peek s ?n) k (i + 1)"
      using False by (simp only: step if_False)
    also have "\<dots> = (if \<exists>j. i + 1 \<le> j \<and> j < 204 \<and> sync_found ?a j
        then Some (found_result ?a (LEAST j. i + 1 \<le> j \<and> sync_found ?a j)) else None)"
    proof (cases "?a ! i \<noteq> 0x47")
      case True
      then show ?thesis using Suc.IH [OF k Suc.prems(2,3)] by simp
    next
      case False
      then show ?thesis using Suc.IH [OF k m'] by simp
    qed
    finally show ?thesis by (simp only: exeq peq)
  qed
qed

lemma peek_816:
  assumes "length (stream_Peek s (4 * 204)) = 4 * 204"
  shows "816 \<le> length (drop (s_pos s) (s_data s))"
    and "k < 816 \<Longrightarrow> drop (s_pos s) (s_data s) ! k = stream_Peek s (4 * 204) ! k"
  using assms by (auto simp: stream_Peek_def)

lemma next3_816:
  assumes "length (stream_Peek s (4 * 204)) = 4 * 204" "j < 204" "sz \<le> 204"
  shows "next3_sync (drop (s_pos s) (s_data s)) j sz = next3_sync (stream_Peek s (4 * 204)) j sz"
  using assms by (simp add: next3_sync_def peek_816(2))

lemma sync_found_816:
  assumes "length (stream_Peek s (4 * 204)) = 4 * 204" "j < 204"
  shows "sync_found (drop (s_pos s) (s_data s)) j = sync_found (stream_Peek s (4 * 204)) j"
  using assms
  by (simp add: sync_found_def next3_816 peek_816(2) TS_PACKET_SIZE_188_def TS_PACKET_SIZE_192_def
      TS_PACKET_SIZE_204_def)


lemma DetectPacketSize_scan:
  assumes w: "length (stream_Peek s (4 * 204)) = 4 * 204"
    and tf: "\<not> is_topfield (stream_Peek s (4 * 204))"
  shows "DetectPacketSize b_force s hdr0 =
      (case (if \<exists>j<204. sync_found (stream_Peek s (4 * 204)) j
             then Some (found_result (drop (s_pos s) (s_data s))
                          (LEAST j. j < 204 \<and> sync_found (stream_Peek s (4 * 204)) j))
             else None) of
                Some r \<Rightarrow> r
              | None \<Rightarrow>
                  if b_force
                  then \<lparr>d_ret = int TS_PACKET_SIZE_188, d_header_size = 0,
                        d_log = [(Warn, ''this does not look like a TS stream, continuing'', [])]\<rparr>
                  else \<lparr>d_ret = -1, d_header_size = 0,
                        d_log = [(Dbg, ''TS module discarded (lost sync)'', [])]\<rparr>)"
proof -
  let ?a = "drop (s_pos s) (s_data s)"
  let ?w = "stream_Peek s (4 * 204)"
  note len = peek_816(1) [OF w]
  have p204: "length (stream_Peek s TS_PACKET_SIZE_MAX) = TS_PACKET_SIZE_MAX"
    using len by (intro peek_length) (simp add: TS_PACKET_SIZE_MAX_def)
  have "take 4 (stream_Peek s TS_PACKET_SIZE_MAX) = take 4 ?w"
    by (simp add: stream_Peek_def TS_PACKET_SIZE_MAX_def)
  then have tf': "\<not> is_topfield (stream_Peek s TS_PACKET_SIZE_MAX)"
    using tf by (simp add: is_topfield_def)
  have scan: "sync_loop s (stream_Peek s TS_PACKET_SIZE_MAX) TS_PACKET_SIZE_MAX 0 =
       (if \<exists>j. 0 \<le> j \<and> j < 204 \<and> sync_found ?a j
        then Some (found_result ?a (LEAST j. 0 \<le> j \<and> sync_found ?a j)) else None)"
    unfolding TS_PACKET_SIZE_MAX_def by (rule sync_loop_scan [OF len]) simp_all
  have ex: "(\<exists>j. 0 \<le> j \<and> j < 204 \<and> sync_found ?a j) = (\<exists>j<204. sync_found ?w j)"
    by (auto simp: sync_found_816 [OF w])
  have least: "(LEAST j. 0 \<le> j \<and> sync_found ?a j) = (LEAST j. j < 204 \<and> sync_found ?w j)"
    if "\<exists>j<204. sync_found ?w j"
  proof -
    from that obtain j0 where j0: "j0 < 204" "sync_found ?w j0" by blast
    define m where "m = (LEAST j. j < 204 \<and> sync_found ?w j)"
    have m: "m < 204 \<and> sync_found ?w m"
      unfolding m_def by (rule LeastI [of "\<lambda>j. j < 204 \<and> sync_found ?w j" j0]) (use j0 in simp)
    have mle: "m \<le> j" if "j < 204" "sync_found ?w j" for j
      unfolding m_def by (rule Least_le) (use that in simp)
    have "(LEAST j. 0 \<le> j \<and> sync_found ?a j) = m"
    proof (rule Least_equality)
      show "0 \<le> m \<and> sync_found ?a m" using m by (simp add: sync_found_816 [OF w])
    next
      fix y assume y: "0 \<le> y \<and> sync_found ?a y"
      show "m \<le> y"
      proof (cases "y < 204")
        case True
        then show ?thesis using y mle by (simp add: sync_found_816 [OF w])
      next
        case False
        then show ?thesis using m by simp
      qed
    qed
    then show ?thesis by (simp add: m_def)
  qed
  have D: "DetectPacketSize b_force s hdr0 =
      (case sync_loop s (stream_Peek s TS_PACKET_SIZE_MAX) TS_PACKET_SIZE_MAX 0 of
                Some r \<Rightarrow> r
              | None \<Rightarrow>
                  if b_force
                  then \<lparr>d_ret = int TS_PACKET_SIZE_188, d_header_size = 0,
                        d_log = [(Warn, ''this does not look like a TS stream, continuing'', [])]\<rparr>
                  else \<lparr>d_ret = -1, d_header_size = 0,
                        d_log = [(Dbg, ''TS module discarded (lost sync)'', [])]\<rparr>)"
    unfolding DetectPacketSize_def Let_def using p204 tf' by simp
  show ?thesis
  proof (cases "\<exists>j<204. sync_found ?w j")
    case True
    then show ?thesis unfolding D scan ex by (simp only: if_True least [OF True])
  next
    case False
    then show ?thesis unfolding D scan ex by (simp only: if_False)
  qed
qed

lemma found_result_816:
  assumes w: "length (stream_Peek s (4 * 204)) = 4 * 204" and i: "i < 204"
  shows "found_result (drop (s_pos s) (s_data s)) i =
            \<lparr>d_ret = (if next3_sync (stream_Peek s (4 * 204)) i 188 then 188
                      else if next3_sync (stream_Peek s (4 * 204)) i 192 then 192 else 204),
             d_header_size = (if \<not> next3_sync (stream_Peek s (4 * 204)) i 188
                                 \<and> next3_sync (stream_Peek s (4 * 204)) i 192 \<and> i = 4 then 4 else 0),
             d_log = []\<rparr>"
  using i
  by (simp add: found_result_def next3_816 [OF w] TS_PACKET_SIZE_188_def TS_PACKET_SIZE_192_def
        TS_PACKET_SIZE_204_def)

lemma DetectPacketSize_found:
  assumes w: "length (stream_Peek s (4 * 204)) = 4 * 204"
    and tf: "\<not> is_topfield (stream_Peek s (4 * 204))"
    and i: "i < 204" and f: "sync_found (stream_Peek s (4 * 204)) i"
    and n: "\<forall>j<i. \<not> sync_found (stream_Peek s (4 * 204)) j"
  shows "DetectPacketSize b_force s hdr0 =
            \<lparr>d_ret = (if next3_sync (stream_Peek s (4 * 204)) i 188 then 188
                      else if next3_sync (stream_Peek s (4 * 204)) i 192 then 192 else 204),
             d_header_size = (if \<not> next3_sync (stream_Peek s (4 * 204)) i 188
                                 \<and> next3_sync (stream_Peek s (4 * 204)) i 192 \<and> i = 4 then 4 else 0),
             d_log = []\<rparr>"
proof -
  have ex: "\<exists>j<204. sync_found (stream_Peek s (4 * 204)) j" using i f by blast
  have least: "(LEAST j. j < 204 \<and> sync_found (stream_Peek s (4 * 204)) j) = i"
    using i f n by (intro Least_equality) (auto simp: not_less [symmetric])
  show ?thesis
    unfolding DetectPacketSize_scan [OF w tf] using ex
    by (simp only: if_True least option.case found_result_816 [OF w i])
qed

lemma DetectPacketSize_lost:
  assumes w: "length (stream_Peek s (4 * 204)) = 4 * 204"
    and tf: "\<not> is_topfield (stream_Peek s (4 * 204))"
    and n: "\<forall>j<204. \<not> sync_found (stream_Peek s (4 * 204)) j"
  shows "DetectPacketSize b_force s hdr0 =
            (if b_force
             then \<lparr>d_ret = 188, d_header_size = 0,
                   d_log = [(Warn, ''this does not look like a TS stream, continuing'', [])]\<rparr>
             else \<lparr>d_ret = -1, d_header_size = 0,
                   d_log = [(Dbg, ''TS module discarded (lost sync)'', [])]\<rparr>)"
proof -
  have ex: "\<not> (\<exists>j<204. sync_found (stream_Peek s (4 * 204)) j)" using n by blast
  have "(if \<exists>j<204. sync_found (stream_Peek s (4 * 204)) j
             then Some (found_result (drop (s_pos s) (s_data s))
                          (LEAST j. j < 204 \<and> sync_found (stream_Peek s (4 * 204)) j))
             else None) = None"
    using ex by (simp only: if_False)
  then show ?thesis
    unfolding DetectPacketSize_scan [OF w tf]
    by (simp add: TS_PACKET_SIZE_188_def)
qed

text \<open>C4 (as amended). Let the stream offer a window of 4 x 204 bytes that does not begin
  with the recorder signature "TFrc". \<^verbatim>\<open>DetectPacketSize\<close> scans the offsets 0..203; at the
  first offset \<open>i\<close> holding a sync byte that recurs three times at a distance of 188, 192 or 204
  bytes it returns the smallest such distance, and it records a 4-byte header exactly when that
  distance is 192 and \<open>i = 4\<close>. When no offset qualifies it returns -1, or 188 in forced mode.\<close>

theorem DetectPacketSize_first_match:
  assumes w: "length (stream_Peek s (4 * 204)) = 4 * 204"
    and tf: "\<not> is_topfield (stream_Peek s (4 * 204))"
  shows "(i < 204 \<and> sync_found (stream_Peek s (4 * 204)) i
            \<and> (\<forall>j<i. \<not> sync_found (stream_Peek s (4 * 204)) j) \<longrightarrow>
          DetectPacketSize b_force s hdr0 =
            \<lparr>d_ret = (if next3_sync (stream_Peek s (4 * 204)) i 188 then 188
                      else if next3_sync (stream_Peek s (4 * 204)) i 192 then 192 else 204),
             d_header_size = (if \<not> next3_sync (stream_Peek s (4 * 204)) i 188
                                 \<and> next3_sync (stream_Peek s (4 * 204)) i 192 \<and> i = 4 then 4 else 0),
             d_log = []\<rparr>)
       \<and> ((\<forall>j<204. \<not> sync_found (stream_Peek s (4 * 204)) j) \<longrightarrow>
          DetectPacketSize b_force s hdr0 =
            (if b_force
             then \<lparr>d_ret = 188, d_header_size = 0,
                   d_log = [(Warn, ''this does not look like a TS stream, continuing'', [])]\<rparr>
             else \<lparr>d_ret = -1, d_header_size = 0,
                   d_log = [(Dbg, ''TS module discarded (lost sync)'', [])]\<rparr>))"
  using DetectPacketSize_found [OF w tf] DetectPacketSize_lost [OF w tf] by blast

lemma ex188_peek: "stream_Peek ex188 816 = s_data ex188"
  by (simp add: stream_Peek_def ex188_def)

lemma ex188_nth: "k < 816 \<Longrightarrow> s_data ex188 ! k = (if k \<in> {4, 192, 380, 568} then 0x47 else 0)"
  by (auto simp: ex188_def nth_append nth_Cons')

lemma ex192_peek: "stream_Peek ex192 816 = s_data ex192"
  by (simp add: stream_Peek_def ex192_def)

lemma ex192_nth: "k < 816 \<Longrightarrow> s_data ex192 ! k = (if k \<in> {4, 196, 388, 580} then 0x47 else 0)"
  by (auto simp: ex192_def nth_append nth_Cons')

lemma ex_noise_peek: "stream_Peek ex_noise 816 = replicate 816 0x55"
  by (simp add: stream_Peek_def ex_noise_def)

text \<open>Four 192-byte packets behind a 4-byte header give size 192 and header size 4; a stream
  without sync byte is refused, or taken as 188 in forced mode.\<close>

theorem DetectPacketSize_first_match_witness:
  "DetectPacketSize False ex192 0 = \<lparr>d_ret = 192, d_header_size = 4, d_log = []\<rparr>
   \<and> DetectPacketSize False ex_noise 0 =
         \<lparr>d_ret = -1, d_header_size = 0, d_log = [(Dbg, ''TS module discarded (lost sync)'', [])]\<rparr>
   \<and> DetectPacketSize True ex_noise 0 =
         \<lparr>d_ret = 188, d_header_size = 0,
          d_log = [(Warn, ''this does not look like a TS stream, continuing'', [])]\<rparr>"
proof -
  have w: "length (stream_Peek ex192 (4 * 204)) = 4 * 204"
    by (simp add: ex192_peek) (simp add: ex192_def)
  have tf: "\<not> is_topfield (stream_Peek ex192 (4 * 204))"
    by (simp add: ex192_peek) (simp add: ex192_def is_topfield_def)
  have f: "sync_found (stream_Peek ex192 (4 * 204)) 4"
    by (simp add: ex192_peek sync_found_def next3_sync_def ex192_nth TS_PACKET_SIZE_192_def)
  have n: "\<forall>j<4. \<not> sync_found (stream_Peek ex192 (4 * 204)) j"
    by (simp add: ex192_peek sync_found_def ex192_nth)
  have n3: "\<not> next3_sync (stream_Peek ex192 (4 * 204)) 4 188"
    "next3_sync (stream_Peek ex192 (4 * 204)) 4 192"
    by (simp_all add: ex192_peek next3_sync_def ex192_nth)
  have a: "DetectPacketSize False ex192 0 = \<lparr>d_ret = 192, d_header_size = 4, d_log = []\<rparr>"
    using DetectPacketSize_first_match [OF w tf, of 4 False 0] f n n3 by simp
  have w': "length (stream_Peek ex_noise (4 * 204)) = 4 * 204"
    by (simp add: ex_noise_peek)
  have tf': "\<not> is_topfield (stream_Peek ex_noise (4 * 204))"
  proof -
    have "replicate 4 (0x55 :: byte) = [0x55, 0x55, 0x55, 0x55]"
      by (simp add: numeral_eq_Suc)
    then show ?thesis by (simp add: ex_noise_peek is_topfield_def)
  qed
  have n': "\<forall>j<204. \<not> sync_found (stream_Peek ex_noise (4 * 204)) j"
    by (simp add: ex_noise_peek sync_found_def)
  have b: "DetectPacketSize b ex_noise 0 =
            (if b
             then \<lparr>d_ret = 188, d_header_size = 0,
                   d_log = [(Warn, ''this does not look like a TS stream, continuing'', [])]\<rparr>
             else \<lparr>d_ret = -1, d_header_size = 0,
                   d_log = [(Dbg, ''TS module discarded (lost sync)'', [])]\<rparr>)" for b
    using DetectPacketSize_first_match [OF w' tf', of 0 b 0] n' by blast
  show ?thesis using a b [of False] b [of True] by simp
qed

text \<open>Four 188-byte packets after 4 other bytes: the first match is at offset 4, and no header
  is recorded.\<close>

theorem DetectPacketSize_header_counterexample:
  "DetectPacketSize False ex188 0 = \<lparr>d_ret = 188, d_header_size = 0, d_log = []\<rparr>"
proof -
  have w: "length (stream_Peek ex188 (4 * 204)) = 4 * 204"
    by (simp add: ex188_peek) (simp add: ex188_def)
  have tf: "\<not> is_topfield (stream_Peek ex188 (4 * 204))"
    by (simp add: ex188_peek) (simp add: ex188_def is_topfield_def)
  have f: "sync_found (stream_Peek ex188 (4 * 204)) 4"
    by (simp add: ex188_peek sync_found_def next3_sync_def ex188_nth TS_PACKET_SIZE_188_def)
  have n: "\<forall>j<4. \<not> sync_found (stream_Peek ex188 (4 * 204)) j"
    by (simp add: ex188_peek sync_found_def ex188_nth)
  have n3: "next3_sync (stream_Peek ex188 (4 * 204)) 4 188"
    by (simp add: ex188_peek next3_sync_def ex188_nth)
  show ?thesis
    using DetectPacketSize_found [OF w tf _ f n, of False 0] n3 by simp
qed

subsection \<open>Seeking and the last clock reference\<close>

lemma SeekToPCR_fail:
  assumes "SeekToPCR env d i_pos = Inr (rc, d')" "rc \<noteq> VLC_SUCCESS"
  shows "i_current_pcr d' = i_current_pcr d"
    and "stream_wf (strm d) \<Longrightarrow> strm d' = strm d"
proof -
  show "i_current_pcr d' = i_current_pcr d"
    using assms by (cases rule: SeekToPCR_cases) simp_all
  assume wf: "stream_wf (strm d)"
  show "strm d' = strm d"
    using assms(1)
  proof (cases rule: SeekToPCR_cases)
    case (nopcr st i_pcr st' lg st'')
    have "s_data st' = s_data (strm d)"
      using nopcr stream_Seek_Some [of "strm d" _ st]
        SeekToPCR_loop_frame [of env _ _ _ _ st "[]" i_pcr st' lg] by auto
    then have "stream_Seek st' (stream_Tell (strm d)) = Some (strm d)"
      using wf by (intro stream_Seek_back) (simp_all add: stream_wf_def)
    then show ?thesis using nopcr by auto
  next
    case (found st i_pcr st' lg)
    then show ?thesis using assms(2) by simp
  qed simp_all
qed

lemma SeekToPCR_total:
  assumes "stream_wf (strm d)"
  shows "\<exists>rc d'. SeekToPCR env d i_pos = Inr (rc, d')"
proof (cases "i_pos < 0")
  case True
  then show ?thesis by (simp add: SeekToPCR_def Let_def)
next
  case False
  let ?l = "stream_Size (strm d) - int (i_packet_size d)"
  show ?thesis
  proof (cases "stream_Seek (strm d) (if i_pos > ?l then ?l else i_pos)")
    case None
    then show ?thesis using False by (simp add: SeekToPCR_def Let_def)
  next
    case (Some st)
    obtain i_pcr st' lg where l: "SeekToPCR_loop env (i_packet_size d) (i_packet_header_size d) (i_pid_ref_pcr d)
          ?l st [] = (i_pcr, st', lg)"
      by (cases "SeekToPCR_loop env (i_packet_size d) (i_packet_header_size d) (i_pid_ref_pcr d) ?l st []") auto
    have "s_data st' = s_data (strm d)"
      using stream_Seek_Some [OF Some] SeekToPCR_loop_frame [OF l] by auto
    then have "stream_Seek st' (stream_Tell (strm d)) = Some (strm d)"
      using assms by (intro stream_Seek_back) (simp_all add: stream_wf_def)
    then show ?thesis using False Some l by (simp add: SeekToPCR_def Let_def)
  qed
qed



lemma GetLastPCR_loop_inv:
  "stream_wf (strm d) \<Longrightarrow>
   \<exists>d'. GetLastPCR_loop env d i_pos = Inr d' \<and> s_data (strm d') = s_data (strm d)
      \<and> i_first_pcr d' = i_first_pcr d \<and> i_packet_size d' = i_packet_size d
      \<and> b_force_seek_per_percent d' = b_force_seek_per_percent d"
proof (induction env d i_pos rule: GetLastPCR_loop.induct)
  case (1 env d i_pos)
  show ?case
  proof (cases "object_alive env")
    case False
    then show ?thesis by (subst GetLastPCR_loop.simps) simp
  next
    case True
    obtain rc d1 where s: "SeekToPCR env d i_pos = Inr (rc, d1)"
      using SeekToPCR_total [OF "1.prems"] by blast
    note k = SeekToPCR_keeps [OF s]
    let ?d2 = "d1\<lparr>i_last_pcr := AdjustPCRWrapAround d1 (i_current_pcr d1)\<rparr>"
    show ?thesis
    proof (cases "rc \<noteq> VLC_SUCCESS")
      case fail: True
      then have "GetLastPCR_loop env d i_pos = Inr d1"
        using True s by (subst GetLastPCR_loop.simps) simp
      then show ?thesis using k by simp
    next
      case ok: False
      then have wf2: "stream_wf (strm ?d2)" using SeekToPCR_ok(4) [of env d i_pos d1] s by simp
      show ?thesis
      proof (cases "stream_Tell (strm ?d2) \<ge> stream_Size (strm ?d2) - int (i_packet_size ?d2)")
        case stop: True
        have "GetLastPCR_loop env d i_pos = Inr ?d2"
          using True s ok stop by (subst GetLastPCR_loop.simps) (simp add: Let_def)
        then show ?thesis using k by simp
      next
        case go: False
        have e: "GetLastPCR_loop env d i_pos = GetLastPCR_loop env ?d2 (stream_Tell (strm ?d2))"
          using True s ok go by (subst GetLastPCR_loop.simps) (simp add: Let_def)
        have "\<exists>d'. GetLastPCR_loop env ?d2 (stream_Tell (strm ?d2)) = Inr d'
            \<and> s_data (strm d') = s_data (strm ?d2)
            \<and> i_first_pcr d' = i_first_pcr ?d2 \<and> i_packet_size d' = i_packet_size ?d2
            \<and> b_force_seek_per_percent d' = b_force_seek_per_percent ?d2"
          using True s ok go wf2
          by (intro "1.IH" [of "(rc, d1)" rc d1 ?d2 "stream_Tell (strm ?d2)"
                "stream_Size (strm ?d2) - int (i_packet_size ?d2)"]) simp_all
        then show ?thesis using e k by auto
      qed
    qed
  qed
qed



lemma c_div_pos: "0 \<le> a \<Longrightarrow> 0 < b \<Longrightarrow> c_div a b = a div b"
  by (cases "a = 0") (simp_all add: c_div_def)

lemma c_div_neg: "a \<le> 0 \<Longrightarrow> 0 < b \<Longrightarrow> c_div a b \<le> 0"
  by (cases "a = 0") (simp_all add: c_div_def mult_le_0_iff pos_imp_zdiv_nonneg_iff)

lemma GetLastPCR_rate_eq:
  "GetLastPCR_rate d =
     (if (if i_last_pcr d \<le> i_first_pcr d then 0
          else (i_last_pcr d - i_first_pcr d) * 100 div 9 div 1000) = 0 then 0
      else stream_Size (strm d) * 8 * 1000 div
           (if i_last_pcr d \<le> i_first_pcr d then 0
            else (i_last_pcr d - i_first_pcr d) * 100 div 9 div 1000))"
proof (cases "i_last_pcr d \<le> i_first_pcr d")
  case True
  then have "(i_last_pcr d - i_first_pcr d) * 100 \<le> 0"
    by simp
  then have "c_div ((i_last_pcr d - i_first_pcr d) * 100) 9 \<le> 0"
    by (rule c_div_neg) simp
  then have "c_div (c_div ((i_last_pcr d - i_first_pcr d) * 100) 9) 1000 \<le> 0"
    by (rule c_div_neg) simp
  then show ?thesis
    using True by (simp add: GetLastPCR_rate_def Let_def)
next
  case False
  let ?x = "(i_last_pcr d - i_first_pcr d) * 100"
  have x: "0 \<le> ?x" using False by simp
  have a: "c_div ?x 9 = ?x div 9"
    using x by (rule c_div_pos) simp
  have "0 \<le> ?x div 9"
    using x by (simp add: pos_imp_zdiv_nonneg_iff)
  then have b: "c_div (?x div 9) 1000 = ?x div 9 div 1000"
    by (rule c_div_pos) simp
  have m: "0 \<le> ?x div 9 div 1000"
    using x by (simp add: pos_imp_zdiv_nonneg_iff)
  have sz: "0 \<le> stream_Size (strm d) * 1000 * 8"
    by (simp add: stream_Size_def)
  have c: "0 < ?x div 9 div 1000 \<Longrightarrow>
      c_div (stream_Size (strm d) * 1000 * 8) (?x div 9 div 1000)
        = stream_Size (strm d) * 1000 * 8 div (?x div 9 div 1000)"
    using sz by (rule c_div_pos)
  have sz0: "\<not> stream_Size (strm d) < 0"
    by (simp add: stream_Size_def)
  show ?thesis
  proof (cases "?x div 9 div 1000 = 0")
    case True
    show ?thesis
      unfolding GetLastPCR_rate_def Let_def a b True using False by simp
  next
    case nz: False
    then have mp: "0 < ?x div 9 div 1000" using m by simp
    show ?thesis
      unfolding GetLastPCR_rate_def Let_def a b c [OF mp] using False mp sz0 by simp
  qed
qed

text \<open>C9. On a well-formed stream and with a positive packet size, \<^verbatim>\<open>GetLastPCR\<close> returns.
  Let \<open>d1\<close> be the state its probing loop ends in. The implied bitrate is the size of the stream
  in bits over the time from the first clock reference to the last one of \<open>d1\<close>: that time in
  milliseconds is \<open>(last - first) * 100 / 9 / 1000\<close>, each division rounded down (0 when the last
  reference is not above the first), and the rate is \<open>size * 8 * 1000\<close> divided by it, rounded
  down (0 when the time is 0). When \<open>d1\<close> holds a last clock reference (a value from 0 on) and
  the rate is below 500000 bit/s or above 55000000 bit/s, the last reference is reset to -1, so
  that \<^verbatim>\<open>Open\<close> then forces seeking by byte offset; otherwise it is kept. In every case the
  stream (its position included) and the current clock reference are those from before the
  call, and the first reference and the seek flag are untouched.\<close>

theorem GetLastPCR_rate_check_restores:
  assumes wf: "stream_wf (strm d)" and pk: "0 < i_packet_size d"
  shows "\<exists>d1 d' msec rate. GetLastPCR_loop env d (GetLastPCR_start d) = Inr d1
     \<and> GetLastPCR env d = Inr d'
     \<and> msec = (if i_last_pcr d1 \<le> i_first_pcr d then 0
               else (i_last_pcr d1 - i_first_pcr d) * 100 div 9 div 1000)
     \<and> rate = (if msec = 0 then 0 else stream_Size (strm d) * 8 * 1000 div msec)
     \<and> i_last_pcr d' =
          (if 0 \<le> i_last_pcr d1 \<and> (rate < 500000 \<or> 55000000 < rate) then -1
           else i_last_pcr d1)
     \<and> b_force_seek_per_percent (Open_check_pcrs d') =
          (i_first_pcr d < 0 \<or> i_last_pcr d' < 0 \<or> b_force_seek_per_percent d)
     \<and> strm d' = strm d \<and> i_current_pcr d' = i_current_pcr d"
proof -
  obtain d1 where l: "GetLastPCR_loop env d (GetLastPCR_start d) = Inr d1"
    and k: "s_data (strm d1) = s_data (strm d)" and f: "i_first_pcr d1 = i_first_pcr d"
    and fs: "b_force_seek_per_percent d1 = b_force_seek_per_percent d"
    using GetLastPCR_loop_inv [OF wf] by blast
  define msec where "msec = (if i_last_pcr d1 \<le> i_first_pcr d then 0
               else (i_last_pcr d1 - i_first_pcr d) * 100 div 9 div 1000)"
  define rate where "rate = (if msec = 0 then 0 else stream_Size (strm d) * 8 * 1000 div msec)"
  have sz: "stream_Size (strm d1) = stream_Size (strm d)"
    using k by (simp add: stream_Size_def)
  have r: "GetLastPCR_rate d1 = rate"
    unfolding GetLastPCR_rate_eq rate_def msec_def f sz by simp
  define d2 where "d2 = (if i_last_pcr d1 \<ge> 0
                                 then let i_rate = GetLastPCR_rate d1
                                      in if i_rate < TS_SUPPOSED_MINRATE \<or> i_rate > TS_SUPPOSED_MAXRATE
                                         then (msg_log Dbg
                                                 ''calculated bitrate (%lldbit/s) is too low or too high. min bitrate (%lldbit/s) max bitrate (%lldbit/s)''
                                                 [i_rate, TS_SUPPOSED_MINRATE, TS_SUPPOSED_MAXRATE] d1)
                                                \<lparr>i_last_pcr := -1\<rparr>
                                         else d1
                                 else d1)"
  have d2s: "strm d2 = strm d1" "i_first_pcr d2 = i_first_pcr d"
    "b_force_seek_per_percent d2 = b_force_seek_per_percent d"
    using f fs by (simp_all add: d2_def Let_def msg_log_def)
  have d2l: "i_last_pcr d2 = (if 0 \<le> i_last_pcr d1 \<and> (rate < 500000 \<or> 55000000 < rate)
           then -1 else i_last_pcr d1)"
    unfolding r [symmetric]
    by (simp add: d2_def Let_def msg_log_def TS_SUPPOSED_MINRATE_def TS_SUPPOSED_MAXRATE_def)
  have skb: "stream_Seek (strm d2) (stream_Tell (strm d)) = Some (strm d)"
    unfolding d2s using wf k by (intro stream_Seek_back) (simp_all add: stream_wf_def)
  have nr: "(GetLastPCR_start d < 0 \<and> GetLastPCR_start d \<ge> stream_Size (strm d)) = False"
    by (simp add: stream_Size_def)
  have G: "GetLastPCR env d = Inr (d2\<lparr>strm := strm d, i_current_pcr := i_current_pcr d\<rparr>)"
    unfolding GetLastPCR_def Let_def nr using pk l skb
    by (simp add: d2_def [symmetric, unfolded Let_def])
  have o: "b_force_seek_per_percent (Open_check_pcrs (d2\<lparr>strm := strm d, i_current_pcr := i_current_pcr d\<rparr>))
      = (i_first_pcr d < 0 \<or> i_last_pcr d2 < 0 \<or> b_force_seek_per_percent d)"
    using d2s by (simp add: Open_check_pcrs_def msg_log_def)
  show ?thesis
    using l G d2l o msec_def rate_def by simp
qed








subsection \<open>The probe on a stream of 4501 packets\<close>

lemma pcr_pkt_len: "length (pcr_pkt b7 b9) = 188"
  by (simp add: pcr_pkt_def)

lemma null_pkt_len: "length null_pkt = 188"
  by (simp add: null_pkt_def)

lemma concat_replicate_len: "length (concat (replicate m xs)) = m * length xs"
  by (induction m) simp_all

lemma probe_data_len: "length (probe_data b7 b9) = 846188"
  by (simp add: probe_data_def pcr_pkt_len null_pkt_len concat_replicate_len)

lemma take_drop_replicate:
  "j < m \<Longrightarrow> take (length xs) (drop (j * length xs) (concat (replicate m xs))) = xs"
proof (induction m arbitrary: j)
  case 0
  then show ?case by simp
next
  case (Suc m)
  show ?case
  proof (cases j)
    case 0
    then show ?thesis by simp
  next
    case (Suc i)
    then have "i < m" using Suc.prems by simp
    then show ?thesis
      using Suc.IH [of i] Suc by simp
  qed
qed

lemma probe_data_take:
  "take 188 (drop 0 (probe_data b7 b9)) = pcr_pkt 0 0"
  "take 188 (drop 188 (probe_data b7 b9)) = pcr_pkt b7 b9"
  "j < 4499 \<Longrightarrow> take 188 (drop (376 + j * 188) (probe_data b7 b9)) = null_pkt"
proof -
  show "take 188 (drop 0 (probe_data b7 b9)) = pcr_pkt 0 0"
    by (simp add: probe_data_def pcr_pkt_len)
  show "take 188 (drop 188 (probe_data b7 b9)) = pcr_pkt b7 b9"
    by (simp add: probe_data_def pcr_pkt_len)
  assume j: "j < 4499"
  have "drop (376 + j * 188) (probe_data b7 b9) = drop (j * 188) (concat (replicate 4499 null_pkt))"
    by (simp add: probe_data_def pcr_pkt_len)
  then show "take 188 (drop (376 + j * 188) (probe_data b7 b9)) = null_pkt"
    using take_drop_replicate [OF j, of null_pkt] by (simp add: null_pkt_len)
qed

lemma read_packet_sync:
  assumes "take n (drop (s_pos st) (s_data st)) = p" and "p \<noteq> []" and "pkt_byte env p 0 = 0x47"
  shows "read_packet env n 0 st = (Some p, st\<lparr>s_pos := s_pos st + length p\<rparr>, [])"
  using assms by (simp add: read_packet_def stream_Block_def stream_Peek_def Let_def)

lemma pkt_heads:
  "pkt_byte env (pcr_pkt b7 b9) 0 = 0x47" "pkt_byte env null_pkt 0 = 0x47"
  "PIDGet env (pcr_pkt b7 b9) = 100" "PIDGet env null_pkt \<noteq> 100"
  "GetPCR env (pcr_pkt b7 b9) = push_bit 17 (uint b7) OR push_bit 1 (uint b9)"
  by (simp_all add: pkt_byte_def pcr_pkt_def null_pkt_def PIDGet_def GetPCR_def)


lemma pkt_ne: "null_pkt \<noteq> []" "pcr_pkt b7 b9 \<noteq> []"
  by (simp_all add: null_pkt_def pcr_pkt_def)

lemma probe_scan:
  assumes "object_alive env"
  shows "s_data st = probe_data b7 b9 \<Longrightarrow> s_pos st = 376 + j * 188 \<Longrightarrow> j < 4498 \<Longrightarrow>
     SeekToPCR_loop env 188 0 100 846000 st lg = (-1, st\<lparr>s_pos := 846000\<rparr>, lg)"
proof (induction n \<equiv> "4497 - j" arbitrary: j st lg)
  case 0
  then have j: "j = 4497" by simp
  have r: "read_packet env 188 0 st = (Some null_pkt, st\<lparr>s_pos := s_pos st + length null_pkt\<rparr>, [])"
    using probe_data_take(3) [of j b7 b9] 0 
    by (intro read_packet_sync) (simp_all add: pkt_heads pkt_ne)
  show ?case
    using assms 0(3) j
    by (subst SeekToPCR_loop.simps) (simp add: r pkt_heads null_pkt_len stream_Tell_def)
next
  case (Suc n)
  then have j: "j < 4497" by simp
  have r: "read_packet env 188 0 st = (Some null_pkt, st\<lparr>s_pos := s_pos st + length null_pkt\<rparr>, [])"
    using probe_data_take(3) [of j b7 b9] Suc 
    by (intro read_packet_sync) (simp_all add: pkt_heads pkt_ne)
  let ?st = "st\<lparr>s_pos := 564 + j * 188\<rparr>"
  have "SeekToPCR_loop env 188 0 100 846000 ?st lg = (-1, ?st\<lparr>s_pos := 846000\<rparr>, lg)"
    using Suc.hyps(2) Suc.prems j
    by (intro Suc.hyps(1) [of "Suc j"]) simp_all
  then have n: "SeekToPCR_loop env 188 0 100 846000 ?st lg = (-1, st\<lparr>s_pos := 846000\<rparr>, lg)"
    by simp
  show ?case
    using assms Suc.prems(2) j
    by (subst SeekToPCR_loop.simps) (simp add: r pkt_heads null_pkt_len stream_Tell_def n)
qed


lemma env_ex_alive: "object_alive env_ex"
  by (simp add: env_ex_def)

lemma probe_Seek0:
  assumes "probe_inv d b7 b9"
  shows "SeekToPCR env_ex d 0 =
     Inr (VLC_SUCCESS, d\<lparr>strm := (strm d)\<lparr>s_pos := 188\<rparr>, msgs := msgs d @ [], i_current_pcr := 0\<rparr>)"
proof -
  let ?st = "(strm d)\<lparr>s_pos := 0\<rparr>"
  have sk: "stream_Seek (strm d) 0 = Some ?st"
    by (simp add: stream_Seek_def stream_Size_def)
  have r: "read_packet env_ex 188 0 ?st = (Some (pcr_pkt 0 0), ?st\<lparr>s_pos := s_pos ?st + length (pcr_pkt 0 0)\<rparr>, [])"
    using probe_data_take(1) [of b7 b9] assms
    by (intro read_packet_sync) (simp_all add: pkt_heads pkt_ne probe_inv_def)
  have l: "SeekToPCR_loop env_ex 188 0 100 846000 ?st [] = (0, (strm d)\<lparr>s_pos := 188\<rparr>, [])"
    by (subst SeekToPCR_loop.simps) (simp add: env_ex_alive r pkt_heads pcr_pkt_len)
  show ?thesis
    using assms unfolding SeekToPCR_def Let_def
    by (simp add: probe_inv_def stream_Size_def probe_data_len sk l VLC_SUCCESS_def)
qed

lemma probe_Seek1:
  assumes "probe_inv d b7 b9"
  shows "SeekToPCR env_ex d 188 =
     Inr (VLC_SUCCESS, d\<lparr>strm := (strm d)\<lparr>s_pos := 376\<rparr>, msgs := msgs d @ [],
                          i_current_pcr := push_bit 17 (uint b7) OR push_bit 1 (uint b9)\<rparr>)"
proof -
  let ?st = "(strm d)\<lparr>s_pos := 188\<rparr>"
  have sk: "stream_Seek (strm d) 188 = Some ?st"
    using assms by (simp add: stream_Seek_def stream_Size_def probe_inv_def probe_data_len)
  have r: "read_packet env_ex 188 0 ?st = (Some (pcr_pkt b7 b9), ?st\<lparr>s_pos := s_pos ?st + length (pcr_pkt b7 b9)\<rparr>, [])"
    using probe_data_take(2) [of b7 b9] assms
    by (intro read_packet_sync) (simp_all add: pkt_heads pkt_ne probe_inv_def)
  have v: "0 \<le> push_bit 17 (uint b7) OR push_bit 1 (uint b9)"
    by simp
  have l: "SeekToPCR_loop env_ex 188 0 100 846000 ?st [] =
      (push_bit 17 (uint b7) OR push_bit 1 (uint b9), (strm d)\<lparr>s_pos := 376\<rparr>, [])"
    using v by (subst SeekToPCR_loop.simps) (simp add: env_ex_alive r pkt_heads pcr_pkt_len)
  show ?thesis
    using assms v unfolding SeekToPCR_def Let_def
    by (simp add: probe_inv_def stream_Size_def probe_data_len sk l VLC_SUCCESS_def)
qed

lemma probe_Seek2:
  assumes "probe_inv d b7 b9" and "s_pos (strm d) = 376"
  shows "SeekToPCR env_ex d 376 =
     Inr (VLC_EGENERIC, d\<lparr>strm := (strm d)\<lparr>s_pos := 376\<rparr>, msgs := msgs d @ []\<rparr>)"
proof -
  let ?st = "(strm d)\<lparr>s_pos := 376\<rparr>"
  have sk: "stream_Seek (strm d) 376 = Some ?st"
    using assms by (simp add: stream_Seek_def stream_Size_def probe_inv_def probe_data_len)
  have "SeekToPCR_loop env_ex 188 0 100 846000 ?st [] = (-1, ?st\<lparr>s_pos := 846000\<rparr>, [])"
    using assms by (intro probe_scan [of env_ex _ b7 b9 0]) (simp_all add: env_ex_alive probe_inv_def)
  then have l: "SeekToPCR_loop env_ex 188 0 100 846000 ?st [] = (-1, (strm d)\<lparr>s_pos := 846000\<rparr>, [])"
    by simp
  have bk: "stream_Seek ((strm d)\<lparr>s_pos := 846000\<rparr>) 376 = Some ?st"
    using assms by (simp add: stream_Seek_def stream_Size_def probe_inv_def probe_data_len)
  show ?thesis
    using assms unfolding SeekToPCR_def Let_def
    by (simp add: probe_inv_def stream_Size_def stream_Tell_def probe_data_len sk l bk)
qed

lemma probe_Adjust:
  assumes "probe_inv d b7 b9" and "0 \<le> x"
  shows "AdjustPCRWrapAround d x = x"
proof -
  have n: "i_pcrs_num d = 10" and pc: "p_pcrs d = replicate 10 0" and pp: "p_pos d = replicate 10 0"
    using assms(1) by (simp_all add: probe_inv_def)
  have "wrap_loop d (stream_Tell (strm d)) 1 0 =
      (10, 0 + 0x1FFFFFFFF * int (length (filter (\<lambda>k. p_pcrs d ! (k - 1) > p_pcrs d ! k) [1..<10])))"
    by (rule wrap_loop_stop) (simp_all add: n pp stream_Tell_def)
  moreover have "filter (\<lambda>k. p_pcrs d ! (k - 1) > p_pcrs d ! k) [1..<10] = []"
    by (auto simp: filter_empty_conv pc)
  ultimately have w: "wrap_loop d (stream_Tell (strm d)) 1 0 = (10, 0)"
    by simp
  show ?thesis
    using assms(2) unfolding AdjustPCRWrapAround_def Let_def w by (simp add: pc)
qed

lemma probe_loop3:
  assumes "probe_inv d b7 b9" and "s_pos (strm d) = 376"
  shows "GetLastPCR_loop env_ex d 376 =
     Inr (d\<lparr>strm := (strm d)\<lparr>s_pos := 376\<rparr>, msgs := msgs d @ []\<rparr>)"
  by (subst GetLastPCR_loop.simps)
     (simp add: env_ex_alive probe_Seek2 [OF assms] VLC_EGENERIC_def VLC_SUCCESS_def)

lemma probe_loop2:
  assumes "probe_inv d b7 b9"
  shows "\<exists>d'. GetLastPCR_loop env_ex d 188 = Inr d'
     \<and> i_last_pcr d' = push_bit 17 (uint b7) OR push_bit 1 (uint b9)"
proof -
  let ?v = "push_bit 17 (uint b7) OR push_bit 1 (uint b9)"
  let ?d1 = "d\<lparr>strm := (strm d)\<lparr>s_pos := 376\<rparr>, msgs := msgs d @ [], i_current_pcr := ?v\<rparr>"
  let ?d2 = "?d1\<lparr>i_last_pcr := ?v\<rparr>"
  have i1: "probe_inv ?d1 b7 b9" and i2: "probe_inv ?d2 b7 b9"
    using assms by (simp_all add: probe_inv_def)
  have v: "0 \<le> ?v" by simp
  have a: "AdjustPCRWrapAround ?d1 (i_current_pcr ?d1) = ?v"
    using probe_Adjust [OF i1 v] by simp
  have p: "s_pos (strm ?d2) = 376" by simp
  have sz: "stream_Size (strm ?d2) - int (i_packet_size ?d2) = 846000"
    using assms by (simp add: probe_inv_def stream_Size_def probe_data_len)
  have "GetLastPCR_loop env_ex d 188 = GetLastPCR_loop env_ex ?d2 376"
    using assms [unfolded probe_inv_def]
    by (subst GetLastPCR_loop.simps)
       (simp add: env_ex_alive probe_Seek1 [OF assms] Let_def stream_Tell_def stream_Size_def
          probe_data_len probe_Adjust [where ?b7.0 = b7 and ?b9.0 = b9] probe_inv_def)
  then show ?thesis
    unfolding probe_loop3 [OF i2 p] by simp
qed

lemma probe_loop1:
  assumes "probe_inv d b7 b9"
  shows "\<exists>d'. GetLastPCR_loop env_ex d 0 = Inr d'
     \<and> i_last_pcr d' = push_bit 17 (uint b7) OR push_bit 1 (uint b9)"
proof -
  let ?d1 = "d\<lparr>strm := (strm d)\<lparr>s_pos := 188\<rparr>, msgs := msgs d @ [], i_current_pcr := 0\<rparr>"
  let ?d2 = "?d1\<lparr>i_last_pcr := 0\<rparr>"
  have i1: "probe_inv ?d1 b7 b9" and i2: "probe_inv ?d2 b7 b9"
    using assms by (simp_all add: probe_inv_def)
  have a: "AdjustPCRWrapAround ?d1 (i_current_pcr ?d1) = 0"
    using probe_Adjust [OF i1, of 0] by simp
  have sz: "stream_Size (strm ?d2) - int (i_packet_size ?d2) = 846000"
    using assms by (simp add: probe_inv_def stream_Size_def probe_data_len)
  have "GetLastPCR_loop env_ex d 0 = GetLastPCR_loop env_ex ?d2 188"
    using assms [unfolded probe_inv_def]
    by (subst GetLastPCR_loop.simps)
       (simp add: env_ex_alive probe_Seek0 [OF assms] Let_def stream_Tell_def stream_Size_def
          probe_data_len probe_Adjust [where ?b7.0 = b7 and ?b9.0 = b9] probe_inv_def)
  then show ?thesis
    using probe_loop2 [OF i2] by simp
qed

lemma probe_ex_inv: "probe_inv (probe_ex b7 b9) b7 b9"
  by (simp add: probe_inv_def probe_ex_def p_sys_zero_def)

lemma probe_ex_start: "GetLastPCR_start (probe_ex b7 b9) = 0"
  by (simp add: GetLastPCR_start_def Let_def probe_ex_def p_sys_zero_def stream_Tell_def
      stream_Size_def probe_data_len c_mod_def c_div_def)


lemma probe_ex_fields:
  "stream_wf (strm (probe_ex b7 b9))" "0 < i_packet_size (probe_ex b7 b9)"
  "i_first_pcr (probe_ex b7 b9) = 0" "i_current_pcr (probe_ex b7 b9) = 0"
  "b_force_seek_per_percent (probe_ex b7 b9) = False"
  "stream_Size (strm (probe_ex b7 b9)) = 846188"
  by (simp_all add: probe_ex_def p_sys_zero_def stream_wf_def stream_Size_def probe_data_len)

text \<open>Two streams of 4501 packets. In both the probe reads the clock reference of the second
  packet and then runs through the null packets to the end. With the references 0 and 655360
  the 846188 bytes imply 929749 bit/s, and the last reference is kept; with 0 and 2 the time is
  0 ms, the rate 0, and the last reference is reset.\<close>

theorem GetLastPCR_rate_check_restores_witness:
  "stream_wf (strm (probe_ex 5 0)) \<and> 0 < i_packet_size (probe_ex 5 0)
   \<and> (\<exists>d'. GetLastPCR env_ex (probe_ex 5 0) = Inr d' \<and> i_last_pcr d' = 655360
         \<and> \<not> b_force_seek_per_percent (Open_check_pcrs d')
         \<and> strm d' = strm (probe_ex 5 0) \<and> i_current_pcr d' = 0)
   \<and> stream_wf (strm (probe_ex 0 1)) \<and> 0 < i_packet_size (probe_ex 0 1)
   \<and> (\<exists>d'. GetLastPCR env_ex (probe_ex 0 1) = Inr d' \<and> i_last_pcr d' = -1
         \<and> b_force_seek_per_percent (Open_check_pcrs d')
         \<and> strm d' = strm (probe_ex 0 1) \<and> i_current_pcr d' = 0)"
proof -
  have kept: "\<exists>d'. GetLastPCR env_ex (probe_ex 5 0) = Inr d' \<and> i_last_pcr d' = 655360
         \<and> \<not> b_force_seek_per_percent (Open_check_pcrs d')
         \<and> strm d' = strm (probe_ex 5 0) \<and> i_current_pcr d' = 0"
  proof -
    obtain D where D: "GetLastPCR_loop env_ex (probe_ex 5 0) (GetLastPCR_start (probe_ex 5 0)) = Inr D"
      and v: "i_last_pcr D = 655360"
      using probe_loop1 [OF probe_ex_inv, of 5 0] unfolding probe_ex_start by auto
    obtain d1 d' msec rate where
      l: "GetLastPCR_loop env_ex (probe_ex 5 0) (GetLastPCR_start (probe_ex 5 0)) = Inr d1"
      and g: "GetLastPCR env_ex (probe_ex 5 0) = Inr d'"
      and m: "msec = (if i_last_pcr d1 \<le> i_first_pcr (probe_ex 5 0) then 0
               else (i_last_pcr d1 - i_first_pcr (probe_ex 5 0)) * 100 div 9 div 1000)"
      and r: "rate = (if msec = 0 then 0 else stream_Size (strm (probe_ex 5 0)) * 8 * 1000 div msec)"
      and c: "i_last_pcr d' =
          (if 0 \<le> i_last_pcr d1 \<and> (rate < 500000 \<or> 55000000 < rate) then -1
           else i_last_pcr d1)"
      and o: "b_force_seek_per_percent (Open_check_pcrs d') =
          (i_first_pcr (probe_ex 5 0) < 0 \<or> i_last_pcr d' < 0
           \<or> b_force_seek_per_percent (probe_ex 5 0))"
      and s: "strm d' = strm (probe_ex 5 0)" "i_current_pcr d' = i_current_pcr (probe_ex 5 0)"
      using GetLastPCR_rate_check_restores [OF probe_ex_fields(1,2) [of 5 0], where env = env_ex] by blast
    have e: "i_last_pcr d1 = 655360" using l D v by simp
    have "msec = 7281" unfolding m e probe_ex_fields by simp
    then have "rate = 929749" unfolding r probe_ex_fields by simp
    then have "i_last_pcr d' = 655360" unfolding c e by simp
    then show ?thesis
      using g o s by (simp add: probe_ex_fields)
  qed
  have reset: "\<exists>d'. GetLastPCR env_ex (probe_ex 0 1) = Inr d' \<and> i_last_pcr d' = -1
         \<and> b_force_seek_per_percent (Open_check_pcrs d')
         \<and> strm d' = strm (probe_ex 0 1) \<and> i_current_pcr d' = 0"
  proof -
    obtain D where D: "GetLastPCR_loop env_ex (probe_ex 0 1) (GetLastPCR_start (probe_ex 0 1)) = Inr D"
      and v: "i_last_pcr D = 2"
      using probe_loop1 [OF probe_ex_inv, of 0 1] unfolding probe_ex_start by auto
    obtain d1 d' msec rate where
      l: "GetLastPCR_loop env_ex (probe_ex 0 1) (GetLastPCR_start (probe_ex 0 1)) = Inr d1"
      and g: "GetLastPCR env_ex (probe_ex 0 1) = Inr d'"
      and m: "msec = (if i_last_pcr d1 \<le> i_first_pcr (probe_ex 0 1) then 0
               else (i_last_pcr d1 - i_first_pcr (probe_ex 0 1)) * 100 div 9 div 1000)"
      and r: "rate = (if msec = 0 then 0 else stream_Size (strm (probe_ex 0 1)) * 8 * 1000 div msec)"
      and c: "i_last_pcr d' =
          (if 0 \<le> i_last_pcr d1 \<and> (rate < 500000 \<or> 55000000 < rate) then -1
           else i_last_pcr d1)"
      and o: "b_force_seek_per_percent (Open_check_pcrs d') =
          (i_first_pcr (probe_ex 0 1) < 0 \<or> i_last_pcr d' < 0
           \<or> b_force_seek_per_percent (probe_ex 0 1))"
      and s: "strm d' = strm (probe_ex 0 1)" "i_current_pcr d' = i_current_pcr (probe_ex 0 1)"
      using GetLastPCR_rate_check_restores [OF probe_ex_fields(1,2) [of 0 1], where env = env_ex] by blast
    have e: "i_last_pcr d1 = 2" using l D v by simp
    have "msec = 0" unfolding m e probe_ex_fields by simp
    then have "rate = 0" unfolding r by simp
    then have "i_last_pcr d' = -1" unfolding c e by simp
    then show ?thesis
      using g o s by (simp add: probe_ex_fields)
  qed
  show ?thesis
    using kept reset probe_ex_fields(1,2) by blast
qed

subsection \<open>Continuity counter\<close>

lemma chain_taint_Nil: "chain_taint [] = []"
  by (simp add: chain_taint_def)

lemma and_15_mod: "(x :: int) AND 15 = x mod 16"
proof -
  have "x AND mask 4 = x mod 2 ^ 4"
    by (simp only: take_bit_eq_mask [symmetric] take_bit_eq_mod)
  then show ?thesis by (simp add: mask_eq_exp_minus_1)
qed

lemma cc_range: "0 \<le> uint ((w :: byte) AND 0x0f) \<and> uint (w AND 0x0f) < 16"
proof -
  have "uint (w AND 0x0f) = uint w AND 15"
    by (simp add: uint_and)
  then show ?thesis
    by (simp add: and_15_mod)
qed

lemma GatherData_buffer_cong:
  "csa d' = csa d \<Longrightarrow> i_csa_pkt_size d' = i_csa_pkt_size d \<Longrightarrow>
     GatherData_buffer env d' p_bk = GatherData_buffer env d p_bk"
  by (simp add: GatherData_buffer_def)

text \<open>C1 (as amended). Let a packet with payload and without transport error indicator reach
  \<^verbatim>\<open>GatherData\<close> for a PID whose counter is seeded, with no discontinuity indicator in its
  adaptation field, and let its counter not be the stored one plus 1 modulo 16. On a mismatch (an
  increment other than 0) \<^verbatim>\<open>GatherData\<close> logs the mismatch and flags the chain in flight as
  corrupted when the category of the stream is neither video nor audio, while the chain of a
  video or audio stream is left unflagged; on a duplicate (increment 0) it logs nothing and flags
  nothing. In both cases it then goes on exactly as for the packet in sequence: the result is
  that of \<^verbatim>\<open>GatherData\<close> on the state that already holds this message and this chain and whose
  counter is one behind the packet's.\<close>

theorem GatherData_continuity_mismatch:
  assumes e: "es (pid d k) = Some e"
    and seeded: "0 \<le> i_cc (pid d k)" "i_cc (pid d k) < 16"
    and tei: "pkt_byte env (p_buffer p_bk) 1 AND 0x80 = 0"
    and payload: "pkt_byte env (p_buffer p_bk) 3 AND 0x10 \<noteq> 0"
    and nodisc: "\<not> (pkt_byte env (p_buffer p_bk) 3 AND 0x20 \<noteq> 0
                    \<and> GatherData_buffer env d p_bk ! 4 > 0
                    \<and> GatherData_buffer env d p_bk ! 5 AND 0x80 \<noteq> 0)"
    and cc: "cc = uint (pkt_byte env (p_buffer p_bk) 3 AND 0x0f)"
    and diff: "(cc - i_cc (pid d k)) AND 0x0f \<noteq> 1"
  shows "GatherData env d k p_bk =
     GatherData env
       (d\<lparr>pid := (pid d)(k := (pid d k)
               \<lparr>i_cc := (cc - 1) AND 0x0f,
                es := Some (if (cc - i_cc (pid d k)) AND 0x0f = 0 \<or> i_cat (fmt e) = VIDEO_ES
                               \<or> i_cat (fmt e) = AUDIO_ES
                            then e else e\<lparr>p_data := chain_taint (p_data e)\<rparr>)\<rparr>),
          msgs := msgs d @
            (if (cc - i_cc (pid d k)) AND 0x0f = 0 then []
             else [(Warn, ''discontinuity received 0x%x instead of 0x%x (pid=%d)'',
                    [cc, (i_cc (pid d k) + 1) AND 0x0f, i_pid (pid d k)])])\<rparr>)
       k p_bk"
proof -
  let ?pd = "pid d k"
  let ?dup = "(cc - i_cc ?pd) AND 0x0f = 0"
  let ?e = "if ?dup \<or> i_cat (fmt e) = VIDEO_ES \<or> i_cat (fmt e) = AUDIO_ES
            then e else e\<lparr>p_data := chain_taint (p_data e)\<rparr>"
  let ?W = "if ?dup then []
            else [(Warn, ''discontinuity received 0x%x instead of 0x%x (pid=%d)'',
                   [cc, (i_cc ?pd + 1) AND 0x0f, i_pid ?pd])]"
  let ?pd' = "?pd\<lparr>i_cc := (cc - 1) AND 0x0f, es := Some ?e\<rparr>"
  let ?d' = "d\<lparr>pid := (pid d)(k := ?pd'), msgs := msgs d @ ?W\<rparr>"
  let ?p = "GatherData_buffer env d p_bk"
  let ?ad = "pkt_byte env (p_buffer p_bk) 3 AND 0x20 \<noteq> 0"
  let ?skip = "if \<not> ?ad then 4 else 5 + unat (?p ! 4)"
  have r: "0 \<le> cc" "cc < 16"
    using cc_range [of "pkt_byte env (p_buffer p_bk) 3"] cc by simp_all
  have nxt: "(((cc - 1) AND 0x0f) + 1) AND 0x0f = cc"
    using r by (simp add: and_15_mod mod_simps)
  have one: "(cc - ((cc - 1) AND 0x0f)) AND 0x0f = 1"
    using r by (simp add: and_15_mod mod_simps)
  have same: "?dup \<Longrightarrow> i_cc ?pd = cc"
    using r seeded by (simp add: and_15_mod mod_eq_0_iff_dvd) presburger
  have ff: "i_cc ?pd \<noteq> 0xff"
    using seeded by simp
  have buf: "GatherData_buffer env ?d' p_bk = ?p"
    by (rule GatherData_buffer_cong) simp_all
  have chain: "e\<lparr>p_data := chain_taint []\<rparr> = e" if "p_data e = []"
  proof -
    have "e\<lparr>p_data := p_data e\<rparr> = e" by simp
    then show ?thesis unfolding that by (simp add: chain_taint_def)
  qed
  have final: "?pd\<lparr>i_cc := cc, es := Some ?e\<rparr> = (if ?dup then ?pd else
      ?pd\<lparr>i_cc := cc,
           es := Some (if p_data e \<noteq> [] \<and> i_cat (fmt e) \<noteq> VIDEO_ES \<and> i_cat (fmt e) \<noteq> AUDIO_ES
                       then e\<lparr>p_data := chain_taint (p_data e)\<rparr> else e)\<rparr>)"
    using same e by (cases "p_data e = []") (auto simp: chain)
  have nd: "(?ad \<and> ?p ! 4 > 0 \<and> ?p ! 5 AND 0x80 \<noteq> 0) = False"
    using nodisc by simp
  have hl: "GatherData_header ?pd ?p False ?ad True cc = Inr (?pd\<lparr>i_cc := cc, es := Some ?e\<rparr>, ?W, ?skip)"
    unfolding final GatherData_header_def Let_def nd
    using diff ff e
    by (simp add: GatherData_continuity_def Let_def)
  have hr: "GatherData_header ?pd' ?p False ?ad True cc = Inr (?pd\<lparr>i_cc := cc, es := Some ?e\<rparr>, [], ?skip)"
    unfolding GatherData_header_def Let_def nd
    using one nxt
    by (simp add: GatherData_continuity_def Let_def)
  have st: "?d'\<lparr>pid := (pid ?d')(k := ?pd\<lparr>i_cc := cc, es := Some ?e\<rparr>), msgs := msgs ?d' @ []\<rparr>
      = d\<lparr>pid := (pid d)(k := ?pd\<lparr>i_cc := cc, es := Some ?e\<rparr>), msgs := msgs d @ ?W\<rparr>"
    by simp
  have pk: "pid ?d' k = ?pd'"
    by simp
  have l: "GatherData env d k p_bk =
     (case PCRHandle env (d\<lparr>pid := (pid d)(k := ?pd\<lparr>i_cc := cc, es := Some ?e\<rparr>), msgs := msgs d @ ?W\<rparr>) k ?p of
                Inl f \<Rightarrow> Inl f
              | Inr d2 \<Rightarrow>
                  if ?skip \<ge> 188 then Inr (False, d2)
                  else (case es (pid d2 k) of
                          None \<Rightarrow> Inl Null_dereference
                        | Some e \<Rightarrow>
                            if es_id e = None then Inr (False, d2)
                            else GatherData_gather env (GatherData_scrambled d2 k e (pkt_byte env (p_buffer p_bk) 3 AND 0x80 \<noteq> 0)) k
                                   (pkt_byte env (p_buffer p_bk) 1 AND 0x40 \<noteq> 0) (p_bk\<lparr>p_buffer := drop ?skip ?p\<rparr>)))"
    unfolding GatherData_def Let_def cc [symmetric]
    using tei payload by (simp add: hl)
  have rr: "GatherData env ?d' k p_bk =
     (case PCRHandle env (d\<lparr>pid := (pid d)(k := ?pd\<lparr>i_cc := cc, es := Some ?e\<rparr>), msgs := msgs d @ ?W\<rparr>) k ?p of
                Inl f \<Rightarrow> Inl f
              | Inr d2 \<Rightarrow>
                  if ?skip \<ge> 188 then Inr (False, d2)
                  else (case es (pid d2 k) of
                          None \<Rightarrow> Inl Null_dereference
                        | Some e \<Rightarrow>
                            if es_id e = None then Inr (False, d2)
                            else GatherData_gather env (GatherData_scrambled d2 k e (pkt_byte env (p_buffer p_bk) 3 AND 0x80 \<noteq> 0)) k
                                   (pkt_byte env (p_buffer p_bk) 1 AND 0x40 \<noteq> 0) (p_bk\<lparr>p_buffer := drop ?skip ?p\<rparr>)))"
    unfolding GatherData_def Let_def cc [symmetric] buf pk
    using tei payload by (simp only: hr st prod.case sum.case simp_thms if_True if_False)
  show ?thesis
    unfolding l rr ..
qed

lemma fit188_188: "length buf = 188 \<Longrightarrow> fit188 env buf = buf"
  by (simp add: fit188_def)

text \<open>A packet of 188 bytes without error indicator and without adaptation field, when
  nothing is descrambled and no stream is registered yet: the test of the counter, then the
  gathering of the 184 payload bytes.\<close>

lemma GatherData_plain:
  assumes "length buf = 188" and "\<not> csa d" and "i_pmt_es d \<le> 0"
    and "buf ! 1 AND 0x80 = 0" and "buf ! 3 AND 0x20 = 0"
  shows "GatherData env d k (block_new env buf) =
     (case GatherData_continuity (pid d k) (buf ! 3 AND 0x10 \<noteq> 0) (uint (buf ! 3 AND 0x0f)) False of
        Inl f \<Rightarrow> Inl f
      | Inr (pd, lg) \<Rightarrow>
          (case es pd of
             None \<Rightarrow> Inl Null_dereference
           | Some e \<Rightarrow>
               if es_id e = None
               then Inr (False, d\<lparr>pid := (pid d)(k := pd), msgs := msgs d @ lg\<rparr>)
               else GatherData_gather env
                      (GatherData_scrambled (d\<lparr>pid := (pid d)(k := pd), msgs := msgs d @ lg\<rparr>) k e
                         (buf ! 3 AND 0x80 \<noteq> 0))
                      k (buf ! 1 AND 0x40 \<noteq> 0) ((block_new env buf)\<lparr>p_buffer := drop 4 buf\<rparr>)))"
proof -
  have b: "p_buffer (block_new env buf) = buf"
    by (simp add: block_new_def)
  have n: "pkt_byte env buf 1 = buf ! 1" "pkt_byte env buf 3 = buf ! 3"
    using assms(1) by (simp_all add: pkt_byte_def)
  have h: "GatherData_header (pid d k) buf False False (buf ! 3 AND 0x10 \<noteq> 0) (uint (buf ! 3 AND 0x0f)) =
     (case GatherData_continuity (pid d k) (buf ! 3 AND 0x10 \<noteq> 0) (uint (buf ! 3 AND 0x0f)) False of
        Inl f \<Rightarrow> Inl f | Inr (pd, lg) \<Rightarrow> Inr (pd, lg, 4))"
    by (simp add: GatherData_header_def split: sum.splits)
  have pcr: "\<And>d'. i_pmt_es d' = i_pmt_es d \<Longrightarrow> PCRHandle env d' k buf = Inr d'"
    using assms(3) by (simp add: PCRHandle_def)
  show ?thesis
    unfolding GatherData_def GatherData_buffer_def Let_def b n fit188_188 [OF assms(1)]
    using assms(2,4,5)
    by (simp add: h pcr split: sum.splits option.splits)
qed

lemma fit188_pkt_ex: "fit188 env (pkt_ex cc) = pkt_ex cc"
  by (simp add: fit188_def pkt_ex_def)

lemma pkt_ex_nth: "pkt_byte env (pkt_ex cc) 1 = 0" "pkt_byte env (pkt_ex cc) 3 = 0x10 OR cc"
  by (simp_all add: pkt_byte_def pkt_ex_def)

lemma pkt_ex_drop: "drop 4 (pkt_ex cc) = replicate 184 0"
  by (simp add: pkt_ex_def)

lemma video_ex_pid: "pid video_ex 200 =
   pid_ex 200 2 (es_ex VIDEO_ES (VLC_CODEC_MPGV env_ex) [block_new env_ex [0, 0, 1, 0xE0, 0, 0]])"
  by (simp add: video_ex_def)

lemma video_ex_fields: "csa video_ex = False" "i_pmt_es video_ex = 0"
  by (simp_all add: video_ex_def p_sys_zero_def)

lemma pkt_ex_len: "length (pkt_ex cc) = 188"
  by (simp add: pkt_ex_def)

lemma pkt_ex_bytes: "pkt_ex cc ! 1 = 0" "pkt_ex cc ! 3 = 0x10 OR cc"
  by (simp_all add: pkt_ex_def)

text \<open>A video stream with a block in flight and the counter 2 receives a packet with the
  counter 4: the mismatch is logged, and no block of the chain is flagged.\<close>

theorem GatherData_video_counterexample:
  "(case GatherData env_ex video_ex 200 (block_new env_ex (pkt_ex 4)) of
      Inl f \<Rightarrow> None
    | Inr (r, d') \<Rightarrow> Some (r, msgs d', i_cc (pid d' 200),
                           map_option (\<lambda>e. map i_flags (p_data e)) (es (pid d' 200))))
   = Some (False, [(Warn, ''discontinuity received 0x%x instead of 0x%x (pid=%d)'', [4, 3, 200])],
           4, Some [{}, {}])"
proof -
  have p1: "pkt_ex 4 ! 1 AND 0x80 = 0" and p3: "pkt_ex 4 ! 3 AND 0x20 = 0"
    by (simp_all add: pkt_ex_def)
  have q: "(pkt_ex 4 ! 3 AND 0x10 \<noteq> 0) = True" "uint (pkt_ex 4 ! 3 AND 0x0f) = 4"
    "(pkt_ex 4 ! 3 AND 0x80 \<noteq> 0) = False" "(pkt_ex 4 ! 1 AND 0x40 \<noteq> 0) = False"
    by (simp_all add: pkt_ex_def)
  have v: "\<not> csa video_ex" "i_pmt_es video_ex \<le> 0"
    by (simp_all add: video_ex_fields)
  note g = GatherData_plain [OF pkt_ex_len v p1 p3, of env_ex 200, unfolded q pkt_ex_drop]
  have k: "GatherData_continuity (pid video_ex 200) True 4 False =
     Inr ((pid video_ex 200)\<lparr>i_cc := 4\<rparr>,
          [(Warn, ''discontinuity received 0x%x instead of 0x%x (pid=%d)'', [4, 3, 200])])"
    by (simp add: GatherData_continuity_def video_ex_pid pid_ex_def
      pid_zero_def es_ex_def es_format_Init_def block_new_def)
  show ?thesis
    unfolding g k
    by (simp add: video_ex_pid pid_ex_def pid_zero_def es_ex_def GatherData_scrambled_def
        GatherData_gather_def es_append_def GatherData_complete_def es_set_def block_new_def
        video_ex_def p_sys_zero_def)
qed


lemma spu_ex_pid: "pid spu_ex 200 =
   pid_ex 200 2 (es_ex SPU_ES (VLC_CODEC_TELETEXT env_ex) [block_new env_ex [0, 0, 1, 0xBD, 0, 0]])"
  by (simp add: spu_ex_def)

lemma spu_ex_fields: "csa spu_ex = False" "i_pmt_es spu_ex = 0" "msgs spu_ex = []"
  by (simp_all add: spu_ex_def p_sys_zero_def)

text \<open>The teletext stream with a block in flight and the counter 2 receives a packet with
  the counter 4, and one with the counter 2: the first is logged and flags the block, the second
  does neither.\<close>

theorem GatherData_continuity_mismatch_witness:
  "(case GatherData env_ex spu_ex 200 (block_new env_ex (pkt_ex 4)) of
      Inl f \<Rightarrow> None
    | Inr (r, d') \<Rightarrow> Some (r, msgs d', i_cc (pid d' 200),
                           map_option (\<lambda>e. map i_flags (p_data e)) (es (pid d' 200))))
   = Some (False, [(Warn, ''discontinuity received 0x%x instead of 0x%x (pid=%d)'', [4, 3, 200])],
           4, Some [{BLOCK_FLAG_CORRUPTED}, {}])
   \<and> (case GatherData env_ex spu_ex 200 (block_new env_ex (pkt_ex 2)) of
      Inl f \<Rightarrow> None
    | Inr (r, d') \<Rightarrow> Some (r, msgs d', i_cc (pid d' 200),
                           map_option (\<lambda>e. map i_flags (p_data e)) (es (pid d' 200))))
   = Some (False, [], 2, Some [{}, {}])"
proof -
  let ?e = "es_ex SPU_ES (VLC_CODEC_TELETEXT env_ex) [block_new env_ex [0, 0, 1, 0xBD, 0, 0]]"
  have e: "es (pid spu_ex 200) = Some ?e"
    and s: "0 \<le> i_cc (pid spu_ex 200)" "i_cc (pid spu_ex 200) < 16"
    by (simp_all add: spu_ex_pid pid_ex_def)
  have f: "pkt_byte env_ex (p_buffer (block_new env_ex (pkt_ex c))) 1 AND 0x80 = 0" for c
    by (simp add: pkt_byte_def pkt_ex_def block_new_def)
  have p4: "pkt_byte env_ex (p_buffer (block_new env_ex (pkt_ex 4))) 3 AND 0x10 \<noteq> 0"
    "\<not> (pkt_byte env_ex (p_buffer (block_new env_ex (pkt_ex 4))) 3 AND 0x20 \<noteq> 0
        \<and> GatherData_buffer env_ex spu_ex (block_new env_ex (pkt_ex 4)) ! 4 > 0
        \<and> GatherData_buffer env_ex spu_ex (block_new env_ex (pkt_ex 4)) ! 5 AND 0x80 \<noteq> 0)"
    "4 = uint (pkt_byte env_ex (p_buffer (block_new env_ex (pkt_ex 4))) 3 AND 0x0f)"
    by (simp_all add: pkt_byte_def pkt_ex_def block_new_def)
  have p2: "pkt_byte env_ex (p_buffer (block_new env_ex (pkt_ex 2))) 3 AND 0x10 \<noteq> 0"
    "\<not> (pkt_byte env_ex (p_buffer (block_new env_ex (pkt_ex 2))) 3 AND 0x20 \<noteq> 0
        \<and> GatherData_buffer env_ex spu_ex (block_new env_ex (pkt_ex 2)) ! 4 > 0
        \<and> GatherData_buffer env_ex spu_ex (block_new env_ex (pkt_ex 2)) ! 5 AND 0x80 \<noteq> 0)"
    "2 = uint (pkt_byte env_ex (p_buffer (block_new env_ex (pkt_ex 2))) 3 AND 0x0f)"
    by (simp_all add: pkt_byte_def pkt_ex_def block_new_def)
  have d4: "(4 - i_cc (pid spu_ex 200)) AND 0x0f \<noteq> 1" and d2: "(2 - i_cc (pid spu_ex 200)) AND 0x0f \<noteq> 1"
    by (simp_all add: spu_ex_pid pid_ex_def)
  note m4 = GatherData_continuity_mismatch [OF e s f p4 d4]
  note m2 = GatherData_continuity_mismatch [OF e s f p2 d2]
  have q1: "pkt_ex c ! 1 AND 0x80 = 0" "(pkt_ex c ! 1 AND 0x40 \<noteq> 0) = False"
    "pkt_ex c ! Suc 0 AND 0x40 = 0" for c
    by (simp_all add: pkt_ex_def)
  have q4: "pkt_ex 4 ! 3 AND 0x20 = 0" "(pkt_ex 4 ! 3 AND 0x10 \<noteq> 0) = True"
    "uint (pkt_ex 4 ! 3 AND 0x0f) = 4" "(pkt_ex 4 ! 3 AND 0x80 \<noteq> 0) = False"
    by (simp_all add: pkt_ex_def)
  have q2: "pkt_ex 2 ! 3 AND 0x20 = 0" "(pkt_ex 2 ! 3 AND 0x10 \<noteq> 0) = True"
    "uint (pkt_ex 2 ! 3 AND 0x0f) = 2" "(pkt_ex 2 ! 3 AND 0x80 \<noteq> 0) = False"
    by (simp_all add: pkt_ex_def)
  have first: "(case GatherData env_ex spu_ex 200 (block_new env_ex (pkt_ex 4)) of
      Inl f \<Rightarrow> None
    | Inr (r, d') \<Rightarrow> Some (r, msgs d', i_cc (pid d' 200),
                           map_option (\<lambda>e. map i_flags (p_data e)) (es (pid d' 200))))
   = Some (False, [(Warn, ''discontinuity received 0x%x instead of 0x%x (pid=%d)'', [4, 3, 200])],
           4, Some [{BLOCK_FLAG_CORRUPTED}, {}])"
    unfolding m4
    by (subst GatherData_plain [OF pkt_ex_len _ _ q1(1) q4(1)])
       (simp_all add: spu_ex_fields q1 q4 pkt_ex_drop spu_ex_pid pid_ex_def pid_zero_def es_ex_def
         es_format_Init_def GatherData_continuity_def GatherData_scrambled_def
         GatherData_gather_def es_append_def GatherData_complete_def es_set_def block_new_def
         chain_taint_def)
  have second: "(case GatherData env_ex spu_ex 200 (block_new env_ex (pkt_ex 2)) of
      Inl f \<Rightarrow> None
    | Inr (r, d') \<Rightarrow> Some (r, msgs d', i_cc (pid d' 200),
                           map_option (\<lambda>e. map i_flags (p_data e)) (es (pid d' 200))))
   = Some (False, [], 2, Some [{}, {}])"
    unfolding m2
    by (subst GatherData_plain [OF pkt_ex_len _ _ q1(1) q2(1)])
       (simp_all add: spu_ex_fields q1 q2 pkt_ex_drop spu_ex_pid pid_ex_def pid_zero_def es_ex_def
         es_format_Init_def GatherData_continuity_def GatherData_scrambled_def
         GatherData_gather_def es_append_def GatherData_complete_def es_set_def block_new_def
         chain_taint_def)
  show ?thesis
    using first second by simp
qed

subsection \<open>Timestamps of a PES\<close>

lemma sent_blocks_append: "sent_blocks (xs @ ys) = sent_blocks xs @ sent_blocks ys"
  by (simp add: sent_blocks_def)

lemma sent_blocks_extra:
  "sent_blocks (map (\<lambda>x. Es_out_Send (es_id x) b) xs) = replicate (length xs) b"
  by (induction xs) (simp_all add: sent_blocks_def)

lemma sent_blocks_deliver:
  "sent_blocks (deliver d pd e b) = replicate (Suc (length (extra_es pd))) b"
proof -
  have "sent_blocks (deliver d pd e b) = replicate (length (extra_es pd)) b @ [b]"
    unfolding deliver_def sent_blocks_append sent_blocks_extra
    by (simp add: sent_blocks_def)
  then show ?thesis
    by (simp add: replicate_append_same)
qed

lemma sent_blocks_delivers:
  "set (sent_blocks (concat (map (deliver d pd e) blocks))) = set blocks"
proof (induction blocks)
  case Nil
  then show ?case by (simp add: sent_blocks_def)
next
  case (Cons b blocks)
  have "set (sent_blocks (deliver d pd e b)) = {b}"
    unfolding sent_blocks_deliver by (auto simp: set_replicate_conv_if)
  then show ?case
    using Cons by (simp add: sent_blocks_append)
qed

lemma skip_header_stamp:
  "skip_header chain n = b # bs \<Longrightarrow>
     (\<exists>b0 \<in> set chain. i_pts b = i_pts b0 \<and> i_dts b = i_dts b0)"
proof (induction chain n rule: skip_header.induct)
  case (1 n)
  then show ?case by simp
next
  case (2 c cs n)
  then show ?case by (auto split: if_splits)
qed

lemma block_ChainGather_stamp:
  "i_pts (block_ChainGather env b bs) = i_pts b" "i_dts (block_ChainGather env b bs) = i_dts b"
  by (simp_all add: block_ChainGather_def)

lemma opus_au_stamp:
  "i_pts (opus_au env blk buf n st et) = i_pts blk" "i_dts (opus_au env blk buf n st et) = i_dts blk"
  by (simp_all add: opus_au_def Let_def)

lemma Opus_turn_au:
  "Opus_turn env blk buf len = (lg, Opus_au au buf' len') \<Longrightarrow>
     i_pts au = i_pts blk \<and> i_dts au = i_dts blk"
  unfolding Opus_turn_def Let_def
  by (auto split: option.splits prod.splits if_splits simp: opus_au_stamp)

lemma Opus_loop_stamp:
  "Opus_loop env blk buf len oc lg = Inr (blocks, lg') \<Longrightarrow>
   \<forall>b \<in> set oc. i_pts b = i_pts blk \<and> i_dts b = i_dts blk \<Longrightarrow>
   \<forall>b \<in> set blocks. i_pts b = i_pts blk \<and> i_dts b = i_dts blk"
proof (induction env blk buf len oc lg rule: Opus_loop.induct)
  case (1 env blk buf len oc lg)
  show ?case
  proof (cases "len > 3 \<and> push_bit 3 (uint (p_buffer blk ! buf))
                   OR drop_bit 5 (uint (p_buffer blk ! (buf + 1))) = 0x3ff")
    case False
    then have "blocks = oc"
      using "1.prems"(1) by (subst (asm) Opus_loop.simps) auto
    then show ?thesis using "1.prems"(2) by simp
  next
    case True
    obtain l1 st where t: "Opus_turn env blk buf len = (l1, st)"
      by (cases "Opus_turn env blk buf len")
    show ?thesis
    proof (cases st)
      case Opus_stop
      then have "blocks = oc"
        using "1.prems"(1) True t by (subst (asm) Opus_loop.simps) auto
      then show ?thesis using "1.prems"(2) by simp
    next
      case Opus_overrun
      then show ?thesis
        using "1.prems"(1) True t by (subst (asm) Opus_loop.simps) auto
    next
      case (Opus_au au buf' len')
      have r: "Opus_loop env blk buf' len' (oc @ [au]) (lg @ l1) = Inr (blocks, lg')"
        using "1.prems"(1) True t Opus_au by (subst (asm) Opus_loop.simps) auto
      have a: "i_pts au = i_pts blk \<and> i_dts au = i_dts blk"
        using Opus_turn_au t Opus_au by blast
      show ?thesis
        using "1.IH" [OF True t [symmetric] Opus_au r] a "1.prems"(2)
        by auto
    qed
  qed
qed

lemma Opus_Parse_stamp:
  "Opus_Parse env blk = Inr (blocks, lg) \<Longrightarrow> b \<in> set blocks \<Longrightarrow>
     i_pts b = i_pts blk \<and> i_dts b = i_dts blk"
  using Opus_loop_stamp [of env blk 0 "length (p_buffer blk)" "[]" "[]" blocks lg]
  by (simp add: Opus_Parse_def)


lemma ParsePES_fixup_stamp:
  assumes "ParsePES_fixup env d pd e sz blk = Inr (blocks, lg)" and "b \<in> set blocks"
  shows "i_dts b = i_dts blk \<and>
     i_pts b =
       (if i_codec (fmt e) = VLC_CODEC_TELETEXT env \<and> i_codec (fmt e) \<noteq> VLC_CODEC_SUBT env
           \<and> i_pts blk \<le> VLC_TS_INVALID env
        then (case find (\<lambda>p. i_owner_number pd = i_number p) (owner_prg d pd) of
                Some p \<Rightarrow> if VLC_TS_INVALID env < i_pcr_value p
                          then VLC_TS_0 env + c_div (i_pcr_value p * 100) 9 + 40000
                          else i_pts blk
              | None \<Rightarrow> i_pts blk)
        else i_pts blk)"
proof (cases "i_codec (fmt e) = VLC_CODEC_OPUS env \<and> i_codec (fmt e) \<noteq> VLC_CODEC_SUBT env
    \<and> i_codec (fmt e) \<noteq> VLC_CODEC_TELETEXT env \<and> i_codec (fmt e) \<noteq> VLC_CODEC_ARIB_A env
    \<and> i_codec (fmt e) \<noteq> VLC_CODEC_ARIB_C env")
  case True
  then have "Opus_Parse env blk = Inr (blocks, lg)"
    using assms(1) by (auto simp: ParsePES_fixup_def split: if_splits)
  then have "i_pts b = i_pts blk \<and> i_dts b = i_dts blk"
    using Opus_Parse_stamp assms(2) by blast
  then show ?thesis
    using True by auto
next
  case False
  then show ?thesis
    using assms unfolding ParsePES_fixup_def null_terminate_def Let_def
    by (auto split: if_splits option.splits)
qed

lemma c_div_nonneg: "0 \<le> a \<Longrightarrow> 0 < b \<Longrightarrow> 0 \<le> c_div a b"
  by (simp add: c_div_def sgn_if pos_imp_zdiv_nonneg_iff)

lemma ParsePES_stamp_pts:
  "0 \<le> pts \<Longrightarrow> dts < 0 \<Longrightarrow>
     i_pts (ParsePES_stamp env pts dts ln b) = VLC_TS_0 env + c_div (pts * 100) 9 \<and>
     i_dts (ParsePES_stamp env pts dts ln b) = VLC_TS_0 env + c_div (pts * 100) 9"
  by (simp add: ParsePES_stamp_def Let_def)

lemma ParsePES_stamp_none:
  "pts < 0 \<Longrightarrow> dts < 0 \<Longrightarrow>
     i_pts (ParsePES_stamp env pts dts ln b) = i_pts b \<and>
     i_dts (ParsePES_stamp env pts dts ln b) = i_dts b"
  by (simp add: ParsePES_stamp_def Let_def)

lemma ParsePES_blocks_fixup:
  assumes "ParsePES_blocks env d pd e p_pes = Inr (lg, blocks)" and "b \<in> set blocks"
    and "ParsePES_header (pkt_byte env (take 34 (chain_bytes p_pes))) = Some (i_skip, pts, dts)"
  shows "\<exists>sk ln sz b1 bs. skip_header p_pes sk = b1 # bs \<and>
     ParsePES_fixup env d pd e sz (block_ChainGather env (ParsePES_stamp env pts dts ln b1) bs)
       = Inr (blocks, lg)"
  using assms unfolding ParsePES_blocks_def Let_def
  apply (auto split: if_splits option.splits list.splits sum.splits prod.splits)
  apply blast
  done

lemma ParsePES_out:
  assumes "ParsePES env d pd e p_pes = Inr d'"
  shows "\<exists>lg blocks. ParsePES_blocks env d pd e p_pes = Inr (lg, blocks) \<and>
     out d' = out d @ concat (map (deliver d pd e) blocks) \<and> msgs d' = msgs d @ lg \<and>
     pid d' = pid d"
  using assms unfolding ParsePES_def
  by (auto split: sum.splits)

text \<open>C10 (as amended). Let the player's invalid timestamp lie below its timestamp 0, and let
  the blocks of the chain carry no timestamp. Every block that \<^verbatim>\<open>ParsePES\<close> sends for a PES whose
  header carries a presentation timestamp but no decoding timestamp has both timestamps equal to
  the presentation timestamp of the header, converted from 90 kHz to microseconds. For a PES with
  neither timestamp the decoding timestamp of every block sent is unset. Its presentation
  timestamp is unset too, except on a teletext stream (a codec other than the subtitle codec,
  which is tested first) whose program has a clock reference above the invalid timestamp: there
  the presentation timestamp is that clock reference, converted, plus 40 ms.\<close>

theorem ParsePES_timestamps:
  assumes "VLC_TS_INVALID env < VLC_TS_0 env"
    and "ParsePES_header (pkt_byte env (take 34 (chain_bytes p_pes))) = Some (i_skip, pts, dts)"
    and "\<forall>b0 \<in> set p_pes. i_pts b0 = VLC_TS_INVALID env \<and> i_dts b0 = VLC_TS_INVALID env"
    and "ParsePES env d pd e p_pes = Inr d'"
    and "b \<in> set (sent_blocks (drop (length (out d)) (out d')))"
  shows "(0 \<le> pts \<and> dts < 0 \<longrightarrow>
            i_pts b = VLC_TS_0 env + c_div (pts * 100) 9 \<and> i_dts b = i_pts b) \<and>
         (pts < 0 \<and> dts < 0 \<longrightarrow>
            i_dts b = VLC_TS_INVALID env \<and>
            i_pts b =
              (if i_codec (fmt e) = VLC_CODEC_TELETEXT env \<and> i_codec (fmt e) \<noteq> VLC_CODEC_SUBT env
               then (case find (\<lambda>p. i_owner_number pd = i_number p) (owner_prg d pd) of
                       Some p \<Rightarrow> if VLC_TS_INVALID env < i_pcr_value p
                                 then VLC_TS_0 env + c_div (i_pcr_value p * 100) 9 + 40000
                                 else VLC_TS_INVALID env
                     | None \<Rightarrow> VLC_TS_INVALID env)
               else VLC_TS_INVALID env))"
proof -
  obtain lg blocks where pb: "ParsePES_blocks env d pd e p_pes = Inr (lg, blocks)"
    and o: "out d' = out d @ concat (map (deliver d pd e) blocks)"
    using ParsePES_out [OF assms(4)] by blast
  have "b \<in> set blocks"
    using assms(5) unfolding o by (simp add: sent_blocks_delivers)
  then obtain sk ln sz b1 bs where sk: "skip_header p_pes sk = b1 # bs"
    and fx: "ParsePES_fixup env d pd e sz
               (block_ChainGather env (ParsePES_stamp env pts dts ln b1) bs) = Inr (blocks, lg)"
    and bb: "b \<in> set blocks"
    using ParsePES_blocks_fixup [OF pb _ assms(2)] by blast
  let ?g = "block_ChainGather env (ParsePES_stamp env pts dts ln b1) bs"
  note f = ParsePES_fixup_stamp [OF fx bb]
  have u: "i_pts b1 = VLC_TS_INVALID env \<and> i_dts b1 = VLC_TS_INVALID env"
    using skip_header_stamp [OF sk] assms(3) by auto
  show ?thesis
  proof (intro conjI impI)
    assume a: "0 \<le> pts \<and> dts < 0"
    then have g: "i_pts ?g = VLC_TS_0 env + c_div (pts * 100) 9" "i_dts ?g = i_pts ?g"
      using ParsePES_stamp_pts [of pts dts env ln b1] by (simp_all add: block_ChainGather_stamp)
    have "0 \<le> c_div (pts * 100) 9"
      using a by (intro c_div_nonneg) simp_all
    then have n: "\<not> i_pts ?g \<le> VLC_TS_INVALID env"
      using g(1) assms(1) by simp
    show "i_pts b = VLC_TS_0 env + c_div (pts * 100) 9"
      using f g(1) n by simp
    then show "i_dts b = i_pts b"
      using f g by simp
  next
    assume a: "pts < 0 \<and> dts < 0"
    then have g: "i_pts ?g = VLC_TS_INVALID env" "i_dts ?g = VLC_TS_INVALID env"
      using ParsePES_stamp_none [of pts dts env ln b1] u by (simp_all add: block_ChainGather_stamp)
    show "i_dts b = VLC_TS_INVALID env"
      using f g by simp
    show "i_pts b =
              (if i_codec (fmt e) = VLC_CODEC_TELETEXT env \<and> i_codec (fmt e) \<noteq> VLC_CODEC_SUBT env
               then (case find (\<lambda>p. i_owner_number pd = i_number p) (owner_prg d pd) of
                       Some p \<Rightarrow> if VLC_TS_INVALID env < i_pcr_value p
                                 then VLC_TS_0 env + c_div (i_pcr_value p * 100) 9 + 40000
                                 else VLC_TS_INVALID env
                     | None \<Rightarrow> VLC_TS_INVALID env)
               else VLC_TS_INVALID env)"
      using f g by (auto split: option.splits)
  qed
qed

lemma pes_pts_ex_header:
  "ParsePES_header (pkt_byte env_ex (take 34 (chain_bytes [block_new env_ex pes_pts_ex])))
     = Some (14, 9, -1)"
proof -
  have t: "take 34 (chain_bytes [block_new env_ex pes_pts_ex]) = pes_pts_ex"
    by (simp add: chain_bytes_def block_new_def pes_pts_ex_def)
  have n: "pkt_byte env_ex pes_pts_ex 3 = 0xE0" "pkt_byte env_ex pes_pts_ex 6 = 0x80"
    "pkt_byte env_ex pes_pts_ex 7 = 0x80" "pkt_byte env_ex pes_pts_ex 8 = 5"
    by (simp_all add: pkt_byte_def pes_pts_ex_def)
  have p: "pes_timestamp (pkt_byte env_ex pes_pts_ex) 9 = 9"
    by (simp add: pes_timestamp_def pkt_byte_def pes_pts_ex_def)
  show ?thesis
    unfolding t ParsePES_header_def n p by simp
qed


lemma env_ex_codecs:
  "VLC_CODEC_MPGV env_ex = VLC_FOURCC 0x6D 0x70 0x67 0x76"
  "VLC_CODEC_SUBT env_ex = VLC_FOURCC 0x73 0x75 0x62 0x74"
  "VLC_CODEC_TELETEXT env_ex = VLC_FOURCC 0x74 0x65 0x6C 0x78"
  "VLC_CODEC_ARIB_A env_ex = VLC_FOURCC 0x61 0x72 0x62 0x61"
  "VLC_CODEC_ARIB_C env_ex = VLC_FOURCC 0x61 0x72 0x62 0x63"
  "VLC_CODEC_OPUS env_ex = VLC_FOURCC 0x4F 0x70 0x75 0x73"
  "VLC_TS_0 env_ex = 1" "VLC_TS_INVALID env_ex = 0"
  by (simp_all add: env_ex_def)

lemma pes_pts_ex_blocks:
  "ParsePES_blocks env_ex d (pid_ex 200 2 e0) (es_ex VIDEO_ES (VLC_CODEC_MPGV env_ex) [])
     [block_new env_ex pes_pts_ex]
   = Inr ([], [\<lparr>p_buffer = [0xAA], i_flags = {}, i_pts = 101, i_dts = 101, i_length = 0,
               i_nb_samples = 0\<rparr>])"
proof -
  have t: "take 34 (chain_bytes [block_new env_ex pes_pts_ex]) = pes_pts_ex"
    by (simp add: chain_bytes_def block_new_def pes_pts_ex_def)
  have n: "pkt_byte env_ex pes_pts_ex 0 = 0" "pkt_byte env_ex pes_pts_ex 1 = 0"
    "pkt_byte env_ex pes_pts_ex 2 = 1"
    by (simp_all add: pkt_byte_def pes_pts_ex_def)
  have c: "ParsePES_codec env_ex (es_ex VIDEO_ES (VLC_CODEC_MPGV env_ex) [])
             [block_new env_ex pes_pts_ex] 14 = Some (14, 0, 0)"
    by (simp add: ParsePES_codec_def es_ex_def es_format_Init_def env_ex_codecs VLC_FOURCC_def)
  have k: "skip_header [block_new env_ex pes_pts_ex] 14 = [(block_new env_ex pes_pts_ex)\<lparr>p_buffer := [0xAA]\<rparr>]"
    by (simp add: block_new_def pes_pts_ex_def)
  have s: "ParsePES_stamp env_ex 9 (-1) 0 ((block_new env_ex pes_pts_ex)\<lparr>p_buffer := [0xAA]\<rparr>)
     = \<lparr>p_buffer = [0xAA], i_flags = {}, i_pts = 101, i_dts = 101, i_length = 0, i_nb_samples = 0\<rparr>"
    by (simp add: ParsePES_stamp_def block_new_def env_ex_codecs c_div_def)
  have f: "ParsePES_fixup env_ex d (pid_ex 200 2 e0) (es_ex VIDEO_ES (VLC_CODEC_MPGV env_ex) []) 0 b
     = Inr ([b], [])" for b
    by (simp add: ParsePES_fixup_def es_ex_def es_format_Init_def env_ex_codecs VLC_FOURCC_def)
  have h: "pes_pts_ex = take 34 (chain_bytes [block_new env_ex pes_pts_ex])"
    using t by simp
  have sc: "b_scrambled (pid_ex 200 2 e0) = False"
    by (simp add: pid_ex_def pid_zero_def)
  show ?thesis
    unfolding ParsePES_blocks_def Let_def t n sc
    unfolding pes_pts_ex_header [unfolded t]
    by (simp add: c k s f block_ChainGather_def del: skip_header.simps)
qed


lemma video_ex_out: "out video_ex = []" "b_trust_pcr video_ex = False"
  by (simp_all add: video_ex_def p_sys_zero_def)

lemma pes_plain_ex_header:
  "ParsePES_header (pkt_byte env_ex (take 34 (chain_bytes [block_new env_ex pes_plain_ex])))
     = Some (9, -1, -1)"
proof -
  have t: "take 34 (chain_bytes [block_new env_ex pes_plain_ex]) = pes_plain_ex"
    by (simp add: chain_bytes_def block_new_def pes_plain_ex_def)
  have n: "pkt_byte env_ex pes_plain_ex 3 = 0xBD" "pkt_byte env_ex pes_plain_ex 6 = 0x80"
    "pkt_byte env_ex pes_plain_ex 7 = 0" "pkt_byte env_ex pes_plain_ex 8 = 0"
    by (simp_all add: pkt_byte_def pes_plain_ex_def)
  show ?thesis
    unfolding t ParsePES_header_def n by simp
qed

lemma teletext_ex_pid:
  "pid teletext_ex 300 = (pid_ex 300 2 (es_ex SPU_ES (VLC_CODEC_TELETEXT env_ex) []))
                  \<lparr>p_owner := Some 100, i_owner_number := 1\<rparr>"
  "psi (pid teletext_ex 100) = Some \<lparr>psi_handle = False, i_pat_version = -1, i_sdt_version = -1,
                    prg = [\<lparr>handle = Some 1, i_version = 0, i_number = 1, i_pid_pcr = 101,
                            i_pid_pmt = 100, i_pcr_value = 900000, iod = None\<rparr>]\<rparr>"
  "out teletext_ex = []" "b_trust_pcr teletext_ex = False"
  by (simp_all add: teletext_ex_def p_sys_zero_def)

lemma pes_plain_ex_blocks:
  "ParsePES_blocks env_ex teletext_ex (pid teletext_ex 300)
     (es_ex SPU_ES (VLC_CODEC_TELETEXT env_ex) []) [block_new env_ex pes_plain_ex]
   = Inr ([], [\<lparr>p_buffer = [0x55], i_flags = {}, i_pts = 10040001, i_dts = 0, i_length = 0,
               i_nb_samples = 0\<rparr>])"
proof -
  let ?e = "es_ex SPU_ES (VLC_CODEC_TELETEXT env_ex) []"
  have t: "take 34 (chain_bytes [block_new env_ex pes_plain_ex]) = pes_plain_ex"
    by (simp add: chain_bytes_def block_new_def pes_plain_ex_def)
  have n: "pkt_byte env_ex pes_plain_ex 0 = 0" "pkt_byte env_ex pes_plain_ex 1 = 0"
    "pkt_byte env_ex pes_plain_ex 2 = 1"
    by (simp_all add: pkt_byte_def pes_plain_ex_def)
  have c: "ParsePES_codec env_ex ?e [block_new env_ex pes_plain_ex] 9 = Some (9, 0, 0)"
    by (simp add: ParsePES_codec_def es_ex_def es_format_Init_def env_ex_codecs VLC_FOURCC_def)
  have k: "skip_header [block_new env_ex pes_plain_ex] 9
             = [(block_new env_ex pes_plain_ex)\<lparr>p_buffer := [0x55]\<rparr>]"
    by (simp add: block_new_def pes_plain_ex_def)
  have s: "ParsePES_stamp env_ex (-1) (-1) 0 ((block_new env_ex pes_plain_ex)\<lparr>p_buffer := [0x55]\<rparr>)
     = \<lparr>p_buffer = [0x55], i_flags = {}, i_pts = 0, i_dts = 0, i_length = 0, i_nb_samples = 0\<rparr>"
    by (simp add: ParsePES_stamp_def block_new_def env_ex_codecs c_div_def)
  have ow: "owner_prg teletext_ex (pid teletext_ex 300) =
       [\<lparr>handle = Some 1, i_version = 0, i_number = 1, i_pid_pcr = 101,
         i_pid_pmt = 100, i_pcr_value = 900000, iod = None\<rparr>]"
    by (simp add: owner_prg_def teletext_ex_pid)
  have f: "ParsePES_fixup env_ex teletext_ex (pid teletext_ex 300) ?e 0
      \<lparr>p_buffer = [0x55], i_flags = {}, i_pts = 0, i_dts = 0, i_length = 0, i_nb_samples = 0\<rparr>
     = Inr ([\<lparr>p_buffer = [0x55], i_flags = {}, i_pts = 10040001, i_dts = 0, i_length = 0,
               i_nb_samples = 0\<rparr>], [])"
    unfolding ParsePES_fixup_def ow
    by (simp add: es_ex_def es_format_Init_def env_ex_codecs VLC_FOURCC_def teletext_ex_pid
        c_div_def)
  have sc: "b_scrambled (pid teletext_ex 300) = False"
    by (simp add: teletext_ex_pid pid_ex_def pid_zero_def)
  show ?thesis
    unfolding ParsePES_blocks_def Let_def t n sc
    unfolding pes_plain_ex_header [unfolded t]
    by (simp add: c k s f block_ChainGather_def del: skip_header.simps)
qed

text \<open>A video PES with the presentation timestamp 9 only: the block sent has both timestamps
  101. A teletext PES without timestamps, in a program whose last clock reference was 900000: the
  block sent has no decoding timestamp and the presentation timestamp 10040001.\<close>

theorem ParsePES_timestamps_witness:
  "(\<exists>d' b. ParsePES env_ex video_ex (pid video_ex 200)
              (es_ex VIDEO_ES (VLC_CODEC_MPGV env_ex) []) [block_new env_ex pes_pts_ex] = Inr d'
     \<and> ParsePES_header (pkt_byte env_ex (take 34 (chain_bytes [block_new env_ex pes_pts_ex])))
         = Some (14, 9, -1)
     \<and> sent_blocks (out d') = [b] \<and> i_pts b = 101 \<and> i_dts b = 101)
   \<and> (\<exists>d' b. ParsePES env_ex teletext_ex (pid teletext_ex 300)
              (es_ex SPU_ES (VLC_CODEC_TELETEXT env_ex) []) [block_new env_ex pes_plain_ex] = Inr d'
     \<and> ParsePES_header (pkt_byte env_ex (take 34 (chain_bytes [block_new env_ex pes_plain_ex])))
         = Some (9, -1, -1)
     \<and> sent_blocks (out d') = [b] \<and> i_pts b = 10040001 \<and> i_dts b = VLC_TS_INVALID env_ex)"
proof -
  have i: "VLC_TS_INVALID env_ex < VLC_TS_0 env_ex"
    by (simp add: env_ex_codecs)
  have first: "\<exists>d' b. ParsePES env_ex video_ex (pid video_ex 200)
              (es_ex VIDEO_ES (VLC_CODEC_MPGV env_ex) []) [block_new env_ex pes_pts_ex] = Inr d'
     \<and> ParsePES_header (pkt_byte env_ex (take 34 (chain_bytes [block_new env_ex pes_pts_ex])))
         = Some (14, 9, -1)
     \<and> sent_blocks (out d') = [b] \<and> i_pts b = 101 \<and> i_dts b = 101"
  proof -
    let ?e = "es_ex VIDEO_ES (VLC_CODEC_MPGV env_ex) []"
    let ?b = "\<lparr>p_buffer = [0xAA], i_flags = {}, i_pts = 101, i_dts = 101, i_length = 0,
               i_nb_samples = 0\<rparr> :: block"
    let ?d = "video_ex\<lparr>msgs := msgs video_ex @ [],
                out := out video_ex @ concat (map (deliver video_ex (pid video_ex 200) ?e) [?b])\<rparr>"
    have run: "ParsePES env_ex video_ex (pid video_ex 200) ?e [block_new env_ex pes_pts_ex] = Inr ?d"
      unfolding ParsePES_def video_ex_pid pes_pts_ex_blocks by simp
    have o: "sent_blocks (out ?d) = [?b]"
      by (simp add: video_ex_out sent_blocks_deliver video_ex_pid pid_ex_def pid_zero_def)
    have m: "?b \<in> set (sent_blocks (drop (length (out video_ex)) (out ?d)))"
      using o by (simp add: video_ex_out)
    have u: "\<forall>b0 \<in> set [block_new env_ex pes_pts_ex].
               i_pts b0 = VLC_TS_INVALID env_ex \<and> i_dts b0 = VLC_TS_INVALID env_ex"
      by (simp add: block_new_def)
    have "i_pts ?b = VLC_TS_0 env_ex + c_div (9 * 100) 9 \<and> i_dts ?b = i_pts ?b"
      using ParsePES_timestamps [OF i pes_pts_ex_header u run m] by simp
    then have "i_pts ?b = 101 \<and> i_dts ?b = 101"
      by (simp add: env_ex_codecs c_div_def)
    then show ?thesis
      using run o pes_pts_ex_header by blast
  qed
  have second: "\<exists>d' b. ParsePES env_ex teletext_ex (pid teletext_ex 300)
              (es_ex SPU_ES (VLC_CODEC_TELETEXT env_ex) []) [block_new env_ex pes_plain_ex] = Inr d'
     \<and> ParsePES_header (pkt_byte env_ex (take 34 (chain_bytes [block_new env_ex pes_plain_ex])))
         = Some (9, -1, -1)
     \<and> sent_blocks (out d') = [b] \<and> i_pts b = 10040001 \<and> i_dts b = VLC_TS_INVALID env_ex"
  proof -
    let ?e = "es_ex SPU_ES (VLC_CODEC_TELETEXT env_ex) []"
    let ?b = "\<lparr>p_buffer = [0x55], i_flags = {}, i_pts = 10040001, i_dts = 0, i_length = 0,
               i_nb_samples = 0\<rparr> :: block"
    let ?d = "teletext_ex\<lparr>msgs := msgs teletext_ex @ [],
                out := out teletext_ex
                  @ concat (map (deliver teletext_ex (pid teletext_ex 300) ?e) [?b])\<rparr>"
    have run: "ParsePES env_ex teletext_ex (pid teletext_ex 300) ?e [block_new env_ex pes_plain_ex]
         = Inr ?d"
      unfolding ParsePES_def pes_plain_ex_blocks by simp
    have o: "sent_blocks (out ?d) = [?b]"
      by (simp add: teletext_ex_pid sent_blocks_deliver pid_ex_def pid_zero_def)
    have m: "?b \<in> set (sent_blocks (drop (length (out teletext_ex)) (out ?d)))"
      using o by (simp add: teletext_ex_pid)
    have u: "\<forall>b0 \<in> set [block_new env_ex pes_plain_ex].
               i_pts b0 = VLC_TS_INVALID env_ex \<and> i_dts b0 = VLC_TS_INVALID env_ex"
      by (simp add: block_new_def)
    have ow: "owner_prg teletext_ex (pid teletext_ex 300) =
         [\<lparr>handle = Some 1, i_version = 0, i_number = 1, i_pid_pcr = 101,
           i_pid_pmt = 100, i_pcr_value = 900000, iod = None\<rparr>]"
      by (simp add: owner_prg_def teletext_ex_pid)
    have "i_dts ?b = VLC_TS_INVALID env_ex \<and> i_pts ?b = 10040001"
      using ParsePES_timestamps [OF i pes_plain_ex_header u run m]
      by (simp add: env_ex_codecs)
    then show ?thesis
      using run o pes_plain_ex_header by blast
  qed
  show ?thesis
    using first second by blast
qed

text \<open>A teletext PES without timestamps, in a program whose last clock reference was 900000:
  the block sent has the presentation timestamp 10040001.\<close>

theorem ParsePES_teletext_counterexample:
  "\<exists>d' b. ParsePES env_ex teletext_ex (pid teletext_ex 300)
              (es_ex SPU_ES (VLC_CODEC_TELETEXT env_ex) []) [block_new env_ex pes_plain_ex] = Inr d'
     \<and> ParsePES_header (pkt_byte env_ex (take 34 (chain_bytes [block_new env_ex pes_plain_ex])))
         = Some (9, -1, -1)
     \<and> sent_blocks (out d') = [b] \<and> i_pts b = 10040001 \<and> i_pts b \<noteq> VLC_TS_INVALID env_ex"
proof -
  let ?e = "es_ex SPU_ES (VLC_CODEC_TELETEXT env_ex) []"
  let ?b = "\<lparr>p_buffer = [0x55], i_flags = {}, i_pts = 10040001, i_dts = 0, i_length = 0,
             i_nb_samples = 0\<rparr> :: block"
  let ?d = "teletext_ex\<lparr>msgs := msgs teletext_ex @ [],
              out := out teletext_ex @ concat (map (deliver teletext_ex (pid teletext_ex 300) ?e) [?b])\<rparr>"
  have run: "ParsePES env_ex teletext_ex (pid teletext_ex 300) ?e [block_new env_ex pes_plain_ex]
       = Inr ?d"
    unfolding ParsePES_def pes_plain_ex_blocks by simp
  have o: "sent_blocks (out ?d) = [?b]"
    by (simp add: teletext_ex_pid sent_blocks_deliver pid_ex_def pid_zero_def)
  have "i_pts ?b = 10040001 \<and> i_pts ?b \<noteq> VLC_TS_INVALID env_ex"
    by (simp add: env_ex_codecs)
  then show ?thesis
    using run o pes_plain_ex_header by blast
qed

end
